theory Spec2Isabelle
  imports Complex_Main
begin

section \<open>Values\<close>

text \<open>
  The storage layer (js/storage.js) and the unit utilities (js/utils.js) of the tile
  inventory application, as state-passing functions.

  Conventions of the embedding.
  \<^item> A JavaScript number is an exact rational; \<open>None\<close> in a \<open>rat option\<close> stands for a
    value that \<open>Number\<close> turns into NaN (a missing key, \<open>undefined\<close>, a non-numeric value).
    Floating-point rounding error and the infinities are outside the model.
  \<^item> A string is a list of ASCII characters.
  \<^item> A time stamp (\<open>Date.now()\<close>, \<open>new Date().toISOString()\<close>) is the number of
    milliseconds it denotes.
  \<^item> A key that the code reads with a fallback (\<open>x || default\<close>, \<open>if (x)\<close>,
    \<open>Array.isArray(x)\<close>) is an \<open>option\<close>; \<open>None\<close> is the case in which the fallback is taken.
  \<^item> The adapter is the default one, \<open>LocalStorageAdapter\<close>; its \<open>setItem\<close> may throw,
    which is the one failure of persistence there is. A console entry is its message.
  \<^item> The text kept in localStorage, and the text exchanged by export and import, is
    represented by the document it parses to (\<open>Encodes d\<close>), or by \<open>Unparsable\<close> when
    \<open>JSON.parse\<close> throws on it. \<open>deepClone\<close>, that is \<open>JSON.parse (JSON.stringify x)\<close>,
    is then the identity and is not written.
\<close>

type_synonym timestamp = nat

definition num_or0 :: "rat option \<Rightarrow> rat" where
  \<comment> \<open>\<open>Number(v) || 0\<close>\<close>
  "num_or0 v = (case v of None \<Rightarrow> 0 | Some q \<Rightarrow> q)"

definition js_round :: "rat \<Rightarrow> rat" where
  \<comment> \<open>\<open>Math.round\<close>: the nearest integer, a half rounded up\<close>
  "js_round x = of_int \<lfloor>x + 1 / 2\<rfloor>"

definition round3 :: "rat option \<Rightarrow> rat" where
  \<comment> \<open>\<open>Math.round((Number(v) || 0) * 1000) / 1000\<close>\<close>
  "round3 v = js_round (num_or0 v * 1000) / 1000"

definition lower_char :: "char \<Rightarrow> char" where
  "lower_char c =
     (case map_of (zip ''ABCDEFGHIJKLMNOPQRSTUVWXYZ'' ''abcdefghijklmnopqrstuvwxyz'') c of
        Some d \<Rightarrow> d
      | None \<Rightarrow> c)"

definition toLowerCase :: "string \<Rightarrow> string" where
  "toLowerCase s = map lower_char s"

definition is_space :: "char \<Rightarrow> bool" where
  "is_space c = (c \<in> set [CHR '' '', CHR 0x09, CHR 0x0A, CHR 0x0B, CHR 0x0C, CHR 0x0D])"

definition trim :: "string \<Rightarrow> string" where
  "trim s = rev (dropWhile is_space (rev (dropWhile is_space s)))"

definition digit_char :: "nat \<Rightarrow> char" where
  "digit_char d = ''0123456789abcdefghijklmnopqrstuvwxyz'' ! d"

function toString_radix :: "nat \<Rightarrow> nat \<Rightarrow> string" where
  "toString_radix b n =
     (if b < 2 \<or> n < b then [digit_char n]
      else toString_radix b (n div b) @ [digit_char (n mod b)])"
  by pat_completeness auto
termination
  by (relation "measure snd") auto

declare toString_radix.simps [simp del]

definition padStart3 :: "string \<Rightarrow> string" where
  \<comment> \<open>\<open>.padStart(3, '0')\<close>\<close>
  "padStart3 s = replicate (3 - length s) (CHR ''0'') @ s"

section \<open>Data model\<close>

record stock =
  boxes :: "rat option"
  pieces :: "rat option"
  sft :: "rat option"

record product =
  p_id :: string
  p_name :: string
  p_category :: string
  p_brand :: string
  p_sku :: string
  p_size :: string
  p_unitType :: string
  p_piecesPerBox :: rat
  p_sftPerBox :: rat
  p_costPrice :: rat
  p_sellingPricePerUnit :: rat
  p_currentStock :: "stock option"
  p_minStock :: "rat option"
  p_supplierName :: string
  p_supplierContact :: string
  p_location :: string
  p_imageUrl :: string
  p_dateAdded :: timestamp
  p_notes :: string

text \<open>The argument of \<open>addProduct\<close>: every key may be present or not.\<close>

record productData =
  pd_id :: "string option"
  pd_name :: "string option"
  pd_category :: "string option"
  pd_brand :: "string option"
  pd_sku :: "string option"
  pd_size :: "string option"
  pd_unitType :: "string option"
  pd_piecesPerBox :: "rat option"
  pd_sftPerBox :: "rat option"
  pd_costPrice :: "rat option"
  pd_sellingPricePerUnit :: "rat option"
  pd_currentStock :: "stock option option"
  pd_minStock :: "rat option option"
  pd_supplierName :: "string option"
  pd_supplierContact :: "string option"
  pd_location :: "string option"
  pd_imageUrl :: "string option"
  pd_dateAdded :: "timestamp option"
  pd_notes :: "string option"

record item =
  i_productId :: "string option"
  i_productName :: string
  i_quantity :: "rat option"
  i_unitType :: "string option"
  i_unitPrice :: rat
  i_totalAmount :: rat

text \<open>\<open>s_items = None\<close>: the \<open>items\<close> key holds something that is not an array.\<close>

record sale =
  s_id :: string
  s_dateTime :: timestamp
  s_items :: "item list option"
  s_totalAmount :: rat
  s_customerName :: string
  s_customerPhone :: string
  s_paymentMethod :: string
  s_paymentStatus :: string
  s_notes :: string

record saleData =
  sd_id :: "string option"
  sd_dateTime :: "timestamp option"
  sd_items :: "item list option option"
  sd_totalAmount :: "rat option"
  sd_customerName :: "string option"
  sd_customerPhone :: "string option"
  sd_paymentMethod :: "string option"
  sd_paymentStatus :: "string option"
  sd_notes :: "string option"

record purchase =
  pu_id :: string
  pu_dateTime :: timestamp
  pu_items :: "item list option"
  pu_totalCost :: rat
  pu_paymentStatus :: string
  pu_supplierName :: string
  pu_notes :: string

record purchaseData =
  pud_id :: "string option"
  pud_dateTime :: "timestamp option"
  pud_items :: "item list option option"
  pud_totalCost :: "rat option"
  pud_paymentStatus :: "string option"
  pud_supplierName :: "string option"
  pud_notes :: "string option"

record alert =
  a_id :: string
  a_productId :: "string option"
  a_productName :: string
  a_currentStock :: stock
  a_minRequired :: rat
  a_alertDate :: timestamp
  a_resolved :: bool
  a_resolvedAt :: "timestamp option"

record meta =
  m_version :: "int option"
  m_createdAt :: "timestamp option"
  m_updatedAt :: "timestamp option"
  m_importedAt :: "timestamp option"

record document =
  d_meta :: "meta option"
  d_products :: "product list option"
  d_sales :: "sale list option"
  d_purchases :: "purchase list option"
  d_alerts :: "alert list option"
  d_users :: "string list option"

datatype raw = Unparsable | Encodes document

datatype error = QuotaExceededError | SyntaxError | TypeError | Error string

datatype log_entry = Console_error string | Console_warn string

text \<open>
  A watcher registered with \<open>onChange\<close>: what is observed of a callback is the document it
  is called with and whether it throws.
\<close>

record watcher =
  w_id :: nat
  w_throws :: "document \<Rightarrow> bool"

text \<open>
  The module state (\<open>_dbCache\<close>, \<open>_watchers\<close>) and its environment: the localStorage item
  under \<open>DB_KEY\<close>, the console, the calls made to watchers, and the three sources the code
  reads without control over them. The \<open>n\<close>-th reading of the clock gives \<open>now_at n\<close>,
  the \<open>n\<close>-th \<open>Math.floor(Math.random() * 0xFFF)\<close> gives \<open>rand_at n mod 0xFFF\<close>, and
  the \<open>n\<close>-th \<open>localStorage.setItem\<close> throws iff \<open>quota_at n\<close>.
\<close>

record state =
  localStorage :: "raw option"
  dbCache :: "document option"
  watchers :: "watcher list"
  console :: "log_entry list"
  notified :: "(nat \<times> document) list"
  now_at :: "nat \<Rightarrow> timestamp"
  now_reads :: nat
  rand_at :: "nat \<Rightarrow> nat"
  rand_draws :: nat
  quota_at :: "nat \<Rightarrow> bool"
  set_calls :: nat

section \<open>Environment\<close>

definition DB_VERSION :: int where
  "DB_VERSION = 1"

definition nowISO :: "state \<Rightarrow> timestamp \<times> state" where
  "nowISO s = (now_at s (now_reads s), s\<lparr>now_reads := Suc (now_reads s)\<rparr>)"

definition random_0xFFF :: "state \<Rightarrow> nat \<times> state" where
  \<comment> \<open>\<open>Math.floor(Math.random() * 0xFFF)\<close>\<close>
  "random_0xFFF s = (rand_at s (rand_draws s) mod 4095, s\<lparr>rand_draws := Suc (rand_draws s)\<rparr>)"

definition console_put :: "log_entry \<Rightarrow> state \<Rightarrow> state" where
  "console_put e s = s\<lparr>console := console s @ [e]\<rparr>"

definition getItem :: "state \<Rightarrow> raw option" where
  "getItem s = localStorage s"

definition setItem :: "raw \<Rightarrow> state \<Rightarrow> (error + unit) \<times> state" where
  "setItem v s =
     (if quota_at s (set_calls s)
      then (Inl QuotaExceededError, s\<lparr>set_calls := Suc (set_calls s)\<rparr>)
      else (Inr (), s\<lparr>localStorage := Some v, set_calls := Suc (set_calls s)\<rparr>))"

definition emptyDB :: "state \<Rightarrow> document \<times> state" where
  "emptyDB s =
     (let (t1, s1) = nowISO s;
          (t2, s2) = nowISO s1
      in (\<lparr>d_meta = Some \<lparr>m_version = Some DB_VERSION, m_createdAt = Some t1,
                             m_updatedAt = Some t2, m_importedAt = None\<rparr>,
           d_products = Some [], d_sales = Some [], d_purchases = Some [],
           d_alerts = Some [], d_users = Some []\<rparr>, s2))"

definition generateId :: "string \<Rightarrow> state \<Rightarrow> string \<times> state" where
  "generateId prefix s =
     (let (t, s1) = nowISO s;
          (r, s2) = random_0xFFF s1
      in (prefix @ ''_'' @ toString_radix 36 t @ padStart3 (toString_radix 16 r), s2))"

section \<open>LocalStorage adapter\<close>

definition needs_migration :: "document \<Rightarrow> bool" where
  \<comment> \<open>\<open>!parsed.meta || parsed.meta.version !== DB_VERSION\<close>\<close>
  "needs_migration parsed =
     (case d_meta parsed of None \<Rightarrow> True | Some m \<Rightarrow> m_version m \<noteq> Some DB_VERSION)"

definition set_updatedAt :: "timestamp \<Rightarrow> document \<Rightarrow> document" where
  \<comment> \<open>\<open>d.meta = d.meta || {}; d.meta.updatedAt = t\<close>\<close>
  "set_updatedAt t d =
     d\<lparr>d_meta := Some ((case d_meta d of
                           None \<Rightarrow> \<lparr>m_version = None, m_createdAt = None,
                                     m_updatedAt = None, m_importedAt = None\<rparr>
                         | Some m \<Rightarrow> m)\<lparr>m_updatedAt := Some t\<rparr>)\<rparr>"

definition migrate :: "document \<Rightarrow> document \<Rightarrow> document" where
  \<comment> \<open>the three \<open>if (parsed.x) migrated.x = parsed.x\<close>\<close>
  "migrate parsed migrated =
     migrated\<lparr>d_products := (case d_products parsed of None \<Rightarrow> d_products migrated | Some ps \<Rightarrow> Some ps),
               d_sales := (case d_sales parsed of None \<Rightarrow> d_sales migrated | Some ss \<Rightarrow> Some ss),
               d_purchases := (case d_purchases parsed of None \<Rightarrow> d_purchases migrated | Some us \<Rightarrow> Some us)\<rparr>"

definition store_fresh :: "state \<Rightarrow> (error + document) \<times> state" where
  \<comment> \<open>\<open>const db = emptyDB(); localStorage.setItem(DB_KEY, JSON.stringify(db)); return deepClone(db)\<close>\<close>
  "store_fresh s =
     (let (db, s1) = emptyDB s
      in case setItem (Encodes db) s1 of
           (Inl e, s2) \<Rightarrow> (Inl e, s2)
         | (Inr _, s2) \<Rightarrow> (Inr db, s2))"

definition load_try :: "raw \<Rightarrow> state \<Rightarrow> (error + document) \<times> state" where
  \<comment> \<open>the body of the \<open>try\<close> block of \<open>load\<close>\<close>
  "load_try r s =
     (case r of
        Unparsable \<Rightarrow> (Inl SyntaxError, s)
      | Encodes parsed \<Rightarrow>
          if needs_migration parsed then
            (let (fresh, s1) = emptyDB s;
                 (t, s2) = nowISO s1;
                 migrated = set_updatedAt t (migrate parsed fresh)
             in case setItem (Encodes migrated) s2 of
                  (Inl e, s3) \<Rightarrow> (Inl e, s3)
                | (Inr _, s3) \<Rightarrow> (Inr migrated, s3))
          else (Inr parsed, s))"

definition load :: "state \<Rightarrow> (error + document) \<times> state" where
  "load s =
     (case getItem s of
        None \<Rightarrow> store_fresh s
      | Some r \<Rightarrow>
          (case load_try r s of
             (Inr d, s1) \<Rightarrow> (Inr d, s1)
           | (Inl e, s1) \<Rightarrow>
               store_fresh
                 (console_put (Console_error ''Failed to parse DB from localStorage, resetting DB:'') s1)))"

definition save :: "document \<Rightarrow> state \<Rightarrow> (error + bool) \<times> state" where
  "save dbObj s =
     (let (t, s1) = nowISO s;
          toSave = set_updatedAt t dbObj
      in case setItem (Encodes toSave) s1 of
           (Inl e, s2) \<Rightarrow> (Inl e, s2)
         | (Inr _, s2) \<Rightarrow> (Inr True, s2))"

section \<open>Storage controller\<close>

definition loadDB :: "bool \<Rightarrow> state \<Rightarrow> (error + document) \<times> state" where
  "loadDB force s =
     (case dbCache s of
        Some c \<Rightarrow>
          if \<not> force then (Inr c, s)
          else (case load s of
                  (Inl e, s1) \<Rightarrow> (Inl e, s1)
                | (Inr d, s1) \<Rightarrow> (Inr d, s1\<lparr>dbCache := Some d\<rparr>))
      | None \<Rightarrow>
          (case load s of
             (Inl e, s1) \<Rightarrow> (Inl e, s1)
           | (Inr d, s1) \<Rightarrow> (Inr d, s1\<lparr>dbCache := Some d\<rparr>)))"

definition call_watcher :: "document \<Rightarrow> watcher \<Rightarrow> state \<Rightarrow> state" where
  \<comment> \<open>\<open>try { fn(deepClone(_dbCache)); } catch (e) { console.error('watcher error', e); }\<close>\<close>
  "call_watcher c w s =
     (let s1 = s\<lparr>notified := notified s @ [(w_id w, c)]\<rparr>
      in if w_throws w c then console_put (Console_error ''watcher error'') s1 else s1)"

definition watcher_log :: "document \<Rightarrow> watcher list \<Rightarrow> log_entry list" where
  \<comment> \<open>what the watchers that throw leave on the console\<close>
  "watcher_log c ws =
     concat (map (\<lambda>w. if w_throws w c then [Console_error ''watcher error''] else []) ws)"

definition notify_watchers :: "state \<Rightarrow> state" where
  "notify_watchers s =
     (case dbCache s of
        None \<Rightarrow> s
      | Some c \<Rightarrow> fold (call_watcher c) (watchers s) s)"

definition saveDB :: "document \<Rightarrow> state \<Rightarrow> (error + bool) \<times> state" where
  "saveDB dbObj s =
     (case save dbObj s of
        (Inl e, s1) \<Rightarrow> (Inl e, s1)
      | (Inr _, s1) \<Rightarrow> (Inr True, notify_watchers (s1\<lparr>dbCache := Some dbObj\<rparr>)))"

definition onChange :: "watcher \<Rightarrow> state \<Rightarrow> state" where
  "onChange callback s = s\<lparr>watchers := watchers s @ [callback]\<rparr>"

definition unsubscribe :: "watcher \<Rightarrow> state \<Rightarrow> state" where
  \<comment> \<open>the function returned by \<open>onChange\<close>\<close>
  "unsubscribe callback s = s\<lparr>watchers := filter (\<lambda>fn. w_id fn \<noteq> w_id callback) (watchers s)\<rparr>"

definition coll :: "'a list option \<Rightarrow> 'a list" where
  \<comment> \<open>a collection as \<open>_getCollection\<close> reads it: a missing one is empty\<close>
  "coll v = (case v of None \<Rightarrow> [] | Some xs \<Rightarrow> xs)"

definition getCollection ::
  "(document \<Rightarrow> 'a list option) \<Rightarrow> state \<Rightarrow> (error + 'a list) \<times> state" where
  \<comment> \<open>\<open>_getCollection(name)\<close>; \<open>name\<close> is given by the selector of the key\<close>
  "getCollection sel s =
     (case loadDB False s of
        (Inl e, s1) \<Rightarrow> (Inl e, s1)
      | (Inr db, s1) \<Rightarrow> (Inr (coll (sel db)), s1))"

definition saveCollection ::
  "('a list \<Rightarrow> document \<Rightarrow> document) \<Rightarrow> 'a list \<Rightarrow> state \<Rightarrow> (error + bool) \<times> state" where
  \<comment> \<open>\<open>_saveCollection(name, collection)\<close>; \<open>name\<close> is given by the assignment to the key\<close>
  "saveCollection put collection s =
     (case loadDB False s of
        (Inl e, s1) \<Rightarrow> (Inl e, s1)
      | (Inr db, s1) \<Rightarrow> saveDB (put collection db) s1)"

definition put_products :: "product list \<Rightarrow> document \<Rightarrow> document" where
  "put_products xs db = db\<lparr>d_products := Some xs\<rparr>"

definition put_sales :: "sale list \<Rightarrow> document \<Rightarrow> document" where
  "put_sales xs db = db\<lparr>d_sales := Some xs\<rparr>"

definition put_purchases :: "purchase list \<Rightarrow> document \<Rightarrow> document" where
  "put_purchases xs db = db\<lparr>d_purchases := Some xs\<rparr>"

definition put_alerts :: "alert list \<Rightarrow> document \<Rightarrow> document" where
  "put_alerts xs db = db\<lparr>d_alerts := Some xs\<rparr>"

definition getAllProducts :: "state \<Rightarrow> (error + product list) \<times> state" where
  "getAllProducts s = getCollection d_products s"

definition getAllSales :: "state \<Rightarrow> (error + sale list) \<times> state" where
  "getAllSales s = getCollection d_sales s"

definition getAllPurchases :: "state \<Rightarrow> (error + purchase list) \<times> state" where
  "getAllPurchases s = getCollection d_purchases s"

definition getAllAlerts :: "state \<Rightarrow> (error + alert list) \<times> state" where
  "getAllAlerts s = getCollection d_alerts s"

section \<open>Products\<close>

definition assign :: "'a \<Rightarrow> 'a option \<Rightarrow> 'a" where
  \<comment> \<open>what \<open>Object.assign(defaults, data)\<close> leaves under one key\<close>
  "assign dflt given = (case given of None \<Rightarrow> dflt | Some v \<Rightarrow> v)"

definition new_product :: "string \<Rightarrow> timestamp \<Rightarrow> productData \<Rightarrow> product" where
  \<comment> \<open>the \<open>Object.assign\<close> of \<open>addProduct\<close>\<close>
  "new_product gid t pd =
     \<lparr>p_id = assign gid (pd_id pd),
      p_name = assign '''' (pd_name pd),
      p_category = assign '''' (pd_category pd),
      p_brand = assign '''' (pd_brand pd),
      p_sku = assign '''' (pd_sku pd),
      p_size = assign '''' (pd_size pd),
      p_unitType = assign ''Box'' (pd_unitType pd),
      p_piecesPerBox = assign 0 (pd_piecesPerBox pd),
      p_sftPerBox = assign 0 (pd_sftPerBox pd),
      p_costPrice = assign 0 (pd_costPrice pd),
      p_sellingPricePerUnit = assign 0 (pd_sellingPricePerUnit pd),
      p_currentStock =
        assign (Some \<lparr>boxes = Some 0, pieces = Some 0, sft = Some 0\<rparr>) (pd_currentStock pd),
      p_minStock = assign (Some 0) (pd_minStock pd),
      p_supplierName = assign '''' (pd_supplierName pd),
      p_supplierContact = assign '''' (pd_supplierContact pd),
      p_location = assign '''' (pd_location pd),
      p_imageUrl = assign '''' (pd_imageUrl pd),
      p_dateAdded = assign t (pd_dateAdded pd),
      p_notes = assign '''' (pd_notes pd)\<rparr>"

definition addProduct :: "productData \<Rightarrow> state \<Rightarrow> (error + product) \<times> state" where
  "addProduct pd s =
     (case getCollection d_products s of
        (Inl e, s1) \<Rightarrow> (Inl e, s1)
      | (Inr list, s1) \<Rightarrow>
          (let (gid, s2) = generateId ''prod'' s1;
               (t, s3) = nowISO s2;
               product = new_product gid t pd
           in case saveCollection put_products (list @ [product]) s3 of
                (Inl e, s4) \<Rightarrow> (Inl e, s4)
              | (Inr _, s4) \<Rightarrow> (Inr product, s4)))"

section \<open>Stock reconciliation\<close>

fun findIndex :: "('a \<Rightarrow> bool) \<Rightarrow> 'a list \<Rightarrow> nat option" where
  "findIndex P [] = None"
| "findIndex P (x # xs) = (if P x then Some 0 else map_option Suc (findIndex P xs))"

definition find_product :: "item \<Rightarrow> product list \<Rightarrow> nat option" where
  \<comment> \<open>\<open>products.find(p => p.id === item.productId)\<close>, as the position of the object found\<close>
  "find_product it products = findIndex (\<lambda>p. Some (p_id p) = i_productId it) products"

definition item_qty :: "item \<Rightarrow> rat" where
  "item_qty it = num_or0 (i_quantity it)"

definition item_unit :: "item \<Rightarrow> string" where
  \<comment> \<open>\<open>(item.unitType || '').toLowerCase()\<close>\<close>
  "item_unit it = toLowerCase (case i_unitType it of None \<Rightarrow> '''' | Some u \<Rightarrow> u)"

definition stock_or_zero :: "product \<Rightarrow> stock" where
  \<comment> \<open>\<open>product.currentStock || { boxes: 0, pieces: 0, sft: 0 }\<close>\<close>
  "stock_or_zero p =
     (case p_currentStock p of
        None \<Rightarrow> \<lparr>boxes = Some 0, pieces = Some 0, sft = Some 0\<rparr>
      | Some cs \<Rightarrow> cs)"

definition sale_apply :: "string \<Rightarrow> rat \<Rightarrow> stock \<Rightarrow> stock" where
  "sale_apply unitType qty cs =
     (if unitType = ''box'' \<or> unitType = ''boxes''
      then cs\<lparr>boxes := Some (num_or0 (boxes cs) - qty)\<rparr>
      else if unitType = ''piece'' \<or> unitType = ''pieces''
      then cs\<lparr>pieces := Some (num_or0 (pieces cs) - qty)\<rparr>
      else if unitType = ''sft'' \<or> unitType = ''s.f.t'' \<or> unitType = ''squarefeet''
              \<or> unitType = ''square feet''
      then cs\<lparr>sft := Some (num_or0 (sft cs) - qty)\<rparr>
      else cs\<lparr>pieces := Some (num_or0 (pieces cs) - qty)\<rparr>)"

definition purchase_apply :: "string \<Rightarrow> rat \<Rightarrow> stock \<Rightarrow> stock" where
  "purchase_apply unitType qty cs =
     (if unitType = ''box'' \<or> unitType = ''boxes''
      then cs\<lparr>boxes := Some (num_or0 (boxes cs) + qty)\<rparr>
      else if unitType = ''piece'' \<or> unitType = ''pieces''
      then cs\<lparr>pieces := Some (num_or0 (pieces cs) + qty)\<rparr>
      else if unitType = ''sft'' \<or> unitType = ''squarefeet'' \<or> unitType = ''square feet''
      then cs\<lparr>sft := Some (num_or0 (sft cs) + qty)\<rparr>
      else cs\<lparr>pieces := Some (num_or0 (pieces cs) + qty)\<rparr>)"

definition round_stock :: "stock \<Rightarrow> stock" where
  "round_stock cs =
     \<lparr>boxes = Some (round3 (boxes cs)), pieces = Some (round3 (pieces cs)),
      sft = Some (round3 (sft cs))\<rparr>"

definition stock_after_sale :: "item \<Rightarrow> product \<Rightarrow> stock" where
  \<comment> \<open>the three counters once the item is subtracted and the three are rounded\<close>
  "stock_after_sale it product =
     round_stock (sale_apply (item_unit it) (item_qty it) (stock_or_zero product))"

definition stock_after_purchase :: "item \<Rightarrow> product \<Rightarrow> stock" where
  \<comment> \<open>the three counters once the item is added and the three are rounded\<close>
  "stock_after_purchase it product =
     round_stock (purchase_apply (item_unit it) (item_qty it) (stock_or_zero product))"

definition low_stock :: "rat \<Rightarrow> stock \<Rightarrow> bool" where
  \<comment> \<open>the test of the sale path, on a stock that has just been rounded\<close>
  "low_stock m cs =
     ((num_or0 (boxes cs) \<le> m \<and> m > 0) \<or> (num_or0 (pieces cs) \<le> m \<and> m > 0)
      \<or> (num_or0 (sft cs) \<le> m \<and> m > 0))"

definition restocked :: "rat \<Rightarrow> stock \<Rightarrow> bool" where
  \<comment> \<open>the test of the purchase path, on a stock that has just been rounded\<close>
  "restocked m cs =
     ((num_or0 (boxes cs) \<ge> m \<and> m > 0) \<or> (num_or0 (pieces cs) \<ge> m \<and> m > 0)
      \<or> (num_or0 (sft cs) \<ge> m \<and> m > 0))"

definition unresolved_for :: "string \<Rightarrow> alert \<Rightarrow> bool" where
  \<comment> \<open>\<open>a.productId === product.id && !a.resolved\<close>\<close>
  "unresolved_for pid a = (a_productId a = Some pid \<and> \<not> a_resolved a)"

definition sale_item ::
  "item \<Rightarrow> product list \<Rightarrow> state \<Rightarrow> (error + product list) \<times> state" where
  \<comment> \<open>one round of the loop of \<open>_applyStockChangesFromSale\<close>\<close>
  "sale_item it products s =
     (case find_product it products of
        None \<Rightarrow> (Inr products, console_put (Console_warn ''Product not found for sale item'') s)
      | Some k \<Rightarrow>
          (let product = products ! k;
               cs = stock_after_sale it product;
               products1 = products[k := product\<lparr>p_currentStock := Some cs\<rparr>];
               m = num_or0 (p_minStock product)
           in if low_stock m cs then
                (case getCollection d_alerts s of
                   (Inl e, s1) \<Rightarrow> (Inl e, s1)
                 | (Inr alerts, s1) \<Rightarrow>
                     (case find (unresolved_for (p_id product)) alerts of
                        Some existing \<Rightarrow> (Inr products1, s1)
                      | None \<Rightarrow>
                          (let (aid, s2) = generateId ''alert'' s1;
                               (t, s3) = nowISO s2;
                               created = \<lparr>a_id = aid, a_productId = Some (p_id product),
                                          a_productName = p_name product, a_currentStock = cs,
                                          a_minRequired = m, a_alertDate = t,
                                          a_resolved = False, a_resolvedAt = None\<rparr>
                           in case saveCollection put_alerts (alerts @ [created]) s3 of
                                (Inl e, s4) \<Rightarrow> (Inl e, s4)
                              | (Inr _, s4) \<Rightarrow> (Inr products1, s4))))
              else (Inr products1, s)))"

fun sale_loop :: "item list \<Rightarrow> product list \<Rightarrow> state \<Rightarrow> (error + product list) \<times> state" where
  "sale_loop [] products s = (Inr products, s)"
| "sale_loop (it # rest) products s =
     (case sale_item it products s of
        (Inl e, s1) \<Rightarrow> (Inl e, s1)
      | (Inr products1, s1) \<Rightarrow> sale_loop rest products1 s1)"

definition applyStockChangesFromSale :: "sale \<Rightarrow> state \<Rightarrow> (error + unit) \<times> state" where
  "applyStockChangesFromSale sale s =
     (case s_items sale of
        None \<Rightarrow> (Inr (), s)
      | Some items \<Rightarrow>
          (case getCollection d_products s of
             (Inl e, s1) \<Rightarrow> (Inl e, s1)
           | (Inr products, s1) \<Rightarrow>
               (case sale_loop items products s1 of
                  (Inl e, s2) \<Rightarrow> (Inl e, s2)
                | (Inr products1, s2) \<Rightarrow>
                    (case saveCollection put_products products1 s2 of
                       (Inl e, s3) \<Rightarrow> (Inl e, s3)
                     | (Inr _, s3) \<Rightarrow> (Inr (), s3)))))"

fun resolve_all :: "string \<Rightarrow> alert list \<Rightarrow> state \<Rightarrow> (alert list \<times> bool) \<times> state" where
  "resolve_all pid [] s = (([], False), s)"
| "resolve_all pid (a # rest) s =
     (if unresolved_for pid a then
        (let (t, s1) = nowISO s;
             ((rest1, changed), s2) = resolve_all pid rest s1
         in ((a\<lparr>a_resolved := True, a_resolvedAt := Some t\<rparr> # rest1, True), s2))
      else
        (let ((rest1, changed), s2) = resolve_all pid rest s
         in ((a # rest1, changed), s2)))"

definition purchase_item ::
  "item \<Rightarrow> product list \<Rightarrow> state \<Rightarrow> (error + product list) \<times> state" where
  \<comment> \<open>one round of the loop of \<open>_applyStockChangesFromPurchase\<close>; \<open>resolve_all\<close> is its
     \<open>alerts.forEach\<close>, returning the alerts and the flag \<open>changed\<close>\<close>
  "purchase_item it products s =
     (case find_product it products of
        None \<Rightarrow> (Inr products, console_put (Console_warn ''Product not found for purchase item'') s)
      | Some k \<Rightarrow>
          (let product = products ! k;
               cs = stock_after_purchase it product;
               products1 = products[k := product\<lparr>p_currentStock := Some cs\<rparr>];
               m = num_or0 (p_minStock product)
           in if restocked m cs then
                (case getCollection d_alerts s of
                   (Inl e, s1) \<Rightarrow> (Inl e, s1)
                 | (Inr alerts, s1) \<Rightarrow>
                     (let ((alerts1, changed), s2) = resolve_all (p_id product) alerts s1
                      in if changed then
                           (case saveCollection put_alerts alerts1 s2 of
                              (Inl e, s3) \<Rightarrow> (Inl e, s3)
                            | (Inr _, s3) \<Rightarrow> (Inr products1, s3))
                         else (Inr products1, s2)))
              else (Inr products1, s)))"

fun purchase_loop ::
  "item list \<Rightarrow> product list \<Rightarrow> state \<Rightarrow> (error + product list) \<times> state" where
  "purchase_loop [] products s = (Inr products, s)"
| "purchase_loop (it # rest) products s =
     (case purchase_item it products s of
        (Inl e, s1) \<Rightarrow> (Inl e, s1)
      | (Inr products1, s1) \<Rightarrow> purchase_loop rest products1 s1)"

definition applyStockChangesFromPurchase :: "purchase \<Rightarrow> state \<Rightarrow> (error + unit) \<times> state" where
  "applyStockChangesFromPurchase purchase s =
     (case pu_items purchase of
        None \<Rightarrow> (Inr (), s)
      | Some items \<Rightarrow>
          (case getCollection d_products s of
             (Inl e, s1) \<Rightarrow> (Inl e, s1)
           | (Inr products, s1) \<Rightarrow>
               (case purchase_loop items products s1 of
                  (Inl e, s2) \<Rightarrow> (Inl e, s2)
                | (Inr products1, s2) \<Rightarrow>
                    (case saveCollection put_products products1 s2 of
                       (Inl e, s3) \<Rightarrow> (Inl e, s3)
                     | (Inr _, s3) \<Rightarrow> (Inr (), s3)))))"

section \<open>Sales and purchases\<close>

definition new_sale :: "string \<Rightarrow> timestamp \<Rightarrow> saleData \<Rightarrow> sale" where
  \<comment> \<open>the \<open>Object.assign\<close> of \<open>addSale\<close>\<close>
  "new_sale gid t sd =
     \<lparr>s_id = assign gid (sd_id sd),
      s_dateTime = assign t (sd_dateTime sd),
      s_items = assign (Some []) (sd_items sd),
      s_totalAmount = assign 0 (sd_totalAmount sd),
      s_customerName = assign '''' (sd_customerName sd),
      s_customerPhone = assign '''' (sd_customerPhone sd),
      s_paymentMethod = assign ''Cash'' (sd_paymentMethod sd),
      s_paymentStatus = assign ''Paid'' (sd_paymentStatus sd),
      s_notes = assign '''' (sd_notes sd)\<rparr>"

definition addSale :: "saleData \<Rightarrow> state \<Rightarrow> (error + sale) \<times> state" where
  "addSale sd s =
     (case getCollection d_sales s of
        (Inl e, s1) \<Rightarrow> (Inl e, s1)
      | (Inr list, s1) \<Rightarrow>
          (let (gid, s2) = generateId ''sale'' s1;
               (t, s3) = nowISO s2;
               sale = new_sale gid t sd
           in case saveCollection put_sales (list @ [sale]) s3 of
                (Inl e, s4) \<Rightarrow> (Inl e, s4)
              | (Inr _, s4) \<Rightarrow>
                  (case applyStockChangesFromSale sale s4 of
                     (Inl e, s5) \<Rightarrow>
                       (Inr sale, console_put (Console_warn ''Stock update after sale failed:'') s5)
                   | (Inr _, s5) \<Rightarrow> (Inr sale, s5))))"

definition new_purchase :: "string \<Rightarrow> timestamp \<Rightarrow> purchaseData \<Rightarrow> purchase" where
  \<comment> \<open>the \<open>Object.assign\<close> of \<open>addPurchase\<close>\<close>
  "new_purchase gid t pd =
     \<lparr>pu_id = assign gid (pud_id pd),
      pu_dateTime = assign t (pud_dateTime pd),
      pu_items = assign (Some []) (pud_items pd),
      pu_totalCost = assign 0 (pud_totalCost pd),
      pu_paymentStatus = assign ''Pending'' (pud_paymentStatus pd),
      pu_supplierName = assign '''' (pud_supplierName pd),
      pu_notes = assign '''' (pud_notes pd)\<rparr>"

definition addPurchase :: "purchaseData \<Rightarrow> state \<Rightarrow> (error + purchase) \<times> state" where
  "addPurchase pd s =
     (case getCollection d_purchases s of
        (Inl e, s1) \<Rightarrow> (Inl e, s1)
      | (Inr list, s1) \<Rightarrow>
          (let (gid, s2) = generateId ''pur'' s1;
               (t, s3) = nowISO s2;
               purchase = new_purchase gid t pd
           in case saveCollection put_purchases (list @ [purchase]) s3 of
                (Inl e, s4) \<Rightarrow> (Inl e, s4)
              | (Inr _, s4) \<Rightarrow>
                  (case applyStockChangesFromPurchase purchase s4 of
                     (Inl e, s5) \<Rightarrow>
                       (Inr purchase, console_put (Console_warn ''Stock update after purchase failed:'') s5)
                   | (Inr _, s5) \<Rightarrow> (Inr purchase, s5))))"

section \<open>Export and import\<close>

definition exportDB :: "state \<Rightarrow> (error + timestamp \<times> raw) \<times> state" where
  \<comment> \<open>the result is the pair of the time the file name is made of and the JSON text; the
     download through the page is not part of the model\<close>
  "exportDB s =
     (case loadDB False s of
        (Inl e, s1) \<Rightarrow> (Inl e, s1)
      | (Inr db, s1) \<Rightarrow>
          (let (t, s2) = nowISO s1 in (Inr (t, Encodes db), s2)))"

definition mergeArray ::
  "('a \<Rightarrow> string option) \<Rightarrow> 'a list option \<Rightarrow> 'a list option \<Rightarrow> error + 'a list option" where
  \<comment> \<open>\<open>idf\<close> reads \<open>it.id\<close>; a target that is missing makes \<open>targetArr.map\<close> throw\<close>
  "mergeArray idf targetArr incomingArr =
     (case incomingArr of
        None \<Rightarrow> Inr targetArr
      | Some incoming \<Rightarrow>
          (case targetArr of
             None \<Rightarrow> Inl TypeError
           | Some target \<Rightarrow>
               Inr (Some (target @
                  filter (\<lambda>it. \<not> (idf it = None \<or> idf it = Some '''' \<or> idf it \<in> set (map idf target)))
                    incoming))))"

definition import_replace :: "document \<Rightarrow> document \<Rightarrow> document" where
  \<comment> \<open>the five \<open>base.x = Array.isArray(parsed.x) ? parsed.x : base.x\<close>\<close>
  "import_replace parsed base =
     base\<lparr>d_products := (case d_products parsed of Some xs \<Rightarrow> Some xs | None \<Rightarrow> d_products base),
          d_sales := (case d_sales parsed of Some xs \<Rightarrow> Some xs | None \<Rightarrow> d_sales base),
          d_purchases := (case d_purchases parsed of Some xs \<Rightarrow> Some xs | None \<Rightarrow> d_purchases base),
          d_alerts := (case d_alerts parsed of Some xs \<Rightarrow> Some xs | None \<Rightarrow> d_alerts base),
          d_users := (case d_users parsed of Some xs \<Rightarrow> Some xs | None \<Rightarrow> d_users base)\<rparr>"

definition set_importedAt :: "timestamp \<Rightarrow> document \<Rightarrow> document" where
  \<comment> \<open>\<open>base.meta = base.meta || {}; base.meta.importedAt = t\<close>\<close>
  "set_importedAt t d =
     d\<lparr>d_meta := Some ((case d_meta d of
                           None \<Rightarrow> \<lparr>m_version = None, m_createdAt = None,
                                     m_updatedAt = None, m_importedAt = None\<rparr>
                         | Some m \<Rightarrow> m)\<lparr>m_importedAt := Some t\<rparr>)\<rparr>"

definition import_merge :: "document \<Rightarrow> document \<Rightarrow> error + document" where
  \<comment> \<open>the five \<open>db.x = mergeArray(db.x, parsed.x)\<close>; a user entry has no \<open>id\<close>\<close>
  "import_merge parsed db =
     (case mergeArray (\<lambda>p. Some (p_id p)) (d_products db) (d_products parsed) of
        Inl e \<Rightarrow> Inl e
      | Inr ps \<Rightarrow>
     (case mergeArray (\<lambda>x. Some (s_id x)) (d_sales db) (d_sales parsed) of
        Inl e \<Rightarrow> Inl e
      | Inr ss \<Rightarrow>
     (case mergeArray (\<lambda>x. Some (pu_id x)) (d_purchases db) (d_purchases parsed) of
        Inl e \<Rightarrow> Inl e
      | Inr us \<Rightarrow>
     (case mergeArray (\<lambda>a. Some (a_id a)) (d_alerts db) (d_alerts parsed) of
        Inl e \<Rightarrow> Inl e
      | Inr as \<Rightarrow>
     (case mergeArray (\<lambda>u. None) (d_users db) (d_users parsed) of
        Inl e \<Rightarrow> Inl e
      | Inr ws \<Rightarrow>
          Inr (db\<lparr>d_products := ps, d_sales := ss, d_purchases := us,
                  d_alerts := as, d_users := ws\<rparr>))))))"

definition importDB :: "raw option \<Rightarrow> bool \<Rightarrow> state \<Rightarrow> (error + document) \<times> state" where
  \<comment> \<open>\<open>jsonString = None\<close>: no text, or the empty text\<close>
  "importDB jsonString merge s =
     (case jsonString of
        None \<Rightarrow> (Inl (Error ''No JSON provided for import''), s)
      | Some Unparsable \<Rightarrow> (Inl (Error ''Invalid JSON provided''), s)
      | Some (Encodes parsed) \<Rightarrow>
          if \<not> merge then
            (let (fresh, s1) = emptyDB s;
                 (t, s2) = nowISO s1;
                 base = set_importedAt t (import_replace parsed fresh)
             in case saveDB base s2 of
                  (Inl e, s3) \<Rightarrow> (Inl e, s3)
                | (Inr _, s3) \<Rightarrow> (Inr base, s3))
          else
            (case loadDB False s of
               (Inl e, s1) \<Rightarrow> (Inl e, s1)
             | (Inr db, s1) \<Rightarrow>
                 (case import_merge parsed db of
                    Inl e \<Rightarrow> (Inl e, s1)
                  | Inr db1 \<Rightarrow>
                      (case saveDB db1 s1 of
                         (Inl e, s2) \<Rightarrow> (Inl e, s2)
                       | (Inr _, s2) \<Rightarrow> (Inr db1, s2)))))"

section \<open>Unit utilities\<close>


definition normalizeUnitName :: "string option \<Rightarrow> string" where
  \<comment> \<open>\<open>unit = None\<close>: a missing unit; the empty string is falsy as well\<close>
  "normalizeUnitName unit =
     (case unit of
        None \<Rightarrow> ''piece''
      | Some x \<Rightarrow>
          if x = '''' then ''piece''
          else (let u = toLowerCase (trim x)
                in if u = ''box'' \<or> u = ''boxes'' then ''box''
                   else if u = ''piece'' \<or> u = ''pieces'' \<or> u = ''pc'' \<or> u = ''pcs'' then ''piece''
                   else if u = ''sft'' \<or> u = ''s.f.t'' \<or> u = ''sqft'' \<or> u = ''squarefeet''
                           \<or> u = ''square feet'' then ''sft''
                   else u))"




section \<open>Notions of the statements\<close>

text \<open>
  At most one unresolved alert for each product identifier, in a list of alerts and in
  the two places a document is kept: the cache and localStorage.
\<close>

definition alerts_ok :: "alert list \<Rightarrow> bool" where
  "alerts_ok as = (\<forall>pid. length (filter (unresolved_for pid) as) \<le> 1)"

definition one_alert_inv :: "state \<Rightarrow> bool" where
  "one_alert_inv s =
     ((\<forall>c. dbCache s = Some c \<longrightarrow> alerts_ok (coll (d_alerts c)))
      \<and> (\<forall>d. localStorage s = Some (Encodes d) \<longrightarrow> alerts_ok (coll (d_alerts d))))"

text \<open>
  The state with the entries \<open>l\<close> on the console before its own, and the state with
  an empty console: two states with the same \<open>quiet\<close> differ in their console only.
\<close>

definition said :: "log_entry list \<Rightarrow> state \<Rightarrow> state" where
  "said l s = s\<lparr>console := l @ console s\<rparr>"

definition quiet :: "state \<Rightarrow> state" where
  "quiet s = s\<lparr>console := []\<rparr>"

text \<open>
  The cache and localStorage both hold a document with these sales and these purchases.
\<close>

definition recorded :: "sale list option \<Rightarrow> purchase list option \<Rightarrow> state \<Rightarrow> bool" where
  "recorded S U s =
     (\<exists>c d. dbCache s = Some c \<and> localStorage s = Some (Encodes d)
          \<and> d_sales c = S \<and> d_sales d = S \<and> d_purchases c = U \<and> d_purchases d = U)"

text \<open>
  The second alert is the first one, or the first one was unresolved and the second is
  the same record marked resolved, with a \<open>resolvedAt\<close> stamp.
\<close>

definition resolved_since :: "alert \<Rightarrow> alert \<Rightarrow> bool" where
  "resolved_since a a' =
     (a' = a \<or> (\<not> a_resolved a \<and> a_resolved a' \<and> a_resolvedAt a' \<noteq> None
                \<and> a'\<lparr>a_resolved := False, a_resolvedAt := a_resolvedAt a\<rparr> = a))"

text \<open>
  The products once one line item of a sale has been applied to them: the product of the
  item has the stock that \<open>stock_after_sale\<close> gives, and the other products, or all of them
  when the item has no product, are as they were.
\<close>

definition sold :: "item \<Rightarrow> product list \<Rightarrow> product list" where
  "sold it products =
     (case find_product it products of
        None \<Rightarrow> products
      | Some k \<Rightarrow>
          products[k := (products ! k)\<lparr>p_currentStock := Some (stock_after_sale it (products ! k))\<rparr>])"

section \<open>Example values\<close>

text \<open>A shop with one product, and the states the examples below start from.\<close>

definition tile :: product where
  "tile =
     \<lparr>p_id = ''p1'', p_name = ''Tile'', p_category = ''Floor'', p_brand = ''Acme'',
      p_sku = ''T-1'', p_size = ''2x2'', p_unitType = ''Box'', p_piecesPerBox = 4,
      p_sftPerBox = 16, p_costPrice = 100, p_sellingPricePerUnit = 150,
      p_currentStock = Some \<lparr>boxes = Some 5, pieces = Some 0, sft = Some 0\<rparr>,
      p_minStock = Some 2, p_supplierName = '''', p_supplierContact = '''', p_location = '''',
      p_imageUrl = '''', p_dateAdded = 1, p_notes = ''''\<rparr>"

definition shop_doc :: document where
  "shop_doc =
     \<lparr>d_meta = Some \<lparr>m_version = Some 1, m_createdAt = Some 1, m_updatedAt = Some 2,
                      m_importedAt = None\<rparr>,
      d_products = Some [tile], d_sales = Some [], d_purchases = Some [], d_alerts = Some [],
      d_users = Some []\<rparr>"

definition page :: watcher where
  "page = \<lparr>w_id = 0, w_throws = (\<lambda>c. False)\<rparr>"

definition shop :: state where
  "shop =
     \<lparr>localStorage = Some (Encodes shop_doc), dbCache = Some shop_doc, watchers = [page],
      console = [], notified = [], now_at = (\<lambda>n. 100 + n), now_reads = 0,
      rand_at = (\<lambda>n. n), rand_draws = 0, quota_at = (\<lambda>n. False), set_calls = 0\<rparr>"

definition worn :: alert where
  "worn =
     \<lparr>a_id = ''a1'', a_productId = Some ''p1'', a_productName = ''Tile'',
      a_currentStock = \<lparr>boxes = Some 1, pieces = Some 0, sft = Some 0\<rparr>, a_minRequired = 2,
      a_alertDate = 3, a_resolved = False, a_resolvedAt = None\<rparr>"





definition twin :: productData where
  "twin =
     \<lparr>pd_id = Some ''p1'', pd_name = Some ''Other tile'', pd_category = None, pd_brand = None,
      pd_sku = None, pd_size = None, pd_unitType = None, pd_piecesPerBox = None,
      pd_sftPerBox = None, pd_costPrice = None, pd_sellingPricePerUnit = None,
      pd_currentStock = None, pd_minStock = None, pd_supplierName = None,
      pd_supplierContact = None, pd_location = None, pd_imageUrl = None,
      pd_dateAdded = Some 7, pd_notes = None\<rparr>"

definition four_boxes :: item where
  "four_boxes =
     \<lparr>i_productId = Some ''p1'', i_productName = ''Tile'', i_quantity = Some 4,
      i_unitType = Some ''Box'', i_unitPrice = 150, i_totalAmount = 600\<rparr>"

definition one_box :: item where
  "one_box =
     \<lparr>i_productId = Some ''p1'', i_productName = ''Tile'', i_quantity = Some 1,
      i_unitType = Some ''Box'', i_unitPrice = 150, i_totalAmount = 150\<rparr>"

definition sale_of :: "item list \<Rightarrow> saleData" where
  "sale_of items =
     \<lparr>sd_id = None, sd_dateTime = None, sd_items = Some (Some items), sd_totalAmount = None,
      sd_customerName = None, sd_customerPhone = None, sd_paymentMethod = None,
      sd_paymentStatus = None, sd_notes = None\<rparr>"

definition sqft_item :: item where
  "sqft_item =
     \<lparr>i_productId = Some ''p1'', i_productName = ''Tile'', i_quantity = Some 1,
      i_unitType = Some ''sqft'', i_unitPrice = 10, i_totalAmount = 10\<rparr>"

definition square_feet_item :: item where
  "square_feet_item =
     \<lparr>i_productId = Some ''p1'', i_productName = ''Tile'', i_quantity = Some 1,
      i_unitType = Some ''Square Feet'', i_unitPrice = 10, i_totalAmount = 10\<rparr>"

definition ghost :: item where
  "ghost =
     \<lparr>i_productId = Some ''p9'', i_productName = ''Gone'', i_quantity = Some 3,
      i_unitType = Some ''Box'', i_unitPrice = 1, i_totalAmount = 3\<rparr>"

definition mixed_sale :: sale where
  "mixed_sale = new_sale ''s1'' 50 (sale_of [ghost, four_boxes])"

definition five_boxes :: item where
  "five_boxes =
     \<lparr>i_productId = Some ''p1'', i_productName = ''Tile'', i_quantity = Some 5,
      i_unitType = Some ''Box'', i_unitPrice = 100, i_totalAmount = 500\<rparr>"

definition purchase_of :: "item list \<Rightarrow> purchaseData" where
  "purchase_of items =
     \<lparr>pud_id = None, pud_dateTime = None, pud_items = Some (Some items), pud_totalCost = None,
      pud_paymentStatus = None, pud_supplierName = None, pud_notes = None\<rparr>"

definition sold_out :: product where
  "sold_out = tile\<lparr>p_currentStock := Some \<lparr>boxes = Some 0, pieces = Some 0, sft = Some 0\<rparr>\<rparr>"

definition alerted_doc :: document where
  "alerted_doc = shop_doc\<lparr>d_products := Some [sold_out], d_alerts := Some [worn]\<rparr>"

definition alerted :: state where
  "alerted = shop\<lparr>localStorage := Some (Encodes alerted_doc), dbCache := Some alerted_doc\<rparr>"

text \<open>The shop with a localStorage that takes one more write and no other.\<close>

definition cramped :: state where
  "cramped = shop\<lparr>quota_at := (\<lambda>n. 1 \<le> n)\<rparr>"

section \<open>Lemmas\<close>

subsection \<open>Arithmetic of the rounding\<close>

lemma floor_rat_numeral_div [simp]:
  "\<lfloor>numeral a / numeral b :: rat\<rfloor> = numeral a div numeral b"
  by (metis floor_divide_of_int_eq of_int_numeral)

lemma floor_rat_one_div [simp]:
  "\<lfloor>1 / numeral b :: rat\<rfloor> = 1 div numeral b"
  by (metis floor_divide_of_int_eq of_int_numeral of_int_1)

lemma js_round_of_int [simp]: "js_round (of_int n) = of_int n"
proof -
  have "\<lfloor>rat_of_int n + 1 / 2\<rfloor> = n" by linarith
  then show ?thesis by (simp add: js_round_def)
qed

lemma js_round_numeral [simp]: "js_round (numeral k) = numeral k"
  using js_round_of_int [of "numeral k"] by simp

lemma js_round_zero [simp]: "js_round 0 = 0"
  using js_round_of_int [of 0] by simp

lemma js_round_one [simp]: "js_round 1 = 1"
  using js_round_of_int [of 1] by simp

lemma round3_of_int [simp]: "round3 (Some (of_int n)) = of_int n"
proof -
  have "js_round (rat_of_int n * 1000) = rat_of_int n * 1000"
    using js_round_of_int [of "n * 1000"] by simp
  then show ?thesis by (simp add: round3_def num_or0_def)
qed

lemma round3_numeral [simp]: "round3 (Some (numeral k)) = numeral k"
  using round3_of_int [of "numeral k"] by simp

lemma round3_zero [simp]: "round3 (Some 0) = 0"
  using round3_of_int [of 0] by simp

lemma round3_one [simp]: "round3 (Some 1) = 1"
  using round3_of_int [of 1] by simp

lemma round3_None [simp]: "round3 None = 0"
  by (simp add: round3_def num_or0_def)


subsection \<open>The controller\<close>

lemma fold_call_watcher:
  "fold (call_watcher c) ws s =
     s\<lparr>console := console s @ watcher_log c ws,
       notified := notified s @ map (\<lambda>w. (w_id w, c)) ws\<rparr>"
  by (induction ws arbitrary: s) (simp_all add: call_watcher_def console_put_def watcher_log_def)

lemma saveDB_ok:
  "\<not> quota_at s (set_calls s) \<Longrightarrow>
   saveDB d s =
     (Inr True,
      s\<lparr>localStorage := Some (Encodes (set_updatedAt (now_at s (now_reads s)) d)),
        dbCache := Some d,
        console := console s @ watcher_log d (watchers s),
        notified := notified s @ map (\<lambda>w. (w_id w, d)) (watchers s),
        now_reads := Suc (now_reads s),
        set_calls := Suc (set_calls s)\<rparr>)"
  by (simp add: saveDB_def save_def nowISO_def setItem_def notify_watchers_def fold_call_watcher)

lemma saveDB_fail:
  "quota_at s (set_calls s) \<Longrightarrow>
   saveDB d s =
     (Inl QuotaExceededError,
      s\<lparr>now_reads := Suc (now_reads s), set_calls := Suc (set_calls s)\<rparr>)"
  by (simp add: saveDB_def save_def nowISO_def setItem_def)

lemma loadDB_cached: "dbCache s = Some c \<Longrightarrow> loadDB False s = (Inr c, s)"
  by (simp add: loadDB_def)

lemma getCollection_cached:
  "dbCache s = Some c \<Longrightarrow> getCollection sel s = (Inr (coll (sel c)), s)"
  by (simp add: getCollection_def loadDB_cached coll_def)

lemma saveCollection_cached:
  "dbCache s = Some c \<Longrightarrow> saveCollection put xs s = saveDB (put xs c) s"
  by (simp add: saveCollection_def loadDB_cached)

lemma needs_migration_set_updatedAt [simp]:
  "needs_migration (set_updatedAt t d) = needs_migration d"
  by (simp add: needs_migration_def set_updatedAt_def split: option.splits)

lemma loadDB_result: "loadDB f s = (Inr d, s') \<Longrightarrow> dbCache s' = Some d"
  by (auto simp: loadDB_def split: option.splits if_splits prod.splits sum.splits)

lemma saveDB_result:
  assumes "saveDB d s = (Inr b, s')"
  shows "\<not> quota_at s (set_calls s)"
    and "dbCache s' = Some d"
    and "localStorage s' = Some (Encodes (set_updatedAt (now_at s (now_reads s)) d))"
  using assms by (cases "quota_at s (set_calls s)"; simp add: saveDB_ok saveDB_fail; fastforce)+

lemma generateId_snd:
  "snd (generateId p s) = s\<lparr>now_reads := Suc (now_reads s), rand_draws := Suc (rand_draws s)\<rparr>"
  by (simp add: generateId_def nowISO_def random_0xFFF_def)

lemma nowISO_snd: "snd (nowISO s) = s\<lparr>now_reads := Suc (now_reads s)\<rparr>"
  by (simp add: nowISO_def)

lemma emptyDB_snd: "snd (emptyDB s) = s\<lparr>now_reads := Suc (Suc (now_reads s))\<rparr>"
  by (simp add: emptyDB_def nowISO_def)

lemma emptyDB_fst:
  "fst (emptyDB s) =
     \<lparr>d_meta = Some \<lparr>m_version = Some DB_VERSION, m_createdAt = Some (now_at s (now_reads s)),
                      m_updatedAt = Some (now_at s (Suc (now_reads s))), m_importedAt = None\<rparr>,
      d_products = Some [], d_sales = Some [], d_purchases = Some [],
      d_alerts = Some [], d_users = Some []\<rparr>"
  by (simp add: emptyDB_def nowISO_def)

lemma store_fresh_ok:
  "\<not> quota_at s (set_calls s) \<Longrightarrow>
   store_fresh s =
     (Inr (fst (emptyDB s)),
      s\<lparr>localStorage := Some (Encodes (fst (emptyDB s))),
        now_reads := Suc (Suc (now_reads s)), set_calls := Suc (set_calls s)\<rparr>)"
  by (simp add: store_fresh_def split_def Let_def emptyDB_snd setItem_def)

lemma load_total:
  assumes "\<not> quota_at s (set_calls s)"
  shows "\<exists>d s'. load s = (Inr d, s') \<and> quota_at s' = quota_at s \<and> watchers s' = watchers s"
proof (cases "localStorage s")
  case None
  then show ?thesis
    using assms by (simp add: load_def getItem_def store_fresh_ok)
next
  case (Some r)
  show ?thesis
  proof (cases r)
    case Unparsable
    then show ?thesis
      using assms Some by (simp add: load_def getItem_def load_try_def console_put_def store_fresh_ok)
  next
    case (Encodes parsed)
    then show ?thesis
      using assms Some
      by (simp add: load_def getItem_def load_try_def split_def Let_def emptyDB_snd nowISO_def
          setItem_def)
  qed
qed

lemma loadDB_total:
  assumes "\<forall>n. \<not> quota_at s n"
  shows "\<exists>d s'. loadDB f s = (Inr d, s') \<and> quota_at s' = quota_at s \<and> dbCache s' = Some d
           \<and> watchers s' = watchers s"
proof -
  obtain d s1 where l: "load s = (Inr d, s1)" "quota_at s1 = quota_at s" "watchers s1 = watchers s"
    using load_total [of s] assms by blast
  then show ?thesis
    by (auto simp: loadDB_def split: option.splits)
qed

lemma coll_import_replace:
  "coll (d_products (set_importedAt t (import_replace parsed (fst (emptyDB s))))) = coll (d_products parsed)"
  "coll (d_sales (set_importedAt t (import_replace parsed (fst (emptyDB s))))) = coll (d_sales parsed)"
  "coll (d_purchases (set_importedAt t (import_replace parsed (fst (emptyDB s))))) = coll (d_purchases parsed)"
  "coll (d_alerts (set_importedAt t (import_replace parsed (fst (emptyDB s))))) = coll (d_alerts parsed)"
  by (simp_all add: set_importedAt_def import_replace_def emptyDB_fst coll_def split: option.splits)

lemma addProduct_InrE:
  assumes "addProduct pd s = (Inr product, s')"
  shows "\<exists>list s1 gid s2 t s3 b.
           getCollection d_products s = (Inr list, s1) \<and> generateId ''prod'' s1 = (gid, s2)
         \<and> nowISO s2 = (t, s3) \<and> product = new_product gid t pd
         \<and> saveCollection put_products (list @ [product]) s3 = (Inr b, s')"
  using assms
  by (auto simp: addProduct_def Let_def split: prod.splits sum.splits)

lemma getCollection_InrE:
  assumes "getCollection sel s = (Inr list, s')"
  shows "\<exists>db. loadDB False s = (Inr db, s') \<and> list = coll (sel db) \<and> dbCache s' = Some db"
  using assms
  by (auto simp: getCollection_def coll_def loadDB_result split: prod.splits sum.splits)

lemma addProduct_stored:
  assumes "addProduct pd s = (Inr product, s')"
  shows "\<exists>db s1 gid t.
           loadDB False s = (Inr db, s1)
         \<and> product = new_product gid t pd
         \<and> dbCache s' = Some (put_products (coll (d_products db) @ [product]) db)
         \<and> (\<exists>u. localStorage s' =
                Some (Encodes (set_updatedAt u (put_products (coll (d_products db) @ [product]) db))))"
proof -
  obtain list s1 gid s2 t s3 b where
    g: "getCollection d_products s = (Inr list, s1)" and i: "generateId ''prod'' s1 = (gid, s2)"
    and n: "nowISO s2 = (t, s3)" and p: "product = new_product gid t pd"
    and sv: "saveCollection put_products (list @ [product]) s3 = (Inr b, s')"
    using addProduct_InrE [OF assms] by blast
  obtain db where l: "loadDB False s = (Inr db, s1)" and li: "list = coll (d_products db)"
    and c1: "dbCache s1 = Some db"
    using getCollection_InrE [OF g] by blast
  have "s2 = snd (generateId ''prod'' s1)" "s3 = snd (nowISO s2)"
    using i n by simp_all
  then have c3: "dbCache s3 = Some db"
    by (simp add: nowISO_snd generateId_snd c1)
  have sv': "saveDB (put_products (list @ [product]) db) s3 = (Inr b, s')"
    using sv by (simp add: saveCollection_cached [OF c3])
  show ?thesis
    using saveDB_result(2,3) [OF sv'] l li p by auto
qed

lemma addProduct_ok:
  assumes "dbCache s = Some c" and "\<not> quota_at s (set_calls s)"
  shows "\<exists>p s'. addProduct pd s = (Inr p, s')"
proof -
  define s3 where "s3 = snd (nowISO (snd (generateId ''prod'' s)))"
  have c3: "dbCache s3 = Some c" and q3: "\<not> quota_at s3 (set_calls s3)"
    using assms by (simp_all add: s3_def nowISO_snd generateId_snd)
  show ?thesis
    by (simp add: addProduct_def getCollection_cached [OF assms(1)] split_def Let_def
        s3_def [symmetric] saveCollection_cached [OF c3] saveDB_ok [OF q3])
qed

subsection \<open>One unresolved alert for a product\<close>

lemma alerts_ok_Nil [simp]: "alerts_ok []"
  by (simp add: alerts_ok_def)

lemma alerts_ok_snoc:
  assumes "alerts_ok as" and "find (unresolved_for pid) as = None" and "a_productId a = Some pid"
  shows "alerts_ok (as @ [a])"
proof -
  have none: "filter (unresolved_for pid) as = []"
    using assms(2) by (simp add: find_None_iff filter_empty_conv)
  show ?thesis
    unfolding alerts_ok_def
  proof
    fix q
    show "length (filter (unresolved_for q) (as @ [a])) \<le> 1"
    proof (cases "q = pid")
      case True
      then show ?thesis using none by simp
    next
      case False
      then have "\<not> unresolved_for q a"
        using assms(3) by (simp add: unresolved_for_def)
      then show ?thesis
        using assms(1) by (simp add: alerts_ok_def)
    qed
  qed
qed

lemma one_alert_inv_frame [simp]:
  "one_alert_inv (s\<lparr>now_reads := a\<rparr>) = one_alert_inv s"
  "one_alert_inv (s\<lparr>rand_draws := b\<rparr>) = one_alert_inv s"
  "one_alert_inv (s\<lparr>set_calls := c\<rparr>) = one_alert_inv s"
  "one_alert_inv (s\<lparr>console := d\<rparr>) = one_alert_inv s"
  "one_alert_inv (s\<lparr>notified := e\<rparr>) = one_alert_inv s"
  by (simp_all add: one_alert_inv_def)

lemma load_cases:
  assumes "load s = (r, s')"
  shows "dbCache s' = dbCache s"
    and "localStorage s' = localStorage s
         \<or> (\<exists>d. localStorage s' = Some (Encodes d) \<and> d_alerts d = Some [])"
    and "\<forall>d. r = Inr d \<longrightarrow> localStorage s = Some (Encodes d) \<or> d_alerts d = Some []"
  using assms
  by (auto simp: load_def getItem_def store_fresh_def load_try_def setItem_def console_put_def
      split_def Let_def emptyDB_fst emptyDB_snd nowISO_def migrate_def set_updatedAt_def
      split: option.splits raw.splits if_splits sum.splits prod.splits)

lemma inv_loadDB:
  assumes "one_alert_inv s" and "loadDB f s = (r, s')"
  shows "one_alert_inv s'" and "\<forall>d. r = Inr d \<longrightarrow> alerts_ok (coll (d_alerts d)) \<and> dbCache s' = Some d"
proof -
  obtain r0 s0 where l: "load s = (r0, s0)"
    by (cases "load s")
  have i0: "\<forall>d. localStorage s0 = Some (Encodes d) \<longrightarrow> alerts_ok (coll (d_alerts d))"
    using load_cases(2) [OF l] assms(1) by (auto simp: one_alert_inv_def coll_def)
  have r0: "\<forall>d. r0 = Inr d \<longrightarrow> alerts_ok (coll (d_alerts d))"
    using load_cases(3) [OF l] assms(1) by (auto simp: one_alert_inv_def coll_def)
  have c0: "dbCache s0 = dbCache s"
    using load_cases(1) [OF l] .
  show "one_alert_inv s'"
    using assms i0 r0 c0 l
    by (auto simp: loadDB_def one_alert_inv_def split: option.splits if_splits sum.splits)
  show "\<forall>d. r = Inr d \<longrightarrow> alerts_ok (coll (d_alerts d)) \<and> dbCache s' = Some d"
    using assms i0 r0 c0 l
    by (auto simp: loadDB_def one_alert_inv_def split: option.splits if_splits sum.splits)
qed

lemma inv_saveDB:
  assumes "one_alert_inv s" and "alerts_ok (coll (d_alerts d))" and "saveDB d s = (r, s')"
  shows "one_alert_inv s'"
proof (cases "quota_at s (set_calls s)")
  case True
  then show ?thesis
    using assms by (auto simp: saveDB_fail)
next
  case False
  then show ?thesis
    using assms by (auto simp: saveDB_ok one_alert_inv_def set_updatedAt_def)
qed

lemma inv_getCollection:
  assumes "one_alert_inv s" and "getCollection sel s = (r, s')"
  shows "one_alert_inv s'"
  using assms inv_loadDB(1) [of s False]
  by (auto simp: getCollection_def split: prod.splits sum.splits)

lemma inv_getAlerts:
  assumes "one_alert_inv s" and "getCollection d_alerts s = (Inr as, s')"
  shows "alerts_ok as"
  using assms inv_loadDB(2) [of s False]
  by (auto simp: getCollection_def split: prod.splits sum.splits)

lemma inv_saveCollection:
  assumes "one_alert_inv s"
    and "\<And>db. alerts_ok (coll (d_alerts db)) \<Longrightarrow> alerts_ok (coll (d_alerts (put xs db)))"
    and "saveCollection put xs s = (r, s')"
  shows "one_alert_inv s'"
proof -
  obtain r1 s1 where l: "loadDB False s = (r1, s1)"
    by (cases "loadDB False s")
  show ?thesis
  proof (cases r1)
    case (Inl e)
    then show ?thesis
      using assms(3) l inv_loadDB(1) [OF assms(1) l] by (simp add: saveCollection_def)
  next
    case (Inr db)
    have "alerts_ok (coll (d_alerts db))"
      using inv_loadDB(2) [OF assms(1) l] Inr by simp
    then have "alerts_ok (coll (d_alerts (put xs db)))"
      by (rule assms(2))
    moreover have "saveDB (put xs db) s1 = (r, s')"
      using assms(3) l Inr by (simp add: saveCollection_def)
    ultimately show ?thesis
      using inv_saveDB inv_loadDB(1) [OF assms(1) l] by blast
  qed
qed

lemma inv_generateId: "one_alert_inv (snd (generateId p s)) = one_alert_inv s"
  by (simp add: generateId_snd)

lemma inv_nowISO: "one_alert_inv (snd (nowISO s)) = one_alert_inv s"
  by (simp add: nowISO_snd)

lemma inv_sale_item:
  assumes "one_alert_inv s" and "sale_item it ps s = (r, s')"
  shows "one_alert_inv s'"
proof (cases "find_product it ps")
  case None
  then show ?thesis
    using assms by (auto simp: sale_item_def console_put_def)
next
  case (Some k)
  define product where "product = ps ! k"
  define cs where "cs = stock_after_sale it product"
  define m where "m = num_or0 (p_minStock product)"
  show ?thesis
  proof (cases "low_stock m cs")
    case False
    then show ?thesis
      using assms Some by (simp add: sale_item_def Let_def product_def cs_def m_def)
  next
    case True
    obtain r1 s1 where g: "getCollection d_alerts s = (r1, s1)"
      by (cases "getCollection d_alerts s")
    have i1: "one_alert_inv s1"
      using inv_getCollection [OF assms(1) g] .
    show ?thesis
    proof (cases r1)
      case (Inl e)
      then show ?thesis
        using assms(2) Some True g i1
        by (simp add: sale_item_def Let_def product_def cs_def m_def)
    next
      case (Inr alerts)
      have ok: "alerts_ok alerts"
        using inv_getAlerts [OF assms(1)] g Inr by simp
      show ?thesis
      proof (cases "find (unresolved_for (p_id product)) alerts")
        case (Some existing)
        then show ?thesis
          using assms(2) \<open>find_product it ps = Some k\<close> True g Inr i1
          by (simp add: sale_item_def Let_def product_def cs_def m_def)
      next
        case None
        define s3 where "s3 = snd (nowISO (snd (generateId ''alert'' s1)))"
        define created where
          "created = \<lparr>a_id = fst (generateId ''alert'' s1), a_productId = Some (p_id product),
             a_productName = p_name product, a_currentStock = cs, a_minRequired = m,
             a_alertDate = fst (nowISO (snd (generateId ''alert'' s1))),
             a_resolved = False, a_resolvedAt = None\<rparr>"
        have i3: "one_alert_inv s3"
          using i1 by (simp add: s3_def inv_nowISO inv_generateId)
        have ok': "alerts_ok (alerts @ [created])"
          using alerts_ok_snoc [OF ok None] by (simp add: created_def)
        obtain r4 s4 where sv: "saveCollection put_alerts (alerts @ [created]) s3 = (r4, s4)"
          by (cases "saveCollection put_alerts (alerts @ [created]) s3")
        have i4: "one_alert_inv s4"
          using inv_saveCollection [OF i3 _ sv] ok' by (simp add: put_alerts_def coll_def)
        have "s' = s4"
          using assms(2) \<open>find_product it ps = Some k\<close> True g Inr None sv
          by (auto simp: sale_item_def Let_def split_def product_def [symmetric] cs_def [symmetric]
              m_def [symmetric] s3_def [symmetric] created_def [symmetric] split: sum.splits)
        then show ?thesis
          using i4 by simp
      qed
    qed
  qed
qed

lemma inv_sale_loop:
  assumes "one_alert_inv s" and "sale_loop items ps s = (r, s')"
  shows "one_alert_inv s'"
  using assms
proof (induction items arbitrary: ps s)
  case Nil
  then show ?case by simp
next
  case (Cons it rest)
  obtain r1 s1 where st: "sale_item it ps s = (r1, s1)"
    by (cases "sale_item it ps s")
  have i1: "one_alert_inv s1"
    using inv_sale_item [OF Cons.prems(1) st] .
  show ?case
  proof (cases r1)
    case (Inl e)
    then show ?thesis using Cons.prems(2) st i1 by simp
  next
    case (Inr ps1)
    then have "sale_loop rest ps1 s1 = (r, s')"
      using Cons.prems(2) st by simp
    then show ?thesis
      using Cons.IH [OF i1] by blast
  qed
qed

lemma inv_applyStockChangesFromSale:
  assumes "one_alert_inv s" and "applyStockChangesFromSale sale s = (r, s')"
  shows "one_alert_inv s'"
proof (cases "s_items sale")
  case None
  then show ?thesis
    using assms by (simp add: applyStockChangesFromSale_def)
next
  case (Some items)
  obtain r1 s1 where g: "getCollection d_products s = (r1, s1)"
    by (cases "getCollection d_products s")
  have i1: "one_alert_inv s1"
    using inv_getCollection [OF assms(1) g] .
  show ?thesis
  proof (cases r1)
    case (Inl e)
    then show ?thesis
      using assms(2) Some g i1 by (simp add: applyStockChangesFromSale_def)
  next
    case (Inr products)
    obtain r2 s2 where lp: "sale_loop items products s1 = (r2, s2)"
      by (cases "sale_loop items products s1")
    have i2: "one_alert_inv s2"
      using inv_sale_loop [OF i1 lp] .
    show ?thesis
    proof (cases r2)
      case (Inl e)
      then show ?thesis
        using assms(2) Some g \<open>r1 = Inr products\<close> lp i2
        by (simp add: applyStockChangesFromSale_def)
    next
      case (Inr products1)
      obtain r3 s3 where sv: "saveCollection put_products products1 s2 = (r3, s3)"
        by (cases "saveCollection put_products products1 s2")
      have i3: "one_alert_inv s3"
        using inv_saveCollection [OF i2 _ sv] by (simp add: put_products_def)
      have "s' = s3"
        using assms(2) Some g \<open>r1 = Inr products\<close> lp Inr sv
        by (auto simp: applyStockChangesFromSale_def split: sum.splits)
      then show ?thesis
        using i3 by simp
    qed
  qed
qed

lemma inv_addSale:
  assumes "one_alert_inv s" and "addSale sd s = (r, s')"
  shows "one_alert_inv s'"
proof -
  obtain r1 s1 where g: "getCollection d_sales s = (r1, s1)"
    by (cases "getCollection d_sales s")
  have i1: "one_alert_inv s1"
    using inv_getCollection [OF assms(1) g] .
  show ?thesis
  proof (cases r1)
    case (Inl e)
    then show ?thesis
      using assms(2) g i1 by (simp add: addSale_def)
  next
    case (Inr list)
    define s3 where "s3 = snd (nowISO (snd (generateId ''sale'' s1)))"
    define sale where
      "sale = new_sale (fst (generateId ''sale'' s1)) (fst (nowISO (snd (generateId ''sale'' s1)))) sd"
    have i3: "one_alert_inv s3"
      using i1 by (simp add: s3_def inv_nowISO inv_generateId)
    obtain r4 s4 where sv: "saveCollection put_sales (list @ [sale]) s3 = (r4, s4)"
      by (cases "saveCollection put_sales (list @ [sale]) s3")
    have i4: "one_alert_inv s4"
      using inv_saveCollection [OF i3 _ sv] by (simp add: put_sales_def)
    obtain r5 s5 where ap: "applyStockChangesFromSale sale s4 = (r5, s5)"
      by (cases "applyStockChangesFromSale sale s4")
    have i5: "one_alert_inv s5"
      using inv_applyStockChangesFromSale [OF i4 ap] .
    have "s' = s4 \<or> s' = s5 \<or> s' = console_put (Console_warn ''Stock update after sale failed:'') s5"
      using assms(2) g Inr sv ap
      by (auto simp: addSale_def Let_def split_def s3_def [symmetric] sale_def [symmetric]
          split: sum.splits)
    then show ?thesis
      using i4 i5 by (auto simp: console_put_def)
  qed
qed

subsection \<open>Sales when localStorage accepts the writes\<close>

lemma saveCollection_healthy:
  assumes "dbCache s = Some c" and "\<forall>n. \<not> quota_at s n"
  shows "saveCollection put xs s =
     (Inr True,
      s\<lparr>localStorage := Some (Encodes (set_updatedAt (now_at s (now_reads s)) (put xs c))),
        dbCache := Some (put xs c),
        console := console s @ watcher_log (put xs c) (watchers s),
        notified := notified s @ map (\<lambda>w. (w_id w, put xs c)) (watchers s),
        now_reads := Suc (now_reads s),
        set_calls := Suc (set_calls s)\<rparr>)"
  using assms by (simp add: saveCollection_cached saveDB_ok)

lemma findIndex_Some:
  "findIndex P xs = Some k \<Longrightarrow> k < length xs \<and> P (xs ! k) \<and> (\<forall>j < k. \<not> P (xs ! j))"
proof (induction xs arbitrary: k)
  case Nil
  then show ?case by simp
next
  case (Cons x xs)
  show ?case
  proof (cases "P x")
    case True
    then show ?thesis using Cons.prems by simp
  next
    case False
    then obtain j where j: "findIndex P xs = Some j" "k = Suc j"
      using Cons.prems by auto
    then show ?thesis
      using Cons.IH [OF j(1)] False by (auto simp: less_Suc_eq_0_disj)
  qed
qed

lemma findIndex_None: "findIndex P xs = None \<longleftrightarrow> (\<forall>x \<in> set xs. \<not> P x)"
  by (induction xs) auto

lemma findIndex_cong:
  "map P xs = map P ys \<Longrightarrow> findIndex P xs = findIndex P ys"
proof (induction xs arbitrary: ys)
  case Nil
  then show ?case by simp
next
  case (Cons x xs)
  then obtain y ys' where "ys = y # ys'" by (cases ys) auto
  then show ?case using Cons by auto
qed

lemma find_product_Some:
  "find_product it ps = Some k \<Longrightarrow> k < length ps \<and> i_productId it = Some (p_id (ps ! k))"
  unfolding find_product_def by (drule findIndex_Some) auto

lemma find_product_ids:
  "map p_id ps' = map p_id ps \<Longrightarrow> find_product it ps' = find_product it ps"
proof -
  assume "map p_id ps' = map p_id ps"
  then have "map ((\<lambda>i. Some i = i_productId it) \<circ> p_id) ps' = map ((\<lambda>i. Some i = i_productId it) \<circ> p_id) ps"
    by (metis map_map)
  then show ?thesis
    unfolding find_product_def by (intro findIndex_cong) (simp add: comp_def)
qed

lemma map_p_id_stock [simp]:
  "map p_id (ps[k := (ps ! k)\<lparr>p_currentStock := x\<rparr>]) = map p_id ps"
  by (cases "k < length ps") (simp_all add: map_update list_update_same_conv list_update_beyond)

lemma sale_item_missing:
  "find_product it ps = None \<Longrightarrow>
   sale_item it ps s = (Inr ps, console_put (Console_warn ''Product not found for sale item'') s)"
  by (simp add: sale_item_def)

lemma sale_item_healthy:
  assumes c: "dbCache s = Some c" and q: "\<forall>n. \<not> quota_at s n"
    and f: "find_product it ps = Some k"
  shows "\<exists>s' as'.
           sale_item it ps s =
             (Inr (ps[k := (ps ! k)\<lparr>p_currentStock := Some (stock_after_sale it (ps ! k))\<rparr>]), s')
         \<and> dbCache s' = Some (c\<lparr>d_alerts := as'\<rparr>) \<and> quota_at s' = quota_at s
         \<and> (if low_stock (num_or0 (p_minStock (ps ! k))) (stock_after_sale it (ps ! k))
                \<and> find (unresolved_for (p_id (ps ! k))) (coll (d_alerts c)) = None
             then \<exists>a. as' = Some (coll (d_alerts c) @ [a]) \<and> unresolved_for (p_id (ps ! k)) a
                      \<and> a_currentStock a = stock_after_sale it (ps ! k)
                      \<and> a_minRequired a = num_or0 (p_minStock (ps ! k))
             else as' = d_alerts c)"
proof (cases "low_stock (num_or0 (p_minStock (ps ! k))) (stock_after_sale it (ps ! k))")
  case False
  then show ?thesis
    using c f by (auto simp: sale_item_def Let_def intro!: exI [of _ "d_alerts c"])
next
  case True
  show ?thesis
  proof (cases "find (unresolved_for (p_id (ps ! k))) (coll (d_alerts c))")
    case (Some existing)
    then show ?thesis
      using c f True
      by (auto simp: sale_item_def Let_def getCollection_cached [OF c]
          intro!: exI [of _ "d_alerts c"])
  next
    case None
    define s3 where "s3 = snd (nowISO (snd (generateId ''alert'' s)))"
    have c3: "dbCache s3 = Some c" and q3: "\<forall>n. \<not> quota_at s3 n"
      using c q by (simp_all add: s3_def nowISO_snd generateId_snd)
    show ?thesis
      using f True None c q
      apply (simp add: sale_item_def Let_def split_def getCollection_cached [OF c]
          s3_def [symmetric] saveCollection_healthy [OF c3 q3] put_alerts_def
          unresolved_for_def)
      apply (simp add: s3_def nowISO_snd generateId_snd)
      apply (intro exI conjI)
      apply (rule refl)
      apply (rule refl)
      apply simp
      apply simp
      apply simp
      apply simp
      done
  qed
qed

lemma sale_loop_single: "sale_loop [it] ps s = sale_item it ps s"
  by (cases "sale_item it ps s") (auto split: sum.splits)

lemma addSale_single:
  assumes c: "dbCache s = Some c" and q: "\<forall>n. \<not> quota_at s n"
    and i: "sd_items sd = Some (Some [it])"
    and f: "find_product it (coll (d_products c)) = Some k"
  shows "\<exists>sale s' as'.
           addSale sd s = (Inr sale, s') \<and> (\<forall>n. \<not> quota_at s' n)
         \<and> dbCache s' =
             Some (c\<lparr>d_products :=
                       Some ((coll (d_products c))
                          [k := (coll (d_products c) ! k)
                             \<lparr>p_currentStock := Some (stock_after_sale it (coll (d_products c) ! k))\<rparr>]),
                     d_sales := Some (coll (d_sales c) @ [sale]),
                     d_alerts := as'\<rparr>)
         \<and> (if low_stock (num_or0 (p_minStock (coll (d_products c) ! k)))
                  (stock_after_sale it (coll (d_products c) ! k))
                \<and> find (unresolved_for (p_id (coll (d_products c) ! k))) (coll (d_alerts c)) = None
             then \<exists>a. as' = Some (coll (d_alerts c) @ [a])
                      \<and> unresolved_for (p_id (coll (d_products c) ! k)) a
             else as' = d_alerts c)"
proof -
  define s3 where "s3 = snd (nowISO (snd (generateId ''sale'' s)))"
  define sale where
    "sale = new_sale (fst (generateId ''sale'' s)) (fst (nowISO (snd (generateId ''sale'' s)))) sd"
  define c4 where "c4 = put_sales (coll (d_sales c) @ [sale]) c"
  have c3: "dbCache s3 = Some c" and q3: "\<forall>n. \<not> quota_at s3 n"
    using c q by (simp_all add: s3_def nowISO_snd generateId_snd)
  obtain s4 where sv: "saveCollection put_sales (coll (d_sales c) @ [sale]) s3 = (Inr True, s4)"
    and c4: "dbCache s4 = Some c4" and q4: "\<forall>n. \<not> quota_at s4 n"
    using saveCollection_healthy [OF c3 q3, of put_sales] q3 by (simp add: c4_def)
  have it: "s_items sale = Some [it]"
    by (simp add: sale_def new_sale_def assign_def i)
  have ps: "coll (d_products c4) = coll (d_products c)" and as: "d_alerts c4 = d_alerts c"
    by (simp_all add: c4_def put_sales_def)
  define ps1 where "ps1 = (coll (d_products c))
      [k := (coll (d_products c) ! k)
         \<lparr>p_currentStock := Some (stock_after_sale it (coll (d_products c) ! k))\<rparr>]"
  have f4: "find_product it (coll (d_products c4)) = Some k"
    using f ps by simp
  obtain s5 as' where st4: "sale_item it (coll (d_products c4)) s4 =
        (Inr ((coll (d_products c4))
          [k := (coll (d_products c4) ! k)
             \<lparr>p_currentStock := Some (stock_after_sale it (coll (d_products c4) ! k))\<rparr>]), s5)"
    and c5: "dbCache s5 = Some (c4\<lparr>d_alerts := as'\<rparr>)" and q5: "quota_at s5 = quota_at s4"
    and a4: "if low_stock (num_or0 (p_minStock (coll (d_products c4) ! k)))
                  (stock_after_sale it (coll (d_products c4) ! k))
                \<and> find (unresolved_for (p_id (coll (d_products c4) ! k))) (coll (d_alerts c4)) = None
             then \<exists>a. as' = Some (coll (d_alerts c4) @ [a])
                      \<and> unresolved_for (p_id (coll (d_products c4) ! k)) a
                      \<and> a_currentStock a = stock_after_sale it (coll (d_products c4) ! k)
                      \<and> a_minRequired a = num_or0 (p_minStock (coll (d_products c4) ! k))
             else as' = d_alerts c4"
    using sale_item_healthy [OF c4 q4 f4] by blast
  have st: "sale_item it (coll (d_products c)) s4 = (Inr ps1, s5)"
    using st4 unfolding ps ps1_def .
  have a5: "if low_stock (num_or0 (p_minStock (coll (d_products c) ! k)))
                  (stock_after_sale it (coll (d_products c) ! k))
                \<and> find (unresolved_for (p_id (coll (d_products c) ! k))) (coll (d_alerts c)) = None
             then \<exists>a. as' = Some (coll (d_alerts c) @ [a])
                      \<and> unresolved_for (p_id (coll (d_products c) ! k)) a
             else as' = d_alerts c"
    using a4 unfolding ps as by (auto split: if_splits)
  have q5': "\<forall>n. \<not> quota_at s5 n"
    using q4 q5 by simp
  obtain s6 where sv6: "saveCollection put_products ps1 s5 = (Inr True, s6)"
    and c6: "dbCache s6 = Some (put_products ps1 (c4\<lparr>d_alerts := as'\<rparr>))"
    and q6: "\<forall>n. \<not> quota_at s6 n"
    using saveCollection_healthy [OF c5 q5', of put_products] q5' by simp
  have ap: "applyStockChangesFromSale sale s4 = (Inr (), s6)"
    by (simp add: applyStockChangesFromSale_def it getCollection_cached [OF c4] ps
        sale_loop_single st sv6)
  have "addSale sd s = (Inr sale, s6)"
    by (simp add: addSale_def getCollection_cached [OF c] Let_def split_def
        s3_def [symmetric] sale_def [symmetric] sv ap)
  moreover have "put_products ps1 (c4\<lparr>d_alerts := as'\<rparr>) =
      c\<lparr>d_products := Some ps1, d_sales := Some (coll (d_sales c) @ [sale]), d_alerts := as'\<rparr>"
    by (simp add: put_products_def c4_def put_sales_def)
  ultimately show ?thesis
    using c6 q6 a5 unfolding ps1_def by (intro exI [of _ sale] exI [of _ s6] exI [of _ as']) simp
qed

lemma stock_after_sale_boxes:
  assumes "item_unit it = ''box'' \<or> item_unit it = ''boxes''"
    and "i_quantity it = Some q" and "p_currentStock p = Some cs" and "boxes cs = Some b"
  shows "boxes (stock_after_sale it p) = Some (round3 (Some (b - q)))"
  using assms
  by (auto simp: stock_after_sale_def round_stock_def sale_apply_def stock_or_zero_def
      item_qty_def num_or0_def)

lemma find_unresolved_None:
  "find (unresolved_for pid) as = None \<longleftrightarrow> filter (unresolved_for pid) as = []"
  by (auto simp: find_None_iff filter_empty_conv)

lemma toLowerCase_Box: "toLowerCase ''Box'' = ''box''"
  by (simp add: toLowerCase_def lower_char_def)

subsection \<open>One round of a loop\<close>

lemma lower_char_idem: "lower_char (lower_char c) = lower_char c"
  by (simp add: lower_char_def)

lemma toLowerCase_idem: "toLowerCase (toLowerCase u) = toLowerCase u"
  by (simp add: toLowerCase_def lower_char_idem)

lemma sale_item_products:
  assumes "find_product it ps = Some k" and "sale_item it ps s = (Inr ps', s')"
  shows "ps' = ps[k := (ps ! k)\<lparr>p_currentStock := Some (stock_after_sale it (ps ! k))\<rparr>]"
  using assms
  by (auto simp: sale_item_def Let_def split: if_splits prod.splits sum.splits option.splits)

lemma purchase_item_products:
  assumes "find_product it ps = Some k" and "purchase_item it ps s = (Inr ps', s')"
  shows "ps' = ps[k := (ps ! k)\<lparr>p_currentStock := Some (stock_after_purchase it (ps ! k))\<rparr>]"
  using assms
  by (auto simp: purchase_item_def Let_def split: if_splits prod.splits sum.splits option.splits)

subsection \<open>The console is only written\<close>

lemma said_fields [simp]:
  "localStorage (said l s) = localStorage s" "dbCache (said l s) = dbCache s"
  "watchers (said l s) = watchers s" "console (said l s) = l @ console s"
  "notified (said l s) = notified s" "now_at (said l s) = now_at s"
  "now_reads (said l s) = now_reads s" "rand_at (said l s) = rand_at s"
  "rand_draws (said l s) = rand_draws s" "quota_at (said l s) = quota_at s"
  "set_calls (said l s) = set_calls s"
  by (simp_all add: said_def)

lemma said_nowISO: "nowISO (said l s) = apsnd (said l) (nowISO s)"
  by (simp add: nowISO_def said_def)

lemma said_generateId: "generateId p (said l s) = apsnd (said l) (generateId p s)"
  by (simp add: generateId_def nowISO_def random_0xFFF_def said_def)

lemma said_emptyDB: "emptyDB (said l s) = apsnd (said l) (emptyDB s)"
  by (simp add: emptyDB_def nowISO_def said_def)

lemma said_log: "console_put e (said l s) = said l (console_put e s)"
  by (simp add: console_put_def said_def)

lemma said_setItem: "setItem v (said l s) = apsnd (said l) (setItem v s)"
  by (simp add: setItem_def said_def)

lemma said_store_fresh: "store_fresh (said l s) = apsnd (said l) (store_fresh s)"
  by (simp add: store_fresh_def said_emptyDB said_setItem split_def Let_def split: sum.splits)

lemma said_load_try: "load_try r (said l s) = apsnd (said l) (load_try r s)"
  by (simp add: load_try_def said_emptyDB said_setItem said_nowISO split_def Let_def
      split: sum.splits raw.splits)

lemma said_load: "load (said l s) = apsnd (said l) (load s)"
  by (simp add: load_def getItem_def said_load_try said_store_fresh said_log split_def
      split: sum.splits option.splits)

lemma said_dbCache_update: "(said l s)\<lparr>dbCache := x\<rparr> = said l (s\<lparr>dbCache := x\<rparr>)"
  by (simp add: said_def)

lemma said_loadDB: "loadDB f (said l s) = apsnd (said l) (loadDB f s)"
  by (simp add: loadDB_def said_load split_def said_dbCache_update
      split: sum.splits option.splits)

lemma said_saveDB: "saveDB d (said l s) = apsnd (said l) (saveDB d s)"
  by (cases "quota_at s (set_calls s)") (simp_all add: saveDB_ok saveDB_fail said_def)

lemma said_getCollection: "getCollection sel (said l s) = apsnd (said l) (getCollection sel s)"
  by (simp add: getCollection_def said_loadDB split_def split: sum.splits)

lemma said_saveCollection:
  "saveCollection put xs (said l s) = apsnd (said l) (saveCollection put xs s)"
  by (simp add: saveCollection_def said_loadDB said_saveDB split_def split: sum.splits)

lemma said_sale_item: "sale_item it ps (said l s) = apsnd (said l) (sale_item it ps s)"
  by (simp add: sale_item_def said_getCollection said_generateId said_nowISO said_saveCollection
      said_log split_def Let_def split: sum.splits option.splits)

lemma said_sale_loop: "sale_loop items ps (said l s) = apsnd (said l) (sale_loop items ps s)"
  by (induction items arbitrary: ps s) (simp_all add: said_sale_item split_def split: sum.splits)

lemma said_applyStockChangesFromSale:
  "applyStockChangesFromSale sale (said l s) = apsnd (said l) (applyStockChangesFromSale sale s)"
  by (simp add: applyStockChangesFromSale_def said_getCollection said_sale_loop
      said_saveCollection split_def split: sum.splits option.splits)

lemma quiet_said [simp]: "quiet (said l s) = quiet s"
  by (simp add: quiet_def said_def)

lemma said_console_quiet: "said (console s) (quiet s) = s"
  by (simp add: quiet_def said_def)

lemma quiet_log [simp]: "quiet (console_put e s) = quiet s"
  by (simp add: quiet_def console_put_def)

lemma sale_loop_quiet:
  assumes "quiet s = quiet t"
  shows "fst (sale_loop items ps s) = fst (sale_loop items ps t)"
    and "quiet (snd (sale_loop items ps s)) = quiet (snd (sale_loop items ps t))"
proof -
  have "sale_loop items ps s = apsnd (said (console s)) (sale_loop items ps (quiet s))"
    using said_sale_loop [of items ps "console s" "quiet s"] by (simp add: said_console_quiet)
  moreover have "sale_loop items ps t = apsnd (said (console t)) (sale_loop items ps (quiet s))"
    using said_sale_loop [of items ps "console t" "quiet t"] assms
    by (simp add: said_console_quiet)
  ultimately show "fst (sale_loop items ps s) = fst (sale_loop items ps t)"
    and "quiet (snd (sale_loop items ps s)) = quiet (snd (sale_loop items ps t))"
    by simp_all
qed

lemma saveCollection_quiet:
  assumes "quiet s = quiet t"
  shows "fst (saveCollection put xs s) = fst (saveCollection put xs t)"
    and "quiet (snd (saveCollection put xs s)) = quiet (snd (saveCollection put xs t))"
proof -
  have "saveCollection put xs s = apsnd (said (console s)) (saveCollection put xs (quiet s))"
    using said_saveCollection [of put xs "console s" "quiet s"]
    by (simp add: said_console_quiet)
  moreover have "saveCollection put xs t = apsnd (said (console t)) (saveCollection put xs (quiet s))"
    using said_saveCollection [of put xs "console t" "quiet t"] assms
    by (simp add: said_console_quiet)
  ultimately show "fst (saveCollection put xs s) = fst (saveCollection put xs t)"
    and "quiet (snd (saveCollection put xs s)) = quiet (snd (saveCollection put xs t))"
    by simp_all
qed

lemma sale_item_ids:
  assumes "sale_item it ps s = (Inr ps', s')"
  shows "map p_id ps' = map p_id ps"
proof (cases "find_product it ps")
  case None
  then show ?thesis
    using assms by (simp add: sale_item_missing)
next
  case (Some k)
  then show ?thesis
    using sale_item_products [OF Some assms] by simp
qed

lemma sale_loop_ids:
  assumes "sale_loop items ps s = (Inr ps', s')"
  shows "map p_id ps' = map p_id ps"
  using assms
proof (induction items arbitrary: ps s)
  case Nil
  then show ?case by simp
next
  case (Cons it rest)
  obtain r1 s1 where st: "sale_item it ps s = (r1, s1)"
    by (cases "sale_item it ps s")
  show ?case
  proof (cases r1)
    case (Inl e)
    then show ?thesis using Cons.prems st by simp
  next
    case (Inr ps1)
    then have "sale_loop rest ps1 s1 = (Inr ps', s')"
      using Cons.prems st by simp
    then have "map p_id ps' = map p_id ps1"
      by (rule Cons.IH)
    then show ?thesis
      using sale_item_ids [OF st [unfolded Inr]] by simp
  qed
qed

lemma sale_loop_append:
  "sale_loop (xs @ ys) ps s =
     (case sale_loop xs ps s of
        (Inl e, s1) \<Rightarrow> (Inl e, s1)
      | (Inr ps1, s1) \<Rightarrow> sale_loop ys ps1 s1)"
proof (induction xs arbitrary: ps s)
  case Nil
  show ?case
    by (cases "sale_loop ys ps s") simp
next
  case (Cons x xs)
  obtain r1 s1 where st: "sale_item x ps s = (r1, s1)"
    by (cases "sale_item x ps s")
  show ?case
  proof (cases r1)
    case (Inl e)
    then show ?thesis using st by simp
  next
    case (Inr ps1)
    then show ?thesis using st Cons.IH [of ps1 s1] by simp
  qed
qed

lemma sale_loop_skip:
  assumes "find_product it ps = None"
  shows "sale_loop (it # rest) ps s =
     sale_loop rest ps (console_put (Console_warn ''Product not found for sale item'') s)"
  using assms by (simp add: sale_item_missing)

lemma sale_loop_without:
  assumes "find_product it ps = None"
  shows "fst (sale_loop (before @ it # after) ps s) = fst (sale_loop (before @ after) ps s)"
    and "quiet (snd (sale_loop (before @ it # after) ps s))
         = quiet (snd (sale_loop (before @ after) ps s))"
proof -
  obtain r1 s1 where b: "sale_loop before ps s = (r1, s1)"
    by (cases "sale_loop before ps s")
  have "fst (sale_loop (before @ it # after) ps s) = fst (sale_loop (before @ after) ps s)
      \<and> quiet (snd (sale_loop (before @ it # after) ps s))
         = quiet (snd (sale_loop (before @ after) ps s))"
  proof (cases r1)
    case (Inl e)
    then show ?thesis
      using b by (simp add: sale_loop_append)
  next
    case (Inr ps1)
    have "map p_id ps1 = map p_id ps"
      using sale_loop_ids b Inr by blast
    then have "find_product it ps1 = find_product it ps"
      by (rule find_product_ids)
    then have "find_product it ps1 = None"
      using assms by simp
    then have 3: "sale_loop (it # after) ps1 s1 =
        sale_loop after ps1 (console_put (Console_warn ''Product not found for sale item'') s1)"
      by (rule sale_loop_skip)
    have 1: "sale_loop (before @ it # after) ps s = sale_loop (it # after) ps1 s1"
      using b Inr by (simp add: sale_loop_append del: sale_loop.simps)
    have 2: "sale_loop (before @ after) ps s = sale_loop after ps1 s1"
      using b Inr by (simp add: sale_loop_append del: sale_loop.simps)
    have 4: "quiet (console_put (Console_warn ''Product not found for sale item'') s1) = quiet s1"
      by simp
    show ?thesis
      unfolding 1 2 3 using sale_loop_quiet [OF 4, of after ps1] by blast
  qed
  then show "fst (sale_loop (before @ it # after) ps s) = fst (sale_loop (before @ after) ps s)"
    and "quiet (snd (sale_loop (before @ it # after) ps s))
         = quiet (snd (sale_loop (before @ after) ps s))"
    by simp_all
qed

subsection \<open>Purchases when localStorage accepts the writes\<close>

lemma resolved_since_refl [simp]: "resolved_since a a"
  by (simp add: resolved_since_def)

lemma resolved_since_trans:
  "resolved_since a b \<Longrightarrow> resolved_since b c \<Longrightarrow> resolved_since a c"
  by (auto simp: resolved_since_def)

lemma resolved_since_resolve:
  "\<not> a_resolved a \<Longrightarrow> resolved_since a (a\<lparr>a_resolved := True, a_resolvedAt := Some t\<rparr>)"
  by (simp add: resolved_since_def)

lemma resolved_since_productId: "resolved_since a b \<Longrightarrow> a_productId b = a_productId a"
  by (auto simp: resolved_since_def) (metis alert.select_convs(2) alert.surjective alert.update_convs(7,8))

lemma resolved_since_unresolved:
  "resolved_since a b \<Longrightarrow> unresolved_for pid b \<Longrightarrow> unresolved_for pid a"
  by (auto simp: resolved_since_def unresolved_for_def)

lemma all2_resolved_since_refl [simp]: "list_all2 resolved_since as as"
  by (simp add: list_all2_refl)

lemma all2_resolved_since_trans:
  "list_all2 resolved_since xs ys \<Longrightarrow> list_all2 resolved_since ys zs
   \<Longrightarrow> list_all2 resolved_since xs zs"
  by (rule list_all2_trans [where ?P1.0 = resolved_since and ?P2.0 = resolved_since])
    (auto intro: resolved_since_trans)

lemma all2_resolved_since_none:
  assumes "list_all2 resolved_since xs ys" and "filter (unresolved_for pid) xs = []"
  shows "filter (unresolved_for pid) ys = []"
  using assms
  by (induction rule: list_all2_induct) (auto dest: resolved_since_unresolved split: if_splits)

lemma resolve_all_snd:
  "snd (resolve_all pid as s) =
     s\<lparr>now_reads := now_reads s + length (filter (unresolved_for pid) as)\<rparr>"
  by (induction as arbitrary: s) (simp_all add: split_def Let_def nowISO_def)

lemma resolve_all_changed:
  "snd (fst (resolve_all pid as s)) = (filter (unresolved_for pid) as \<noteq> [])"
  by (induction as arbitrary: s) (simp_all add: split_def Let_def)

lemma resolve_all_same:
  "filter (unresolved_for pid) as = [] \<Longrightarrow> fst (fst (resolve_all pid as s)) = as"
  by (induction as arbitrary: s) (simp_all add: split_def Let_def split: if_splits)

lemma resolve_all_since:
  "list_all2 resolved_since as (fst (fst (resolve_all pid as s)))"
  by (induction as arbitrary: s)
    (simp_all add: split_def Let_def resolved_since_resolve unresolved_for_def)

lemma resolve_all_done:
  "filter (unresolved_for pid) (fst (fst (resolve_all pid as s))) = []"
  by (induction as arbitrary: s) (simp_all add: split_def Let_def unresolved_for_def)

lemma purchase_item_missing:
  "find_product it ps = None \<Longrightarrow>
   purchase_item it ps s = (Inr ps, console_put (Console_warn ''Product not found for purchase item'') s)"
  by (simp add: purchase_item_def)

lemma purchase_item_healthy:
  assumes c: "dbCache s = Some c" and q: "\<forall>n. \<not> quota_at s n"
    and f: "find_product it ps = Some k"
  shows "\<exists>s' as'.
           purchase_item it ps s =
             (Inr (ps[k := (ps ! k)\<lparr>p_currentStock := Some (stock_after_purchase it (ps ! k))\<rparr>]), s')
         \<and> dbCache s' = Some (c\<lparr>d_alerts := as'\<rparr>) \<and> quota_at s' = quota_at s
         \<and> list_all2 resolved_since (coll (d_alerts c)) (coll as')
         \<and> (restocked (num_or0 (p_minStock (ps ! k))) (stock_after_purchase it (ps ! k))
              \<longrightarrow> filter (unresolved_for (p_id (ps ! k))) (coll as') = [])"
proof (cases "restocked (num_or0 (p_minStock (ps ! k))) (stock_after_purchase it (ps ! k))")
  case False
  then show ?thesis
    using c f by (auto simp: purchase_item_def Let_def intro!: exI [of _ "d_alerts c"])
next
  case True
  define pid where "pid = p_id (ps ! k)"
  define as where "as = coll (d_alerts c)"
  define as1 where "as1 = fst (fst (resolve_all pid as s))"
  define s2 where "s2 = snd (resolve_all pid as s)"
  have c2: "dbCache s2 = Some c" and q2: "\<forall>n. \<not> quota_at s2 n"
    and qs: "quota_at s2 = quota_at s"
    using c q by (simp_all add: s2_def resolve_all_snd)
  have ra: "resolve_all pid as s = ((as1, filter (unresolved_for pid) as \<noteq> []), s2)"
    using resolve_all_changed [of pid as s]
    by (cases "resolve_all pid as s") (auto simp: as1_def s2_def)
  show ?thesis
  proof (cases "filter (unresolved_for pid) as = []")
    case True
    then have "as1 = as" and "s2 = s"
      by (simp_all add: as1_def s2_def resolve_all_same resolve_all_snd)
    then have ra': "resolve_all pid as s = ((as, False), s)"
      using ra True by simp
    have "purchase_item it ps s =
        (Inr (ps[k := (ps ! k)\<lparr>p_currentStock := Some (stock_after_purchase it (ps ! k))\<rparr>]), s)"
      using \<open>restocked _ _\<close> f
      by (simp add: purchase_item_def Let_def getCollection_cached [OF c]
          pid_def [symmetric] as_def [symmetric] ra')
    then show ?thesis
      using c True unfolding as_def pid_def
      by (intro exI [of _ s] exI [of _ "d_alerts c"]) simp
  next
    case False
    have e: "list_all2 resolved_since as as1" and d: "filter (unresolved_for pid) as1 = []"
      by (simp_all add: as1_def resolve_all_since resolve_all_done)
    have "purchase_item it ps s =
        (Inr (ps[k := (ps ! k)\<lparr>p_currentStock := Some (stock_after_purchase it (ps ! k))\<rparr>]),
         snd (saveCollection put_alerts as1 s2))"
      using \<open>restocked _ _\<close> f False
      by (simp add: purchase_item_def Let_def getCollection_cached [OF c]
          pid_def [symmetric] as_def [symmetric] ra saveCollection_healthy [OF c2 q2])
    moreover have "dbCache (snd (saveCollection put_alerts as1 s2)) = Some (c\<lparr>d_alerts := Some as1\<rparr>)"
      "quota_at (snd (saveCollection put_alerts as1 s2)) = quota_at s"
      using qs by (simp_all add: saveCollection_healthy [OF c2 q2] put_alerts_def)
    ultimately show ?thesis
      using e d unfolding as_def pid_def
      by (intro exI [of _ "snd (saveCollection put_alerts as1 s2)"] exI [of _ "Some as1"])
        (simp add: coll_def)
  qed
qed

lemma map_p_minStock_stock [simp]:
  "map p_minStock (ps[k := (ps ! k)\<lparr>p_currentStock := x\<rparr>]) = map p_minStock ps"
  by (cases "k < length ps") (simp_all add: map_update list_update_same_conv list_update_beyond)

lemma purchase_loop_healthy:
  assumes "dbCache s = Some c" and "\<forall>n. \<not> quota_at s n"
  shows "\<exists>ps' s' as'.
       purchase_loop items ps s = (Inr ps', s')
     \<and> dbCache s' = Some (c\<lparr>d_alerts := as'\<rparr>) \<and> quota_at s' = quota_at s
     \<and> list_all2 resolved_since (coll (d_alerts c)) (coll as')
     \<and> map p_id ps' = map p_id ps \<and> map p_minStock ps' = map p_minStock ps
     \<and> (\<forall>j. (\<forall>it \<in> set items. find_product it ps \<noteq> Some j) \<longrightarrow> ps' ! j = ps ! j)
     \<and> (\<forall>it \<in> set items. \<forall>k. find_product it ps = Some k \<longrightarrow>
           restocked (num_or0 (p_minStock (ps' ! k))) (stock_or_zero (ps' ! k)) \<longrightarrow>
           filter (unresolved_for (p_id (ps ! k))) (coll as') = [])"
  using assms
proof (induction items arbitrary: ps s c)
  case Nil
  then show ?case
    by (intro exI [of _ ps] exI [of _ s] exI [of _ "d_alerts c"]) simp
next
  case (Cons it rest)
  show ?case
  proof (cases "find_product it ps")
    case None
    define s1 where "s1 = console_put (Console_warn ''Product not found for purchase item'') s"
    have st: "purchase_item it ps s = (Inr ps, s1)"
      using None by (simp add: purchase_item_missing s1_def)
    have c1: "dbCache s1 = Some c" and q1: "\<forall>n. \<not> quota_at s1 n" and qq: "quota_at s1 = quota_at s"
      using Cons.prems by (simp_all add: s1_def console_put_def)
    obtain ps' s' as' where
      l: "purchase_loop rest ps s1 = (Inr ps', s')"
      and c': "dbCache s' = Some (c\<lparr>d_alerts := as'\<rparr>)" and q': "quota_at s' = quota_at s1"
      and e: "list_all2 resolved_since (coll (d_alerts c)) (coll as')"
      and i: "map p_id ps' = map p_id ps" "map p_minStock ps' = map p_minStock ps"
      and u: "\<forall>j. (\<forall>it \<in> set rest. find_product it ps \<noteq> Some j) \<longrightarrow> ps' ! j = ps ! j"
      and r: "\<forall>it \<in> set rest. \<forall>k. find_product it ps = Some k \<longrightarrow>
           restocked (num_or0 (p_minStock (ps' ! k))) (stock_or_zero (ps' ! k)) \<longrightarrow>
           filter (unresolved_for (p_id (ps ! k))) (coll as') = []"
      using Cons.IH [OF c1 q1, of ps] by blast
    have "purchase_loop (it # rest) ps s = (Inr ps', s')"
      using st l by simp
    moreover have "\<forall>it' \<in> set (it # rest). \<forall>k. find_product it' ps = Some k \<longrightarrow>
           restocked (num_or0 (p_minStock (ps' ! k))) (stock_or_zero (ps' ! k)) \<longrightarrow>
           filter (unresolved_for (p_id (ps ! k))) (coll as') = []"
      using r None by auto
    moreover have "\<forall>j. (\<forall>it' \<in> set (it # rest). find_product it' ps \<noteq> Some j) \<longrightarrow> ps' ! j = ps ! j"
      using u by auto
    ultimately show ?thesis
      using c' q' qq e i by (intro exI [of _ ps'] exI [of _ s'] exI [of _ as']) simp
  next
    case (Some k0)
    define cs where "cs = stock_after_purchase it (ps ! k0)"
    define ps1 where "ps1 = ps[k0 := (ps ! k0)\<lparr>p_currentStock := Some cs\<rparr>]"
    have k0: "k0 < length ps"
      using find_product_Some [OF Some] by simp
    obtain s1 as1 where st: "purchase_item it ps s = (Inr ps1, s1)"
      and c1: "dbCache s1 = Some (c\<lparr>d_alerts := as1\<rparr>)" and qq: "quota_at s1 = quota_at s"
      and e1: "list_all2 resolved_since (coll (d_alerts c)) (coll as1)"
      and r1: "restocked (num_or0 (p_minStock (ps ! k0))) cs
              \<longrightarrow> filter (unresolved_for (p_id (ps ! k0))) (coll as1) = []"
      using purchase_item_healthy [OF Cons.prems Some] unfolding cs_def ps1_def by blast
    have q1: "\<forall>n. \<not> quota_at s1 n"
      using Cons.prems(2) qq by simp
    have ids1: "map p_id ps1 = map p_id ps" "map p_minStock ps1 = map p_minStock ps"
      by (simp_all add: ps1_def)
    have fp: "find_product it' ps1 = find_product it' ps" for it'
      using ids1(1) by (rule find_product_ids)
    obtain ps' s' as' where
      l: "purchase_loop rest ps1 s1 = (Inr ps', s')"
      and c': "dbCache s' = Some (c\<lparr>d_alerts := as1, d_alerts := as'\<rparr>)"
      and q': "quota_at s' = quota_at s1"
      and e: "list_all2 resolved_since (coll (d_alerts (c\<lparr>d_alerts := as1\<rparr>))) (coll as')"
      and i: "map p_id ps' = map p_id ps1" "map p_minStock ps' = map p_minStock ps1"
      and u: "\<forall>j. (\<forall>it \<in> set rest. find_product it ps1 \<noteq> Some j) \<longrightarrow> ps' ! j = ps1 ! j"
      and r: "\<forall>it \<in> set rest. \<forall>k. find_product it ps1 = Some k \<longrightarrow>
           restocked (num_or0 (p_minStock (ps' ! k))) (stock_or_zero (ps' ! k)) \<longrightarrow>
           filter (unresolved_for (p_id (ps1 ! k))) (coll as') = []"
      using Cons.IH [OF c1 q1, of ps1] by blast
    have e': "list_all2 resolved_since (coll (d_alerts c)) (coll as')"
      using all2_resolved_since_trans [OF e1] e by simp
    have l': "purchase_loop (it # rest) ps s = (Inr ps', s')"
      using st l by simp
    have u': "\<forall>j. (\<forall>it' \<in> set (it # rest). find_product it' ps \<noteq> Some j) \<longrightarrow> ps' ! j = ps ! j"
    proof (intro allI impI)
      fix j
      assume a: "\<forall>it' \<in> set (it # rest). find_product it' ps \<noteq> Some j"
      then have "j \<noteq> k0"
        using Some by auto
      moreover have "ps' ! j = ps1 ! j"
        using u a fp by simp
      ultimately show "ps' ! j = ps ! j"
        by (simp add: ps1_def)
    qed
    have r': "\<forall>it' \<in> set (it # rest). \<forall>k. find_product it' ps = Some k \<longrightarrow>
           restocked (num_or0 (p_minStock (ps' ! k))) (stock_or_zero (ps' ! k)) \<longrightarrow>
           filter (unresolved_for (p_id (ps ! k))) (coll as') = []"
    proof (intro ballI allI impI)
      fix it' k
      assume m: "it' \<in> set (it # rest)" and f: "find_product it' ps = Some k"
        and re: "restocked (num_or0 (p_minStock (ps' ! k))) (stock_or_zero (ps' ! k))"
      have k: "k < length ps"
        using find_product_Some [OF f] by simp
      have pk: "p_id (ps1 ! k) = p_id (ps ! k)"
        using k by (cases "k = k0") (simp_all add: ps1_def)
      show "filter (unresolved_for (p_id (ps ! k))) (coll as') = []"
      proof (cases "\<exists>it'' \<in> set rest. find_product it'' ps = Some k")
        case True
        then obtain it'' where "it'' \<in> set rest" "find_product it'' ps1 = Some k"
          using fp by auto
        then show ?thesis
          using r re pk by auto
      next
        case False
        then have "it' = it" and kk: "k = k0"
          using m f Some by auto
        have "ps' ! k = ps1 ! k"
          using u False fp by simp
        then have pk': "ps' ! k = (ps ! k0)\<lparr>p_currentStock := Some cs\<rparr>"
          using k0 kk by (simp add: ps1_def)
        have "restocked (num_or0 (p_minStock (ps ! k0))) cs"
          using re unfolding pk' by (simp add: stock_or_zero_def)
        then have "filter (unresolved_for (p_id (ps ! k0))) (coll as1) = []"
          using r1 by simp
        then show ?thesis
          using all2_resolved_since_none [of "coll as1" "coll as'"] e kk by simp
      qed
    qed
    show ?thesis
      using l' c' q' qq e' i ids1 u' r'
      by (intro exI [of _ ps'] exI [of _ s'] exI [of _ as']) simp
  qed
qed

subsection \<open>What a reconciliation leaves of the record\<close>

lemma recorded_frame [simp]:
  "recorded S U (s\<lparr>now_reads := a\<rparr>) = recorded S U s"
  "recorded S U (s\<lparr>rand_draws := b\<rparr>) = recorded S U s"
  "recorded S U (s\<lparr>set_calls := c\<rparr>) = recorded S U s"
  "recorded S U (s\<lparr>console := d\<rparr>) = recorded S U s"
  "recorded S U (s\<lparr>notified := e\<rparr>) = recorded S U s"
  by (simp_all add: recorded_def)

lemma recorded_log [simp]: "recorded S U (console_put e s) = recorded S U s"
  by (simp add: console_put_def)

lemma recorded_saveDB:
  assumes "recorded S U s" and "d_sales d = S" and "d_purchases d = U"
    and "saveDB d s = (r, s')"
  shows "recorded S U s'"
proof (cases "quota_at s (set_calls s)")
  case True
  then show ?thesis
    using assms by (auto simp: saveDB_fail)
next
  case False
  then show ?thesis
    using assms by (auto simp: saveDB_ok recorded_def set_updatedAt_def)
qed

lemma recorded_getCollection:
  assumes "recorded S U s"
  shows "\<exists>xs. getCollection sel s = (Inr xs, s)"
  using assms by (auto simp: recorded_def getCollection_cached)

lemma recorded_saveCollection:
  assumes "recorded S U s"
    and "\<And>db. d_sales (put xs db) = d_sales db \<and> d_purchases (put xs db) = d_purchases db"
    and "saveCollection put xs s = (r, s')"
  shows "recorded S U s'"
proof -
  obtain c where c: "dbCache s = Some c" "d_sales c = S" "d_purchases c = U"
    using assms(1) by (auto simp: recorded_def)
  have "saveDB (put xs c) s = (r, s')"
    using assms(3) by (simp add: saveCollection_cached [OF c(1)])
  then show ?thesis
    using recorded_saveDB [OF assms(1), of "put xs c"] assms(2) c by simp
qed

lemma saveCollection_InrE:
  assumes "saveCollection put xs s = (Inr b, s')"
  shows "\<exists>db u. dbCache s' = Some (put xs db) \<and> localStorage s' = Some (Encodes (set_updatedAt u (put xs db)))"
proof -
  obtain r1 s1 where l: "loadDB False s = (r1, s1)"
    by (cases "loadDB False s")
  show ?thesis
  proof (cases r1)
    case (Inl e)
    then show ?thesis using assms l by (simp add: saveCollection_def)
  next
    case (Inr db)
    then have "saveDB (put xs db) s1 = (Inr b, s')"
      using assms l by (simp add: saveCollection_def)
    then show ?thesis
      using saveDB_result(2,3) by blast
  qed
qed

lemma recorded_sale_item:
  assumes "recorded S U s" and "sale_item it ps s = (r, s')"
  shows "recorded S U s'"
proof (cases "find_product it ps")
  case None
  then show ?thesis
    using assms by (auto simp: sale_item_missing)
next
  case (Some k)
  obtain alerts where g: "getCollection d_alerts s = (Inr alerts, s)"
    using recorded_getCollection [OF assms(1)] by blast
  define s3 where "s3 = snd (nowISO (snd (generateId ''alert'' s)))"
  have r3: "recorded S U s3"
    using assms(1) by (simp add: s3_def nowISO_snd generateId_snd)
  have sv: "recorded S U (snd (saveCollection put_alerts xs s3))" for xs
    using recorded_saveCollection [OF r3, of put_alerts xs "fst (saveCollection put_alerts xs s3)"
        "snd (saveCollection put_alerts xs s3)"]
    by (simp add: put_alerts_def)
  have "s' = s \<or> (\<exists>xs. s' = snd (saveCollection put_alerts xs s3))"
    using assms(2) Some g
    by (auto simp: sale_item_def Let_def split_def s3_def
        split: if_splits option.splits sum.splits)
  then show ?thesis
    using assms(1) sv by auto
qed

lemma recorded_sale_loop:
  assumes "recorded S U s" and "sale_loop items ps s = (r, s')"
  shows "recorded S U s'"
  using assms
proof (induction items arbitrary: ps s)
  case Nil
  then show ?case by simp
next
  case (Cons it rest)
  obtain r1 s1 where st: "sale_item it ps s = (r1, s1)"
    by (cases "sale_item it ps s")
  have i1: "recorded S U s1"
    using recorded_sale_item [OF Cons.prems(1) st] .
  show ?case
  proof (cases r1)
    case (Inl e)
    then show ?thesis using Cons.prems(2) st i1 by simp
  next
    case (Inr ps1)
    then have "sale_loop rest ps1 s1 = (r, s')"
      using Cons.prems(2) st by simp
    then show ?thesis
      using Cons.IH [OF i1] by blast
  qed
qed

lemma recorded_applyStockChangesFromSale:
  assumes "recorded S U s" and "applyStockChangesFromSale sale s = (r, s')"
  shows "recorded S U s'"
proof (cases "s_items sale")
  case None
  then show ?thesis
    using assms by (simp add: applyStockChangesFromSale_def)
next
  case (Some items)
  obtain products where g: "getCollection d_products s = (Inr products, s)"
    using recorded_getCollection [OF assms(1)] by blast
  obtain r2 s2 where lp: "sale_loop items products s = (r2, s2)"
    by (cases "sale_loop items products s")
  have i2: "recorded S U s2"
    using recorded_sale_loop [OF assms(1) lp] .
  show ?thesis
  proof (cases r2)
    case (Inl e)
    then show ?thesis
      using assms(2) Some g lp i2 by (simp add: applyStockChangesFromSale_def)
  next
    case (Inr products1)
    obtain r3 s3 where sv: "saveCollection put_products products1 s2 = (r3, s3)"
      by (cases "saveCollection put_products products1 s2")
    have i3: "recorded S U s3"
      using recorded_saveCollection [OF i2 _ sv] by (simp add: put_products_def)
    have "s' = s3"
      using assms(2) Some g lp Inr sv
      by (auto simp: applyStockChangesFromSale_def split: sum.splits)
    then show ?thesis
      using i3 by simp
  qed
qed

lemma recorded_purchase_item:
  assumes "recorded S U s" and "purchase_item it ps s = (r, s')"
  shows "recorded S U s'"
proof (cases "find_product it ps")
  case None
  then show ?thesis
    using assms by (auto simp: purchase_item_def)
next
  case (Some k)
  obtain alerts where g: "getCollection d_alerts s = (Inr alerts, s)"
    using recorded_getCollection [OF assms(1)] by blast
  define s2 where "s2 = snd (resolve_all (p_id (ps ! k)) alerts s)"
  have r2: "recorded S U s2"
    using assms(1) by (simp add: s2_def resolve_all_snd)
  have sv: "recorded S U (snd (saveCollection put_alerts xs s2))" for xs
    using recorded_saveCollection [OF r2, of put_alerts xs "fst (saveCollection put_alerts xs s2)"
        "snd (saveCollection put_alerts xs s2)"]
    by (simp add: put_alerts_def)
  have "s' = s \<or> s' = s2 \<or> (\<exists>xs. s' = snd (saveCollection put_alerts xs s2))"
    using assms(2) Some g
    by (auto simp: purchase_item_def Let_def split_def s2_def
        split: if_splits option.splits sum.splits)
  then show ?thesis
    using assms(1) r2 sv by auto
qed

lemma recorded_purchase_loop:
  assumes "recorded S U s" and "purchase_loop items ps s = (r, s')"
  shows "recorded S U s'"
  using assms
proof (induction items arbitrary: ps s)
  case Nil
  then show ?case by simp
next
  case (Cons it rest)
  obtain r1 s1 where st: "purchase_item it ps s = (r1, s1)"
    by (cases "purchase_item it ps s")
  have i1: "recorded S U s1"
    using recorded_purchase_item [OF Cons.prems(1) st] .
  show ?case
  proof (cases r1)
    case (Inl e)
    then show ?thesis using Cons.prems(2) st i1 by simp
  next
    case (Inr ps1)
    then have "purchase_loop rest ps1 s1 = (r, s')"
      using Cons.prems(2) st by simp
    then show ?thesis
      using Cons.IH [OF i1] by blast
  qed
qed

lemma recorded_applyStockChangesFromPurchase:
  assumes "recorded S U s" and "applyStockChangesFromPurchase purchase s = (r, s')"
  shows "recorded S U s'"
proof (cases "pu_items purchase")
  case None
  then show ?thesis
    using assms by (simp add: applyStockChangesFromPurchase_def)
next
  case (Some items)
  obtain products where g: "getCollection d_products s = (Inr products, s)"
    using recorded_getCollection [OF assms(1)] by blast
  obtain r2 s2 where lp: "purchase_loop items products s = (r2, s2)"
    by (cases "purchase_loop items products s")
  have i2: "recorded S U s2"
    using recorded_purchase_loop [OF assms(1) lp] .
  show ?thesis
  proof (cases r2)
    case (Inl e)
    then show ?thesis
      using assms(2) Some g lp i2 by (simp add: applyStockChangesFromPurchase_def)
  next
    case (Inr products1)
    obtain r3 s3 where sv: "saveCollection put_products products1 s2 = (r3, s3)"
      by (cases "saveCollection put_products products1 s2")
    have i3: "recorded S U s3"
      using recorded_saveCollection [OF i2 _ sv] by (simp add: put_products_def)
    have "s' = s3"
      using assms(2) Some g lp Inr sv
      by (auto simp: applyStockChangesFromPurchase_def split: sum.splits)
    then show ?thesis
      using i3 by simp
  qed
qed

subsection \<open>A reconciliation that fails\<close>

lemma sale_item_quota:
  assumes c: "dbCache s = Some c" and f: "find_product it ps = Some k"
    and low: "low_stock (num_or0 (p_minStock (ps ! k))) (stock_after_sale it (ps ! k))"
    and none: "find (unresolved_for (p_id (ps ! k))) (coll (d_alerts c)) = None"
    and full: "quota_at s (set_calls s)"
  shows "fst (sale_item it ps s) = Inl QuotaExceededError"
proof -
  define s3 where "s3 = snd (nowISO (snd (generateId ''alert'' s)))"
  have c3: "dbCache s3 = Some c" and q3: "quota_at s3 (set_calls s3)"
    using c full by (simp_all add: s3_def nowISO_snd generateId_snd)
  show ?thesis
    using f low none
    by (simp add: sale_item_def Let_def split_def getCollection_cached [OF c]
        s3_def [symmetric] saveCollection_cached [OF c3] saveDB_fail [OF q3])
qed

lemma applySale_quota:
  assumes c: "dbCache s = Some c" and i: "s_items sale = Some [it]"
    and f: "find_product it (coll (d_products c)) = Some k"
    and low: "low_stock (num_or0 (p_minStock (coll (d_products c) ! k)))
                (stock_after_sale it (coll (d_products c) ! k))"
    and none: "find (unresolved_for (p_id (coll (d_products c) ! k))) (coll (d_alerts c)) = None"
    and full: "quota_at s (set_calls s)"
  shows "\<exists>s'. applyStockChangesFromSale sale s = (Inl QuotaExceededError, s')"
proof -
  obtain r s' where st: "sale_item it (coll (d_products c)) s = (r, s')"
    by (cases "sale_item it (coll (d_products c)) s")
  then have "r = Inl QuotaExceededError"
    using sale_item_quota [OF c f low none full] by simp
  then show ?thesis
    using st by (simp add: applyStockChangesFromSale_def i getCollection_cached [OF c])
qed

lemma applyPurchase_quota:
  assumes c: "dbCache s = Some c" and i: "pu_items purchase = Some [it]"
    and f: "find_product it (coll (d_products c)) = Some k"
    and none: "filter (unresolved_for (p_id (coll (d_products c) ! k))) (coll (d_alerts c)) = []"
    and full: "quota_at s (set_calls s)"
  shows "\<exists>s'. applyStockChangesFromPurchase purchase s = (Inl QuotaExceededError, s')"
proof -
  define ps where "ps = coll (d_products c)"
  define ps1 where
    "ps1 = ps[k := (ps ! k)\<lparr>p_currentStock := Some (stock_after_purchase it (ps ! k))\<rparr>]"
  have ra: "resolve_all (p_id (ps ! k)) (coll (d_alerts c)) s = ((coll (d_alerts c), False), s)"
    using none resolve_all_same [of "p_id (ps ! k)" "coll (d_alerts c)" s]
      resolve_all_changed [of "p_id (ps ! k)" "coll (d_alerts c)" s]
      resolve_all_snd [of "p_id (ps ! k)" "coll (d_alerts c)" s]
    by (cases "resolve_all (p_id (ps ! k)) (coll (d_alerts c)) s") (auto simp: ps_def)
  have st: "purchase_item it ps s = (Inr ps1, s)"
    using f
    by (simp add: purchase_item_def Let_def getCollection_cached [OF c] ps_def [symmetric] ra
        ps1_def)
  show ?thesis
    by (simp add: applyStockChangesFromPurchase_def i getCollection_cached [OF c]
        ps_def [symmetric] st saveCollection_cached [OF c] saveDB_fail [OF full])
qed

subsection \<open>The products after a sale\<close>

lemma sold_missing: "find_product it ps = None \<Longrightarrow> sold it ps = ps"
  by (simp add: sold_def)

lemma sold_ids [simp]: "map p_id (sold it ps) = map p_id ps"
  by (simp add: sold_def split: option.splits)

lemma find_product_sold [simp]: "find_product it (sold i ps) = find_product it ps"
  by (rule find_product_ids) simp

lemma find_product_foldl_sold [simp]:
  "find_product it (foldl (\<lambda>ps i. sold i ps) ps items) = find_product it ps"
  by (induction items arbitrary: ps) simp_all

lemma foldl_sold_without:
  assumes "find_product it ps = None"
  shows "foldl (\<lambda>ps i. sold i ps) ps (before @ it # after)
       = foldl (\<lambda>ps i. sold i ps) ps (before @ after)"
proof -
  have "find_product it (foldl (\<lambda>ps i. sold i ps) ps before) = None"
    using assms by simp
  then have "sold it (foldl (\<lambda>ps i. sold i ps) ps before) = foldl (\<lambda>ps i. sold i ps) ps before"
    by (rule sold_missing)
  then show ?thesis by simp
qed

lemma sale_item_sold:
  assumes c: "dbCache s = Some c" and q: "\<forall>n. \<not> quota_at s n"
  shows "\<exists>s' as'. sale_item it ps s = (Inr (sold it ps), s')
           \<and> dbCache s' = Some (c\<lparr>d_alerts := as'\<rparr>) \<and> quota_at s' = quota_at s"
proof (cases "find_product it ps")
  case None
  then show ?thesis
    using c by (intro exI [of _ "console_put (Console_warn ''Product not found for sale item'') s"]
        exI [of _ "d_alerts c"]) (simp add: sale_item_missing sold_def console_put_def)
next
  case (Some k)
  then show ?thesis
    using sale_item_healthy [OF c q Some] by (auto simp: sold_def)
qed

lemma sale_loop_healthy:
  assumes "dbCache s = Some c" and "\<forall>n. \<not> quota_at s n"
  shows "\<exists>s' as'. sale_loop items ps s = (Inr (foldl (\<lambda>ps i. sold i ps) ps items), s')
           \<and> dbCache s' = Some (c\<lparr>d_alerts := as'\<rparr>) \<and> quota_at s' = quota_at s"
  using assms
proof (induction items arbitrary: ps s c)
  case Nil
  then show ?case
    by (intro exI [of _ s] exI [of _ "d_alerts c"]) simp
next
  case (Cons it rest)
  obtain s1 as1 where st: "sale_item it ps s = (Inr (sold it ps), s1)"
    and c1: "dbCache s1 = Some (c\<lparr>d_alerts := as1\<rparr>)" and q1: "quota_at s1 = quota_at s"
    using sale_item_sold [OF Cons.prems] by blast
  have qq: "\<forall>n. \<not> quota_at s1 n"
    using Cons.prems(2) q1 by simp
  obtain s' as' where l: "sale_loop rest (sold it ps) s1
        = (Inr (foldl (\<lambda>ps i. sold i ps) (sold it ps) rest), s')"
    and c': "dbCache s' = Some (c\<lparr>d_alerts := as1, d_alerts := as'\<rparr>)"
    and q': "quota_at s' = quota_at s1"
    using Cons.IH [OF c1 qq] by blast
  show ?case
    using st l c' q' q1 by (intro exI [of _ s'] exI [of _ as']) simp
qed

lemma applySale_healthy:
  assumes c: "dbCache s = Some db" and q: "\<forall>n. \<not> quota_at s n"
    and i: "s_items sale = Some items"
  shows "\<exists>s' c d. applyStockChangesFromSale sale s = (Inr (), s')
           \<and> dbCache s' = Some c \<and> localStorage s' = Some (Encodes d)
           \<and> d_products c = Some (foldl (\<lambda>ps i. sold i ps) (coll (d_products db)) items)
           \<and> d_products d = Some (foldl (\<lambda>ps i. sold i ps) (coll (d_products db)) items)"
proof -
  obtain s2 as2 where l: "sale_loop items (coll (d_products db)) s
        = (Inr (foldl (\<lambda>ps i. sold i ps) (coll (d_products db)) items), s2)"
    and c2: "dbCache s2 = Some (db\<lparr>d_alerts := as2\<rparr>)" and q2: "quota_at s2 = quota_at s"
    using sale_loop_healthy [OF c q] by blast
  have qq: "\<forall>n. \<not> quota_at s2 n"
    using q q2 by simp
  show ?thesis
    using i l
    by (simp add: applyStockChangesFromSale_def getCollection_cached [OF c]
        saveCollection_healthy [OF c2 qq] put_products_def set_updatedAt_def)
qed

section \<open>Properties\<close>

subsection \<open>Sales and alerts\<close>

text \<open>
  C1. Whatever \<open>addSale\<close> does (it may fail, and its reconciliation may fail on the way),
  it keeps the invariant that the cache and localStorage hold at most one unresolved alert
  for each product identifier. And in a state with a cached document and a localStorage
  that accepts writes: when the product a one-item sale of 4 boxes refers to has 5 boxes,
  \<open>minStock = 2\<close> and no unresolved alert, the sale leaves it with 1 box and exactly one
  unresolved alert, and a further one-item sale of 1 box leaves it with 0 boxes and still
  exactly one unresolved alert.
\<close>

theorem sale_alert_once:
  "(one_alert_inv s \<longrightarrow> one_alert_inv (snd (addSale sd s)))
   \<and> (dbCache s = Some c \<and> (\<forall>n. \<not> quota_at s n)
      \<and> find_product it4 (coll (d_products c)) = Some k
      \<and> p_minStock (coll (d_products c) ! k) = Some 2
      \<and> (\<exists>cs. p_currentStock (coll (d_products c) ! k) = Some cs \<and> boxes cs = Some 5)
      \<and> filter (unresolved_for pid) (coll (d_alerts c)) = []
      \<and> i_productId it4 = Some pid \<and> i_quantity it4 = Some 4
      \<and> (item_unit it4 = ''box'' \<or> item_unit it4 = ''boxes'')
      \<and> i_productId it1 = Some pid \<and> i_quantity it1 = Some 1
      \<and> (item_unit it1 = ''box'' \<or> item_unit it1 = ''boxes'')
      \<and> sd_items sd4 = Some (Some [it4]) \<and> sd_items sd1 = Some (Some [it1])
     \<longrightarrow> (\<exists>sale4 s4 c4 sale1 s1 c1.
            addSale sd4 s = (Inr sale4, s4) \<and> dbCache s4 = Some c4
          \<and> (\<exists>cs. p_currentStock (coll (d_products c4) ! k) = Some cs \<and> boxes cs = Some 1)
          \<and> length (filter (unresolved_for pid) (coll (d_alerts c4))) = 1
          \<and> addSale sd1 s4 = (Inr sale1, s1) \<and> dbCache s1 = Some c1
          \<and> (\<exists>cs. p_currentStock (coll (d_products c1) ! k) = Some cs \<and> boxes cs = Some 0)
          \<and> length (filter (unresolved_for pid) (coll (d_alerts c1))) = 1))"
proof (intro conjI impI)
  assume "one_alert_inv s"
  then show "one_alert_inv (snd (addSale sd s))"
    using inv_addSale [of s sd "fst (addSale sd s)" "snd (addSale sd s)"] by simp
next
  assume h: "dbCache s = Some c \<and> (\<forall>n. \<not> quota_at s n)
      \<and> find_product it4 (coll (d_products c)) = Some k
      \<and> p_minStock (coll (d_products c) ! k) = Some 2
      \<and> (\<exists>cs. p_currentStock (coll (d_products c) ! k) = Some cs \<and> boxes cs = Some 5)
      \<and> filter (unresolved_for pid) (coll (d_alerts c)) = []
      \<and> i_productId it4 = Some pid \<and> i_quantity it4 = Some 4
      \<and> (item_unit it4 = ''box'' \<or> item_unit it4 = ''boxes'')
      \<and> i_productId it1 = Some pid \<and> i_quantity it1 = Some 1
      \<and> (item_unit it1 = ''box'' \<or> item_unit it1 = ''boxes'')
      \<and> sd_items sd4 = Some (Some [it4]) \<and> sd_items sd1 = Some (Some [it1])"
  define ps where "ps = coll (d_products c)"
  define p where "p = ps ! k"
  define as where "as = coll (d_alerts c)"
  from h obtain cs0 where c: "dbCache s = Some c" and q: "\<forall>n. \<not> quota_at s n"
    and f4: "find_product it4 ps = Some k" and m: "p_minStock p = Some 2"
    and cs0: "p_currentStock p = Some cs0" "boxes cs0 = Some 5"
    and none: "filter (unresolved_for pid) as = []"
    and i4: "i_productId it4 = Some pid" "i_quantity it4 = Some 4"
      "item_unit it4 = ''box'' \<or> item_unit it4 = ''boxes''"
    and i1: "i_productId it1 = Some pid" "i_quantity it1 = Some 1"
      "item_unit it1 = ''box'' \<or> item_unit it1 = ''boxes''"
    and sd: "sd_items sd4 = Some (Some [it4])" "sd_items sd1 = Some (Some [it1])"
    unfolding ps_def p_def as_def by blast
  have k: "k < length ps" and pid: "p_id p = pid"
    using find_product_Some [OF f4] i4(1) by (simp_all add: p_def)
  define cs1 where "cs1 = stock_after_sale it4 p"
  define p1 where "p1 = p\<lparr>p_currentStock := Some cs1\<rparr>"
  define ps1 where "ps1 = ps[k := p1]"
  have b1: "boxes cs1 = Some 1"
    using stock_after_sale_boxes [OF i4(3) i4(2) cs0] by (simp add: cs1_def)
  have low1: "low_stock (num_or0 (p_minStock p)) cs1"
    by (simp add: low_stock_def m b1 num_or0_def)
  obtain sale4 s4 as4 where a4: "addSale sd4 s = (Inr sale4, s4)" and q4: "\<forall>n. \<not> quota_at s4 n"
    and c4: "dbCache s4 =
        Some (c\<lparr>d_products := Some ps1, d_sales := Some (coll (d_sales c) @ [sale4]),
                d_alerts := as4\<rparr>)"
    and al4: "\<exists>a. as4 = Some (as @ [a]) \<and> unresolved_for pid a"
    using addSale_single [OF c q sd(1) f4 [unfolded ps_def]] low1 none
    unfolding ps_def [symmetric] p_def [symmetric] as_def [symmetric] cs1_def [symmetric]
      p1_def [symmetric] ps1_def [symmetric] pid find_unresolved_None
    by auto
  define c4 where "c4 = c\<lparr>d_products := Some ps1, d_sales := Some (coll (d_sales c) @ [sale4]),
                d_alerts := as4\<rparr>"
  obtain a where as4: "as4 = Some (as @ [a])" and una: "unresolved_for pid a"
    using al4 by blast
  have pc4: "coll (d_products c4) = ps1" and ac4: "coll (d_alerts c4) = as @ [a]"
    by (simp_all add: c4_def coll_def as4)
  have n4: "length (filter (unresolved_for pid) (coll (d_alerts c4))) = 1"
    using none una by (simp add: ac4)
  have pk: "ps1 ! k = p1"
    using k by (simp add: ps1_def)
  have st4: "\<exists>cs. p_currentStock (coll (d_products c4) ! k) = Some cs \<and> boxes cs = Some 1"
    by (simp add: pc4 pk p1_def b1)
  have f1: "find_product it1 (coll (d_products c4)) = Some k"
  proof -
    have "map p_id ps1 = map p_id ps"
      by (simp add: ps1_def p1_def p_def)
    then have "find_product it1 ps1 = find_product it1 ps"
      by (rule find_product_ids)
    also have "\<dots> = find_product it4 ps"
      by (simp add: find_product_def i1(1) i4(1))
    finally show ?thesis
      using f4 pc4 by simp
  qed
  define cs2 where "cs2 = stock_after_sale it1 p1"
  have b2: "boxes cs2 = Some 0"
    using stock_after_sale_boxes [OF i1(3) i1(2), of p1 cs1 1] b1
    by (simp add: cs2_def p1_def)
  have found: "find (unresolved_for (p_id p1)) (as @ [a]) \<noteq> None"
    using una pid by (auto simp: find_None_iff p1_def)
  obtain sale1 s1 as1 where a1: "addSale sd1 s4 = (Inr sale1, s1)"
    and c1: "dbCache s1 =
        Some (c4\<lparr>d_products := Some (ps1[k := p1\<lparr>p_currentStock := Some cs2\<rparr>]),
                 d_sales := Some (coll (d_sales c4) @ [sale1]), d_alerts := as1\<rparr>)"
    and al1: "as1 = d_alerts c4"
    using addSale_single [OF c4 [folded c4_def] q4 sd(2) f1] found
    unfolding pc4 ac4 pk cs2_def [symmetric]
    by (auto split: if_splits)
  define c1 where "c1 = c4\<lparr>d_products := Some (ps1[k := p1\<lparr>p_currentStock := Some cs2\<rparr>]),
                 d_sales := Some (coll (d_sales c4) @ [sale1]), d_alerts := as1\<rparr>"
  have n1: "length (filter (unresolved_for pid) (coll (d_alerts c1))) = 1"
    using n4 by (simp add: c1_def al1)
  have st1: "\<exists>cs. p_currentStock (coll (d_products c1) ! k) = Some cs \<and> boxes cs = Some 0"
    using k by (simp add: c1_def coll_def ps1_def b2)
  show "\<exists>sale4 s4 c4 sale1 s1 c1.
            addSale sd4 s = (Inr sale4, s4) \<and> dbCache s4 = Some c4
          \<and> (\<exists>cs. p_currentStock (coll (d_products c4) ! k) = Some cs \<and> boxes cs = Some 1)
          \<and> length (filter (unresolved_for pid) (coll (d_alerts c4))) = 1
          \<and> addSale sd1 s4 = (Inr sale1, s1) \<and> dbCache s1 = Some c1
          \<and> (\<exists>cs. p_currentStock (coll (d_products c1) ! k) = Some cs \<and> boxes cs = Some 0)
          \<and> length (filter (unresolved_for pid) (coll (d_alerts c1))) = 1"
    using a4 c4 [folded c4_def] st4 n4 a1 c1 [folded c1_def] st1 n1 by blast
qed

theorem sale_alert_once_witness:
  "one_alert_inv shop \<and> one_alert_inv (snd (addSale (sale_of [four_boxes]) shop))
   \<and> dbCache shop = Some shop_doc \<and> (\<forall>n. \<not> quota_at shop n)
   \<and> find_product four_boxes (coll (d_products shop_doc)) = Some 0
   \<and> p_minStock (coll (d_products shop_doc) ! 0) = Some 2
   \<and> (\<exists>cs. p_currentStock (coll (d_products shop_doc) ! 0) = Some cs \<and> boxes cs = Some 5)
   \<and> filter (unresolved_for ''p1'') (coll (d_alerts shop_doc)) = []
   \<and> (\<exists>sale4 s4 c4 sale1 s1 c1.
          addSale (sale_of [four_boxes]) shop = (Inr sale4, s4) \<and> dbCache s4 = Some c4
        \<and> (\<exists>cs. p_currentStock (coll (d_products c4) ! 0) = Some cs \<and> boxes cs = Some 1)
        \<and> length (filter (unresolved_for ''p1'') (coll (d_alerts c4))) = 1
        \<and> addSale (sale_of [one_box]) s4 = (Inr sale1, s1) \<and> dbCache s1 = Some c1
        \<and> (\<exists>cs. p_currentStock (coll (d_products c1) ! 0) = Some cs \<and> boxes cs = Some 0)
        \<and> length (filter (unresolved_for ''p1'') (coll (d_alerts c1))) = 1)"
proof -
  have inv: "one_alert_inv shop"
    by (simp add: one_alert_inv_def shop_def shop_doc_def coll_def)
  have c: "dbCache shop = Some shop_doc" and q: "\<forall>n. \<not> quota_at shop n"
    by (simp_all add: shop_def)
  have ps: "coll (d_products shop_doc) = [tile]" and as: "coll (d_alerts shop_doc) = []"
    by (simp_all add: shop_doc_def coll_def)
  have f: "find_product four_boxes [tile] = Some 0"
    by (simp add: find_product_def four_boxes_def tile_def)
  have t: "p_minStock tile = Some 2"
    "\<exists>cs. p_currentStock tile = Some cs \<and> boxes cs = Some 5"
    by (simp_all add: tile_def)
  have i4: "i_productId four_boxes = Some ''p1''" "i_quantity four_boxes = Some 4"
    "item_unit four_boxes = ''box''"
    by (simp_all add: four_boxes_def item_unit_def toLowerCase_Box)
  have i1: "i_productId one_box = Some ''p1''" "i_quantity one_box = Some 1"
    "item_unit one_box = ''box''"
    by (simp_all add: one_box_def item_unit_def toLowerCase_Box)
  have sd: "sd_items (sale_of [four_boxes]) = Some (Some [four_boxes])"
    "sd_items (sale_of [one_box]) = Some (Some [one_box])"
    by (simp_all add: sale_of_def)
  show ?thesis
    using sale_alert_once [of shop "sale_of [four_boxes]" shop_doc four_boxes 0 "''p1''" one_box
        "sale_of [four_boxes]" "sale_of [one_box]"]
      inv c q f t i4 i1 sd
    by (simp add: ps as)
qed

subsection \<open>Purchases and alerts\<close>

text \<open>
  C2. In a state with a cached document and a localStorage that accepts writes, recording
  a purchase one of whose items refers to a product succeeds, and the document it leaves in
  the cache, which is also the one stored, has the alerts of before, one for one and in
  order: each is either unchanged or was unresolved and is now the same record with
  \<open>resolved = true\<close> and a \<open>resolvedAt\<close> stamp. If one of the three counters of that product
  is then at least its \<open>minStock\<close>, and \<open>minStock > 0\<close>, every alert that was unresolved for
  the product is of the second kind. When the purchase has this one item, the stock of the
  product is the stock of before with the quantity added to the counter of the unit and the
  three counters rounded.
\<close>

theorem purchase_resolves_alerts:
  assumes c: "dbCache s = Some c" and q: "\<forall>n. \<not> quota_at s n"
    and i: "pud_items pd = Some (Some items)"
    and m: "it \<in> set items" and f: "find_product it (coll (d_products c)) = Some k"
  shows "\<exists>purchase s' c'.
       addPurchase pd s = (Inr purchase, s') \<and> dbCache s' = Some c'
     \<and> (\<exists>w. localStorage s' = Some (Encodes (set_updatedAt w c')))
     \<and> p_id (coll (d_products c') ! k) = p_id (coll (d_products c) ! k)
     \<and> (items = [it] \<longrightarrow>
          coll (d_products c') =
            (coll (d_products c))
              [k := (coll (d_products c) ! k)
                 \<lparr>p_currentStock := Some (stock_after_purchase it (coll (d_products c) ! k))\<rparr>])
     \<and> length (coll (d_alerts c')) = length (coll (d_alerts c))
     \<and> (\<forall>n < length (coll (d_alerts c)).
           resolved_since (coll (d_alerts c) ! n) (coll (d_alerts c') ! n))
     \<and> (restocked (num_or0 (p_minStock (coll (d_products c') ! k)))
                   (stock_or_zero (coll (d_products c') ! k)) \<longrightarrow>
          (\<forall>n < length (coll (d_alerts c)).
             unresolved_for (p_id (coll (d_products c) ! k)) (coll (d_alerts c) ! n) \<longrightarrow>
               a_resolved (coll (d_alerts c') ! n) \<and> a_resolvedAt (coll (d_alerts c') ! n) \<noteq> None
             \<and> (coll (d_alerts c') ! n)
                  \<lparr>a_resolved := False, a_resolvedAt := a_resolvedAt (coll (d_alerts c) ! n)\<rparr>
                = coll (d_alerts c) ! n))"
proof -
  define s3 where "s3 = snd (nowISO (snd (generateId ''pur'' s)))"
  define purchase where "purchase =
    new_purchase (fst (generateId ''pur'' s)) (fst (nowISO (snd (generateId ''pur'' s)))) pd"
  define c4 where "c4 = put_purchases (coll (d_purchases c) @ [purchase]) c"
  define ps where "ps = coll (d_products c)"
  define as where "as = coll (d_alerts c)"
  define pid where "pid = p_id (ps ! k)"
  have c3: "dbCache s3 = Some c" and q3: "\<forall>n. \<not> quota_at s3 n"
    using c q by (simp_all add: s3_def nowISO_snd generateId_snd)
  obtain s4 where sv: "saveCollection put_purchases (coll (d_purchases c) @ [purchase]) s3 = (Inr True, s4)"
    and c4: "dbCache s4 = Some c4" and q4: "\<forall>n. \<not> quota_at s4 n"
    using saveCollection_healthy [OF c3 q3, of put_purchases] q3 by (simp add: c4_def)
  have it: "pu_items purchase = Some items"
    by (simp add: purchase_def new_purchase_def assign_def i)
  have ps4: "coll (d_products c4) = ps" and as4: "coll (d_alerts c4) = as"
    by (simp_all add: c4_def put_purchases_def ps_def as_def)
  obtain ps' s5 as' where
    l: "purchase_loop items ps s4 = (Inr ps', s5)"
    and c5: "dbCache s5 = Some (c4\<lparr>d_alerts := as'\<rparr>)" and q5: "quota_at s5 = quota_at s4"
    and e: "list_all2 resolved_since as (coll as')"
    and ids: "map p_id ps' = map p_id ps"
    and r: "\<forall>it \<in> set items. \<forall>k. find_product it ps = Some k \<longrightarrow>
           restocked (num_or0 (p_minStock (ps' ! k))) (stock_or_zero (ps' ! k)) \<longrightarrow>
           filter (unresolved_for (p_id (ps ! k))) (coll as') = []"
    using purchase_loop_healthy [OF c4 q4, of items ps] unfolding as4 by blast
  have q5': "\<forall>n. \<not> quota_at s5 n"
    using q4 q5 by simp
  define c6 where "c6 = put_products ps' (c4\<lparr>d_alerts := as'\<rparr>)"
  have sv6: "saveCollection put_products ps' s5 =
      (Inr True,
       s5\<lparr>localStorage := Some (Encodes (set_updatedAt (now_at s5 (now_reads s5)) c6)),
          dbCache := Some c6,
          console := console s5 @ watcher_log c6 (watchers s5),
          notified := notified s5 @ map (\<lambda>w. (w_id w, c6)) (watchers s5),
          now_reads := Suc (now_reads s5),
          set_calls := Suc (set_calls s5)\<rparr>)"
    (is "_ = (_, ?s6)")
    using saveCollection_healthy [OF c5 q5', of put_products ps'] by (simp add: c6_def)
  have ap: "applyStockChangesFromPurchase purchase s4 = (Inr (), ?s6)"
    by (simp add: applyStockChangesFromPurchase_def it getCollection_cached [OF c4] ps4 l sv6)
  have a: "addPurchase pd s = (Inr purchase, ?s6)"
    by (simp add: addPurchase_def getCollection_cached [OF c] Let_def split_def
        s3_def [symmetric] purchase_def [symmetric] sv ap)
  have p6: "coll (d_products c6) = ps'" and a6: "coll (d_alerts c6) = coll as'"
    by (simp_all add: c6_def put_products_def coll_def)
  have kl: "k < length ps"
    using find_product_Some [OF f [folded ps_def]] by simp
  have idk: "p_id (ps' ! k) = p_id (ps ! k)"
    using ids kl by (metis length_map nth_map)
  have len: "length (coll as') = length as"
    using e by (simp add: list_all2_lengthD)
  have each: "\<forall>n < length as. resolved_since (as ! n) (coll as' ! n)"
    using e by (simp add: list_all2_conv_all_nth)
  have fin: "\<forall>n < length as. unresolved_for pid (as ! n) \<longrightarrow>
               a_resolved (coll as' ! n) \<and> a_resolvedAt (coll as' ! n) \<noteq> None
             \<and> (coll as' ! n)\<lparr>a_resolved := False, a_resolvedAt := a_resolvedAt (as ! n)\<rparr> = as ! n"
    if re: "restocked (num_or0 (p_minStock (ps' ! k))) (stock_or_zero (ps' ! k))"
  proof (intro allI impI)
    fix n
    assume n: "n < length as" and un: "unresolved_for pid (as ! n)"
    have none: "filter (unresolved_for pid) (coll as') = []"
      using r m f re unfolding ps_def [symmetric] pid_def by blast
    have "coll as' ! n \<in> set (coll as')"
      using n len by simp
    then have nu: "\<not> unresolved_for pid (coll as' ! n)"
      using none by (simp add: filter_empty_conv)
    have rs: "resolved_since (as ! n) (coll as' ! n)"
      using each n by simp
    have "coll as' ! n \<noteq> as ! n"
      using nu un by auto
    then show "a_resolved (coll as' ! n) \<and> a_resolvedAt (coll as' ! n) \<noteq> None
             \<and> (coll as' ! n)\<lparr>a_resolved := False, a_resolvedAt := a_resolvedAt (as ! n)\<rparr> = as ! n"
      using rs by (simp add: resolved_since_def)
  qed
  have single: "ps' = ps[k := (ps ! k)\<lparr>p_currentStock := Some (stock_after_purchase it (ps ! k))\<rparr>]"
    if "items = [it]"
  proof -
    have "purchase_item it ps s4 = (Inr ps', s5)"
      using l that by (cases "purchase_item it ps s4") (auto split: sum.splits)
    then show ?thesis
      using purchase_item_products [OF f [folded ps_def]] by simp
  qed
  show ?thesis
    apply (intro exI [of _ purchase] exI [of _ ?s6] exI [of _ c6] conjI)
    apply (rule a)
    apply simp
    apply (rule exI [of _ "now_at s5 (now_reads s5)"])
    apply simp
    apply (simp add: p6 idk ps_def [symmetric])
    apply (simp add: p6 single ps_def [symmetric])
    apply (simp add: a6 len as_def [symmetric])
    apply (simp add: a6 each as_def [symmetric])
    apply (simp only: p6 a6 as_def [symmetric] ps_def [symmetric] pid_def [symmetric])
    apply (rule impI)
    apply (erule fin)
    done
qed

theorem purchase_resolves_alerts_witness:
  "dbCache alerted = Some alerted_doc \<and> (\<forall>n. \<not> quota_at alerted n)
   \<and> pud_items (purchase_of [five_boxes]) = Some (Some [five_boxes])
   \<and> find_product five_boxes (coll (d_products alerted_doc)) = Some 0
   \<and> coll (d_alerts alerted_doc) = [worn] \<and> unresolved_for ''p1'' worn
   \<and> (\<exists>purchase s' c'.
        addPurchase (purchase_of [five_boxes]) alerted = (Inr purchase, s') \<and> dbCache s' = Some c'
      \<and> coll (d_products c')
          = [sold_out\<lparr>p_currentStock := Some \<lparr>boxes = Some 5, pieces = Some 0, sft = Some 0\<rparr>\<rparr>]
      \<and> length (coll (d_alerts c')) = 1
      \<and> a_resolved (coll (d_alerts c') ! 0) \<and> a_resolvedAt (coll (d_alerts c') ! 0) \<noteq> None
      \<and> (coll (d_alerts c') ! 0)\<lparr>a_resolved := False, a_resolvedAt := None\<rparr> = worn)"
proof -
  have c: "dbCache alerted = Some alerted_doc" and q: "\<forall>n. \<not> quota_at alerted n"
    by (simp_all add: alerted_def shop_def)
  have i: "pud_items (purchase_of [five_boxes]) = Some (Some [five_boxes])"
    by (simp add: purchase_of_def)
  have ps: "coll (d_products alerted_doc) = [sold_out]" and as: "coll (d_alerts alerted_doc) = [worn]"
    by (simp_all add: alerted_doc_def coll_def)
  have f: "find_product five_boxes (coll (d_products alerted_doc)) = Some 0"
    by (simp add: ps find_product_def five_boxes_def sold_out_def tile_def)
  have u: "item_unit five_boxes = ''box''" and n: "item_qty five_boxes = 5"
    by (simp_all add: item_unit_def item_qty_def five_boxes_def toLowerCase_Box num_or0_def)
  have st: "stock_after_purchase five_boxes sold_out
      = \<lparr>boxes = Some 5, pieces = Some 0, sft = Some 0\<rparr>"
    by (simp add: stock_after_purchase_def u n purchase_apply_def round_stock_def
        stock_or_zero_def sold_out_def num_or0_def)
  have w: "unresolved_for ''p1'' worn" "a_resolvedAt worn = None"
    by (simp_all add: unresolved_for_def worn_def)
  have pid: "p_id sold_out = ''p1''" and ms: "p_minStock sold_out = Some 2"
    by (simp_all add: sold_out_def tile_def)
  have m: "five_boxes \<in> set [five_boxes]"
    by simp
  have rs: "restocked 2 \<lparr>boxes = Some 5, pieces = Some 0, sft = Some 0\<rparr>"
    by (simp add: restocked_def num_or0_def)
  show ?thesis
    using purchase_resolves_alerts [OF c q i m f] c q i f w
    apply (elim exE conjE)
    apply (simp add: ps as pid st ms stock_or_zero_def num_or0_def rs)
    done
qed

subsection \<open>The record comes first\<close>

text \<open>
  C3. When the sale has been saved (\<open>_saveCollection('sales', list)\<close> returned) and the
  reconciliation that follows raises an error, \<open>addSale\<close> returns the sale it created, in the
  state the reconciliation left with one console warning added, and in that state the cache
  and localStorage both hold the sales collection that was saved, the new sale last. The
  same holds of \<open>addPurchase\<close> and the purchases collection.
\<close>

theorem record_first:
  "(getCollection d_sales s = (Inr list, s1) \<and> generateId ''sale'' s1 = (gid, s2)
      \<and> nowISO s2 = (t, s3)
      \<and> saveCollection put_sales (list @ [new_sale gid t sd]) s3 = (Inr b, s4)
      \<and> applyStockChangesFromSale (new_sale gid t sd) s4 = (Inl e, s5)
     \<longrightarrow> addSale sd s
           = (Inr (new_sale gid t sd), console_put (Console_warn ''Stock update after sale failed:'') s5)
       \<and> (\<exists>c d. dbCache (snd (addSale sd s)) = Some c
              \<and> localStorage (snd (addSale sd s)) = Some (Encodes d)
              \<and> d_sales c = Some (list @ [new_sale gid t sd])
              \<and> d_sales d = Some (list @ [new_sale gid t sd])))
   \<and> (getCollection d_purchases z = (Inr plist, z1) \<and> generateId ''pur'' z1 = (pid, z2)
      \<and> nowISO z2 = (u, z3)
      \<and> saveCollection put_purchases (plist @ [new_purchase pid u pd]) z3 = (Inr pb, z4)
      \<and> applyStockChangesFromPurchase (new_purchase pid u pd) z4 = (Inl pe, z5)
     \<longrightarrow> addPurchase pd z
           = (Inr (new_purchase pid u pd),
              console_put (Console_warn ''Stock update after purchase failed:'') z5)
       \<and> (\<exists>c d. dbCache (snd (addPurchase pd z)) = Some c
              \<and> localStorage (snd (addPurchase pd z)) = Some (Encodes d)
              \<and> d_purchases c = Some (plist @ [new_purchase pid u pd])
              \<and> d_purchases d = Some (plist @ [new_purchase pid u pd])))"
proof (intro conjI impI)
  assume h: "getCollection d_sales s = (Inr list, s1) \<and> generateId ''sale'' s1 = (gid, s2)
      \<and> nowISO s2 = (t, s3)
      \<and> saveCollection put_sales (list @ [new_sale gid t sd]) s3 = (Inr b, s4)
      \<and> applyStockChangesFromSale (new_sale gid t sd) s4 = (Inl e, s5)"
  then show a: "addSale sd s
      = (Inr (new_sale gid t sd), console_put (Console_warn ''Stock update after sale failed:'') s5)"
    by (simp add: addSale_def)
  obtain db w where "dbCache s4 = Some (put_sales (list @ [new_sale gid t sd]) db)"
    "localStorage s4 = Some (Encodes (set_updatedAt w (put_sales (list @ [new_sale gid t sd]) db)))"
    using saveCollection_InrE h by blast
  then have "recorded (Some (list @ [new_sale gid t sd])) (d_purchases db) s4"
    by (simp add: recorded_def put_sales_def set_updatedAt_def)
  then have "recorded (Some (list @ [new_sale gid t sd])) (d_purchases db) s5"
    using recorded_applyStockChangesFromSale h by blast
  then show "\<exists>c d. dbCache (snd (addSale sd s)) = Some c
              \<and> localStorage (snd (addSale sd s)) = Some (Encodes d)
              \<and> d_sales c = Some (list @ [new_sale gid t sd])
              \<and> d_sales d = Some (list @ [new_sale gid t sd])"
    unfolding a by (auto simp: recorded_def console_put_def)
next
  assume h: "getCollection d_purchases z = (Inr plist, z1) \<and> generateId ''pur'' z1 = (pid, z2)
      \<and> nowISO z2 = (u, z3)
      \<and> saveCollection put_purchases (plist @ [new_purchase pid u pd]) z3 = (Inr pb, z4)
      \<and> applyStockChangesFromPurchase (new_purchase pid u pd) z4 = (Inl pe, z5)"
  then show a: "addPurchase pd z
      = (Inr (new_purchase pid u pd), console_put (Console_warn ''Stock update after purchase failed:'') z5)"
    by (simp add: addPurchase_def)
  obtain db w where "dbCache z4 = Some (put_purchases (plist @ [new_purchase pid u pd]) db)"
    "localStorage z4 =
       Some (Encodes (set_updatedAt w (put_purchases (plist @ [new_purchase pid u pd]) db)))"
    using saveCollection_InrE h by blast
  then have "recorded (d_sales db) (Some (plist @ [new_purchase pid u pd])) z4"
    by (simp add: recorded_def put_purchases_def set_updatedAt_def)
  then have "recorded (d_sales db) (Some (plist @ [new_purchase pid u pd])) z5"
    using recorded_applyStockChangesFromPurchase h by blast
  then show "\<exists>c d. dbCache (snd (addPurchase pd z)) = Some c
              \<and> localStorage (snd (addPurchase pd z)) = Some (Encodes d)
              \<and> d_purchases c = Some (plist @ [new_purchase pid u pd])
              \<and> d_purchases d = Some (plist @ [new_purchase pid u pd])"
    unfolding a by (auto simp: recorded_def console_put_def)
qed

theorem record_first_witness:
  "(\<exists>gid s2 t s3 s4 s5.
      getCollection d_sales cramped = (Inr [], cramped) \<and> generateId ''sale'' cramped = (gid, s2)
      \<and> nowISO s2 = (t, s3)
      \<and> saveCollection put_sales ([] @ [new_sale gid t (sale_of [four_boxes])]) s3 = (Inr True, s4)
      \<and> applyStockChangesFromSale (new_sale gid t (sale_of [four_boxes])) s4
          = (Inl QuotaExceededError, s5)
      \<and> addSale (sale_of [four_boxes]) cramped
          = (Inr (new_sale gid t (sale_of [four_boxes])),
             console_put (Console_warn ''Stock update after sale failed:'') s5)
      \<and> (\<exists>c d. dbCache (snd (addSale (sale_of [four_boxes]) cramped)) = Some c
             \<and> localStorage (snd (addSale (sale_of [four_boxes]) cramped)) = Some (Encodes d)
             \<and> d_sales c = Some [new_sale gid t (sale_of [four_boxes])]
             \<and> d_sales d = Some [new_sale gid t (sale_of [four_boxes])]))
   \<and> (\<exists>pid z2 u z3 z4 z5.
      getCollection d_purchases cramped = (Inr [], cramped) \<and> generateId ''pur'' cramped = (pid, z2)
      \<and> nowISO z2 = (u, z3)
      \<and> saveCollection put_purchases ([] @ [new_purchase pid u (purchase_of [five_boxes])]) z3
          = (Inr True, z4)
      \<and> applyStockChangesFromPurchase (new_purchase pid u (purchase_of [five_boxes])) z4
          = (Inl QuotaExceededError, z5)
      \<and> addPurchase (purchase_of [five_boxes]) cramped
          = (Inr (new_purchase pid u (purchase_of [five_boxes])),
             console_put (Console_warn ''Stock update after purchase failed:'') z5)
      \<and> (\<exists>c d. dbCache (snd (addPurchase (purchase_of [five_boxes]) cramped)) = Some c
             \<and> localStorage (snd (addPurchase (purchase_of [five_boxes]) cramped)) = Some (Encodes d)
             \<and> d_purchases c = Some [new_purchase pid u (purchase_of [five_boxes])]
             \<and> d_purchases d = Some [new_purchase pid u (purchase_of [five_boxes])]))"
proof (intro conjI)
  have c: "dbCache cramped = Some shop_doc"
    by (simp add: cramped_def shop_def)
  have ps: "coll (d_products shop_doc) = [tile]" and as: "coll (d_alerts shop_doc) = []"
    and ss: "coll (d_sales shop_doc) = []" and us: "coll (d_purchases shop_doc) = []"
    by (simp_all add: shop_doc_def coll_def)
  have g: "getCollection d_sales cramped = (Inr [], cramped)"
    by (simp add: getCollection_cached [OF c] ss)
  define gid where "gid = fst (generateId ''sale'' cramped)"
  define s2 where "s2 = snd (generateId ''sale'' cramped)"
  define t where "t = fst (nowISO s2)"
  define s3 where "s3 = snd (nowISO s2)"
  define sale where "sale = new_sale gid t (sale_of [four_boxes])"
  have c3: "dbCache s3 = Some shop_doc" and q3: "\<not> quota_at s3 (set_calls s3)"
    by (simp_all add: s3_def s2_def nowISO_snd generateId_snd cramped_def shop_def)
  define s4 where "s4 = snd (saveDB (put_sales [sale] shop_doc) s3)"
  have sv: "saveCollection put_sales ([] @ [sale]) s3 = (Inr True, s4)"
    by (simp add: saveCollection_cached [OF c3] saveDB_ok [OF q3] s4_def)
  have c4: "dbCache s4 = Some (put_sales [sale] shop_doc)" and q4: "quota_at s4 (set_calls s4)"
    by (simp_all add: s4_def saveDB_ok [OF q3])
      (simp add: s3_def s2_def nowISO_snd generateId_snd cramped_def shop_def)
  have it: "s_items sale = Some [four_boxes]"
    by (simp add: sale_def new_sale_def sale_of_def assign_def)
  have f: "find_product four_boxes [tile] = Some 0"
    by (simp add: find_product_def four_boxes_def tile_def)
  have u: "item_unit four_boxes = ''box''" and n: "i_quantity four_boxes = Some 4"
    by (simp_all add: item_unit_def four_boxes_def toLowerCase_Box)
  have b: "boxes (stock_after_sale four_boxes tile) = Some 1"
    using stock_after_sale_boxes [of four_boxes 4 tile _ 5] u n by (simp add: tile_def)
  have ms: "p_minStock tile = Some 2"
    by (simp add: tile_def)
  have low: "low_stock (num_or0 (p_minStock tile)) (stock_after_sale four_boxes tile)"
    by (simp add: low_stock_def b num_or0_def ms)
  obtain s5 where ap: "applyStockChangesFromSale sale s4 = (Inl QuotaExceededError, s5)"
    using applySale_quota [OF c4 it, of 0] f low q4
    by (auto simp: put_sales_def ps as coll_def shop_doc_def)
  have hyp: "getCollection d_sales cramped = (Inr [], cramped)
      \<and> generateId ''sale'' cramped = (gid, s2) \<and> nowISO s2 = (t, s3)
      \<and> saveCollection put_sales ([] @ [new_sale gid t (sale_of [four_boxes])]) s3 = (Inr True, s4)
      \<and> applyStockChangesFromSale (new_sale gid t (sale_of [four_boxes])) s4
          = (Inl QuotaExceededError, s5)"
    using g sv ap by (simp add: gid_def s2_def t_def s3_def sale_def)
  have res: "addSale (sale_of [four_boxes]) cramped
          = (Inr (new_sale gid t (sale_of [four_boxes])),
             console_put (Console_warn ''Stock update after sale failed:'') s5)
      \<and> (\<exists>c d. dbCache (snd (addSale (sale_of [four_boxes]) cramped)) = Some c
             \<and> localStorage (snd (addSale (sale_of [four_boxes]) cramped)) = Some (Encodes d)
             \<and> d_sales c = Some ([] @ [new_sale gid t (sale_of [four_boxes])])
             \<and> d_sales d = Some ([] @ [new_sale gid t (sale_of [four_boxes])]))"
    using record_first [THEN conjunct1, THEN mp, OF hyp] .
  show "\<exists>gid s2 t s3 s4 s5.
      getCollection d_sales cramped = (Inr [], cramped) \<and> generateId ''sale'' cramped = (gid, s2)
      \<and> nowISO s2 = (t, s3)
      \<and> saveCollection put_sales ([] @ [new_sale gid t (sale_of [four_boxes])]) s3 = (Inr True, s4)
      \<and> applyStockChangesFromSale (new_sale gid t (sale_of [four_boxes])) s4
          = (Inl QuotaExceededError, s5)
      \<and> addSale (sale_of [four_boxes]) cramped
          = (Inr (new_sale gid t (sale_of [four_boxes])),
             console_put (Console_warn ''Stock update after sale failed:'') s5)
      \<and> (\<exists>c d. dbCache (snd (addSale (sale_of [four_boxes]) cramped)) = Some c
             \<and> localStorage (snd (addSale (sale_of [four_boxes]) cramped)) = Some (Encodes d)
             \<and> d_sales c = Some [new_sale gid t (sale_of [four_boxes])]
             \<and> d_sales d = Some [new_sale gid t (sale_of [four_boxes])])"
    using hyp res
    by (rule_tac x = gid in exI, rule_tac x = s2 in exI, rule_tac x = t in exI,
        rule_tac x = s3 in exI, rule_tac x = s4 in exI, rule_tac x = s5 in exI) simp
  have gp: "getCollection d_purchases cramped = (Inr [], cramped)"
    by (simp add: getCollection_cached [OF c] us)
  define pid where "pid = fst (generateId ''pur'' cramped)"
  define z2 where "z2 = snd (generateId ''pur'' cramped)"
  define w where "w = fst (nowISO z2)"
  define z3 where "z3 = snd (nowISO z2)"
  define pur where "pur = new_purchase pid w (purchase_of [five_boxes])"
  have d3: "dbCache z3 = Some shop_doc" and r3: "\<not> quota_at z3 (set_calls z3)"
    by (simp_all add: z3_def z2_def nowISO_snd generateId_snd cramped_def shop_def)
  define z4 where "z4 = snd (saveDB (put_purchases [pur] shop_doc) z3)"
  have svp: "saveCollection put_purchases ([] @ [pur]) z3 = (Inr True, z4)"
    by (simp add: saveCollection_cached [OF d3] saveDB_ok [OF r3] z4_def)
  have d4: "dbCache z4 = Some (put_purchases [pur] shop_doc)" and r4: "quota_at z4 (set_calls z4)"
    by (simp_all add: z4_def saveDB_ok [OF r3])
      (simp add: z3_def z2_def nowISO_snd generateId_snd cramped_def shop_def)
  have itp: "pu_items pur = Some [five_boxes]"
    by (simp add: pur_def new_purchase_def purchase_of_def assign_def)
  have fp: "find_product five_boxes [tile] = Some 0"
    by (simp add: find_product_def five_boxes_def tile_def)
  obtain z5 where app: "applyStockChangesFromPurchase pur z4 = (Inl QuotaExceededError, z5)"
    using applyPurchase_quota [OF d4 itp, of 0] fp r4
    by (auto simp: put_purchases_def ps as coll_def shop_doc_def)
  have hyp2: "getCollection d_purchases cramped = (Inr [], cramped)
      \<and> generateId ''pur'' cramped = (pid, z2) \<and> nowISO z2 = (w, z3)
      \<and> saveCollection put_purchases ([] @ [new_purchase pid w (purchase_of [five_boxes])]) z3
          = (Inr True, z4)
      \<and> applyStockChangesFromPurchase (new_purchase pid w (purchase_of [five_boxes])) z4
          = (Inl QuotaExceededError, z5)"
    using gp svp app by (simp add: pid_def z2_def w_def z3_def pur_def)
  have res2: "addPurchase (purchase_of [five_boxes]) cramped
          = (Inr (new_purchase pid w (purchase_of [five_boxes])),
             console_put (Console_warn ''Stock update after purchase failed:'') z5)
      \<and> (\<exists>c d. dbCache (snd (addPurchase (purchase_of [five_boxes]) cramped)) = Some c
             \<and> localStorage (snd (addPurchase (purchase_of [five_boxes]) cramped)) = Some (Encodes d)
             \<and> d_purchases c = Some ([] @ [new_purchase pid w (purchase_of [five_boxes])])
             \<and> d_purchases d = Some ([] @ [new_purchase pid w (purchase_of [five_boxes])]))"
    using record_first [THEN conjunct2, THEN mp, OF hyp2] .
  show "\<exists>pid z2 u z3 z4 z5.
      getCollection d_purchases cramped = (Inr [], cramped) \<and> generateId ''pur'' cramped = (pid, z2)
      \<and> nowISO z2 = (u, z3)
      \<and> saveCollection put_purchases ([] @ [new_purchase pid u (purchase_of [five_boxes])]) z3
          = (Inr True, z4)
      \<and> applyStockChangesFromPurchase (new_purchase pid u (purchase_of [five_boxes])) z4
          = (Inl QuotaExceededError, z5)
      \<and> addPurchase (purchase_of [five_boxes]) cramped
          = (Inr (new_purchase pid u (purchase_of [five_boxes])),
             console_put (Console_warn ''Stock update after purchase failed:'') z5)
      \<and> (\<exists>c d. dbCache (snd (addPurchase (purchase_of [five_boxes]) cramped)) = Some c
             \<and> localStorage (snd (addPurchase (purchase_of [five_boxes]) cramped)) = Some (Encodes d)
             \<and> d_purchases c = Some [new_purchase pid u (purchase_of [five_boxes])]
             \<and> d_purchases d = Some [new_purchase pid u (purchase_of [five_boxes])])"
    using hyp2 res2
    by (rule_tac x = pid in exI, rule_tac x = z2 in exI, rule_tac x = w in exI,
        rule_tac x = z3 in exI, rule_tac x = z4 in exI, rule_tac x = z5 in exI) simp
qed

subsection \<open>Unit types of line items\<close>

text \<open>
  C4, as amended. In both reconciliations the unit type of a line item is lower-cased (a
  missing one is the empty string, and lower-casing twice changes nothing) and compared as
  it is, without trimming. \<open>box\<close> and \<open>boxes\<close> select the boxes counter, \<open>piece\<close> and
  \<open>pieces\<close> the pieces counter, \<open>sft\<close>, \<open>squarefeet\<close> and \<open>square feet\<close> the sft counter;
  every other string except \<open>s.f.t\<close>, \<open>sqft\<close> among them, selects the pieces counter. A
  sale subtracts the quantity from the counter selected and a purchase adds it; the three
  counters are then rounded, and the result is the stock of the product found.
\<close>

theorem unit_type_matching:
  "(item_unit it = toLowerCase (case i_unitType it of None \<Rightarrow> '''' | Some u \<Rightarrow> u))
   \<and> toLowerCase (toLowerCase u) = toLowerCase u
   \<and> (item_unit it = ''box'' \<or> item_unit it = ''boxes'' \<longrightarrow>
        stock_after_sale it p =
          round_stock ((stock_or_zero p)\<lparr>boxes := Some (num_or0 (boxes (stock_or_zero p)) - item_qty it)\<rparr>)
      \<and> stock_after_purchase it p =
          round_stock ((stock_or_zero p)\<lparr>boxes := Some (num_or0 (boxes (stock_or_zero p)) + item_qty it)\<rparr>))
   \<and> (item_unit it = ''piece'' \<or> item_unit it = ''pieces'' \<longrightarrow>
        stock_after_sale it p =
          round_stock ((stock_or_zero p)\<lparr>pieces := Some (num_or0 (pieces (stock_or_zero p)) - item_qty it)\<rparr>)
      \<and> stock_after_purchase it p =
          round_stock ((stock_or_zero p)\<lparr>pieces := Some (num_or0 (pieces (stock_or_zero p)) + item_qty it)\<rparr>))
   \<and> (item_unit it = ''sft'' \<or> item_unit it = ''squarefeet'' \<or> item_unit it = ''square feet'' \<longrightarrow>
        stock_after_sale it p =
          round_stock ((stock_or_zero p)\<lparr>sft := Some (num_or0 (sft (stock_or_zero p)) - item_qty it)\<rparr>)
      \<and> stock_after_purchase it p =
          round_stock ((stock_or_zero p)\<lparr>sft := Some (num_or0 (sft (stock_or_zero p)) + item_qty it)\<rparr>))
   \<and> (item_unit it \<noteq> ''box'' \<and> item_unit it \<noteq> ''boxes'' \<and> item_unit it \<noteq> ''sft''
        \<and> item_unit it \<noteq> ''s.f.t'' \<and> item_unit it \<noteq> ''squarefeet''
        \<and> item_unit it \<noteq> ''square feet'' \<longrightarrow>
        stock_after_sale it p =
          round_stock ((stock_or_zero p)\<lparr>pieces := Some (num_or0 (pieces (stock_or_zero p)) - item_qty it)\<rparr>)
      \<and> stock_after_purchase it p =
          round_stock ((stock_or_zero p)\<lparr>pieces := Some (num_or0 (pieces (stock_or_zero p)) + item_qty it)\<rparr>))
   \<and> (find_product it ps = Some k \<and> sale_item it ps s = (Inr ps', s') \<longrightarrow>
        ps' = ps[k := (ps ! k)\<lparr>p_currentStock := Some (stock_after_sale it (ps ! k))\<rparr>])
   \<and> (find_product it ps = Some k \<and> purchase_item it ps s = (Inr ps', s') \<longrightarrow>
        ps' = ps[k := (ps ! k)\<lparr>p_currentStock := Some (stock_after_purchase it (ps ! k))\<rparr>])"
proof -
  have a: "stock_after_sale it p = round_stock (sale_apply (item_unit it) (item_qty it) (stock_or_zero p))"
    "stock_after_purchase it p = round_stock (purchase_apply (item_unit it) (item_qty it) (stock_or_zero p))"
    by (simp_all add: stock_after_sale_def stock_after_purchase_def)
  show ?thesis
    unfolding a
    apply (intro conjI impI)
    apply (simp add: item_unit_def)
    apply (rule toLowerCase_idem)
    apply (auto simp: sale_apply_def purchase_apply_def dest: sale_item_products purchase_item_products)
    done
qed

text \<open>
  C4 as stated fails for \<open>sqft\<close>, which only \<open>normalizeUnitName\<close> of the utilities
  recognises: a sale of 1 \<open>sqft\<close> of a product with stock 5/0/0 leaves 5/-1/0, the sft
  counter untouched, and a purchase leaves 5/1/0.
\<close>

theorem sqft_counterexample:
  "item_unit sqft_item = ''sqft''
   \<and> p_currentStock tile = Some \<lparr>boxes = Some 5, pieces = Some 0, sft = Some 0\<rparr>
   \<and> stock_after_sale sqft_item tile = \<lparr>boxes = Some 5, pieces = Some (- 1), sft = Some 0\<rparr>
   \<and> stock_after_purchase sqft_item tile = \<lparr>boxes = Some 5, pieces = Some 1, sft = Some 0\<rparr>
   \<and> fst (sale_item sqft_item [tile] shop)
       = Inr [tile\<lparr>p_currentStock := Some \<lparr>boxes = Some 5, pieces = Some (- 1), sft = Some 0\<rparr>\<rparr>]
   \<and> normalizeUnitName (Some ''sqft'') = ''sft''"
proof -
  have u: "item_unit sqft_item = ''sqft''"
    by (simp add: item_unit_def sqft_item_def toLowerCase_def lower_char_def)
  have r: "round3 (Some (- 1)) = - 1"
    using round3_of_int [of "- 1"] by simp
  have n1: "item_qty sqft_item = 1"
    by (simp add: item_qty_def sqft_item_def num_or0_def)
  have s: "stock_after_sale sqft_item tile = \<lparr>boxes = Some 5, pieces = Some (- 1), sft = Some 0\<rparr>"
    by (simp add: stock_after_sale_def u n1 sale_apply_def round_stock_def stock_or_zero_def
        tile_def num_or0_def r)
  have p: "stock_after_purchase sqft_item tile = \<lparr>boxes = Some 5, pieces = Some 1, sft = Some 0\<rparr>"
    by (simp add: stock_after_purchase_def u n1 purchase_apply_def round_stock_def
        stock_or_zero_def tile_def num_or0_def)
  have f: "find_product sqft_item [tile] = Some 0"
    by (simp add: find_product_def sqft_item_def tile_def)
  have c: "dbCache shop = Some shop_doc" and q: "\<forall>n. \<not> quota_at shop n"
    by (simp_all add: shop_def)
  have i: "fst (sale_item sqft_item [tile] shop)
       = Inr [tile\<lparr>p_currentStock := Some \<lparr>boxes = Some 5, pieces = Some (- 1), sft = Some 0\<rparr>\<rparr>]"
    using sale_item_healthy [OF c q f] by (auto simp: s)
  have n: "normalizeUnitName (Some ''sqft'') = ''sft''"
    by code_simp
  show ?thesis
    using u s p i n by (simp add: tile_def)
qed

theorem unit_type_matching_witness:
  "item_unit square_feet_item = ''square feet''
   \<and> stock_after_sale square_feet_item tile = \<lparr>boxes = Some 5, pieces = Some 0, sft = Some (- 1)\<rparr>
   \<and> stock_after_purchase square_feet_item tile = \<lparr>boxes = Some 5, pieces = Some 0, sft = Some 1\<rparr>"
proof -
  have u: "item_unit square_feet_item = ''square feet''"
    by (simp add: item_unit_def square_feet_item_def toLowerCase_def lower_char_def)
  have r: "round3 (Some (- 1)) = - 1"
    using round3_of_int [of "- 1"] by simp
  have n1: "item_qty square_feet_item = 1"
    by (simp add: item_qty_def square_feet_item_def num_or0_def)
  show ?thesis
    using unit_type_matching [of square_feet_item _ tile] u
    by (simp add: round_stock_def stock_or_zero_def tile_def n1 num_or0_def r)
qed

subsection \<open>Line items without a product\<close>

text \<open>
  C5. A line item of a sale whose \<open>productId\<close> is the \<open>id\<close> of no product makes its round
  of the loop return normally with the products as they were, the state changed by one
  console warning only, and the loop goes on with the items after it. With such an item
  anywhere among the items, the reconciliation of the sale has the result, and leaves
  the state apart from the console, that it has for the sale without that item. When the
  cache holds a document and localStorage accepts the writes, the reconciliation returns,
  and the products it leaves in the cache and in localStorage are those of before with
  every other item of the sale subtracted, in the order of the items, from the stock of
  its product: the item without a product changes no stock, and the stock of the products
  of the other items is still adjusted.
\<close>

theorem missing_product_skipped:
  "(find_product it ps = None \<longrightarrow>
      sale_item it ps s = (Inr ps, console_put (Console_warn ''Product not found for sale item'') s)
    \<and> sale_loop (it # after) ps s
        = sale_loop after ps (console_put (Console_warn ''Product not found for sale item'') s))
   \<and> ((\<forall>ps s1. getCollection d_products s = (Inr ps, s1) \<longrightarrow> find_product it ps = None)
      \<and> s_items sale = Some (before @ it # after) \<longrightarrow>
        fst (applyStockChangesFromSale sale s)
          = fst (applyStockChangesFromSale (sale\<lparr>s_items := Some (before @ after)\<rparr>) s)
      \<and> quiet (snd (applyStockChangesFromSale sale s))
          = quiet (snd (applyStockChangesFromSale (sale\<lparr>s_items := Some (before @ after)\<rparr>) s)))
   \<and> (dbCache s = Some db \<and> (\<forall>n. \<not> quota_at s n)
      \<and> find_product it (coll (d_products db)) = None
      \<and> s_items sale = Some (before @ it # after) \<longrightarrow>
        (\<exists>s' c d. applyStockChangesFromSale sale s = (Inr (), s')
           \<and> dbCache s' = Some c \<and> localStorage s' = Some (Encodes d)
           \<and> d_products c = Some (foldl (\<lambda>ps i. sold i ps) (coll (d_products db)) (before @ after))
           \<and> d_products d = Some (foldl (\<lambda>ps i. sold i ps) (coll (d_products db)) (before @ after))))"
proof (intro conjI impI)
  assume "find_product it ps = None"
  then show "sale_item it ps s = (Inr ps, console_put (Console_warn ''Product not found for sale item'') s)"
    and "sale_loop (it # after) ps s
        = sale_loop after ps (console_put (Console_warn ''Product not found for sale item'') s)"
    by (simp_all add: sale_item_missing)
next
  assume h: "(\<forall>ps s1. getCollection d_products s = (Inr ps, s1) \<longrightarrow> find_product it ps = None)
      \<and> s_items sale = Some (before @ it # after)"
  obtain r1 s1 where g: "getCollection d_products s = (r1, s1)"
    by (cases "getCollection d_products s")
  have both: "fst (applyStockChangesFromSale sale s)
          = fst (applyStockChangesFromSale (sale\<lparr>s_items := Some (before @ after)\<rparr>) s)
      \<and> quiet (snd (applyStockChangesFromSale sale s))
          = quiet (snd (applyStockChangesFromSale (sale\<lparr>s_items := Some (before @ after)\<rparr>) s))"
  proof (cases r1)
    case (Inl e)
    then show ?thesis
      using h g by (simp add: applyStockChangesFromSale_def)
  next
    case (Inr products)
    then have n: "find_product it products = None"
      using h g by blast
    obtain r2 s2 where l2: "sale_loop (before @ it # after) products s1 = (r2, s2)"
      by (cases "sale_loop (before @ it # after) products s1")
    obtain r3 s3 where l3: "sale_loop (before @ after) products s1 = (r3, s3)"
      by (cases "sale_loop (before @ after) products s1")
    have e: "r2 = r3" "quiet s2 = quiet s3"
      using sale_loop_without [OF n, of before after s1] l2 l3 by simp_all
    show ?thesis
    proof (cases r3)
      case (Inl e')
      then show ?thesis
        using h g Inr l2 l3 e by (simp add: applyStockChangesFromSale_def)
    next
      case (Inr products1)
      then show ?thesis
        using h g \<open>r1 = Inr products\<close> l2 l3 e
          saveCollection_quiet [OF e(2), of put_products products1]
        by (simp add: applyStockChangesFromSale_def split_def split: sum.splits)
    qed
  qed
  then show "fst (applyStockChangesFromSale sale s)
          = fst (applyStockChangesFromSale (sale\<lparr>s_items := Some (before @ after)\<rparr>) s)"
    and "quiet (snd (applyStockChangesFromSale sale s))
          = quiet (snd (applyStockChangesFromSale (sale\<lparr>s_items := Some (before @ after)\<rparr>) s))"
    by simp_all
next
  assume h: "dbCache s = Some db \<and> (\<forall>n. \<not> quota_at s n)
      \<and> find_product it (coll (d_products db)) = None
      \<and> s_items sale = Some (before @ it # after)"
  then have c: "dbCache s = Some db" and q: "\<forall>n. \<not> quota_at s n"
    and n: "find_product it (coll (d_products db)) = None"
    and i: "s_items sale = Some (before @ it # after)"
    by simp_all
  show "\<exists>s' c d. applyStockChangesFromSale sale s = (Inr (), s')
           \<and> dbCache s' = Some c \<and> localStorage s' = Some (Encodes d)
           \<and> d_products c = Some (foldl (\<lambda>ps i. sold i ps) (coll (d_products db)) (before @ after))
           \<and> d_products d = Some (foldl (\<lambda>ps i. sold i ps) (coll (d_products db)) (before @ after))"
    using applySale_healthy [OF c q i] unfolding foldl_sold_without [OF n] .
qed

theorem missing_product_skipped_witness:
  "find_product ghost [tile] = None
   \<and> sale_item ghost [tile] shop
       = (Inr [tile], console_put (Console_warn ''Product not found for sale item'') shop)
   \<and> getCollection d_products shop = (Inr [tile], shop)
   \<and> s_items mixed_sale = Some ([] @ ghost # [four_boxes])
   \<and> fst (applyStockChangesFromSale mixed_sale shop)
       = fst (applyStockChangesFromSale (mixed_sale\<lparr>s_items := Some ([] @ [four_boxes])\<rparr>) shop)
   \<and> quiet (snd (applyStockChangesFromSale mixed_sale shop))
       = quiet (snd (applyStockChangesFromSale (mixed_sale\<lparr>s_items := Some ([] @ [four_boxes])\<rparr>) shop))
   \<and> (\<exists>s' c d. applyStockChangesFromSale mixed_sale shop = (Inr (), s')
         \<and> dbCache s' = Some c \<and> localStorage s' = Some (Encodes d)
         \<and> d_products c
             = Some [tile\<lparr>p_currentStock := Some \<lparr>boxes = Some 1, pieces = Some 0, sft = Some 0\<rparr>\<rparr>]
         \<and> d_products d
             = Some [tile\<lparr>p_currentStock := Some \<lparr>boxes = Some 1, pieces = Some 0, sft = Some 0\<rparr>\<rparr>])"
proof -
  have n: "find_product ghost [tile] = None"
    by (simp add: find_product_def ghost_def tile_def)
  have c: "dbCache shop = Some shop_doc" and q: "\<forall>n. \<not> quota_at shop n"
    by (simp_all add: shop_def)
  have ps: "coll (d_products shop_doc) = [tile]"
    by (simp add: shop_doc_def coll_def)
  have g0: "getCollection d_products shop = (Inr [tile], shop)"
    by (simp add: getCollection_cached [OF c] ps)
  have g: "\<forall>ps s1. getCollection d_products shop = (Inr ps, s1) \<longrightarrow> find_product ghost ps = None"
    using n g0 by simp
  have i: "s_items mixed_sale = Some ([] @ ghost # [four_boxes])"
    by (simp add: mixed_sale_def new_sale_def sale_of_def assign_def)
  have f: "find_product four_boxes [tile] = Some 0"
    by (simp add: find_product_def four_boxes_def tile_def)
  have u: "item_unit four_boxes = ''box''"
    by (simp add: four_boxes_def item_unit_def toLowerCase_Box)
  have a: "stock_after_sale four_boxes tile = \<lparr>boxes = Some 1, pieces = Some 0, sft = Some 0\<rparr>"
  proof -
    have y: "i_quantity four_boxes = Some 4"
      by (simp add: four_boxes_def)
    have z: "p_currentStock tile = Some \<lparr>boxes = Some 5, pieces = Some 0, sft = Some 0\<rparr>"
      by (simp add: tile_def)
    show ?thesis
      by (simp add: stock_after_sale_def round_stock_def sale_apply_def stock_or_zero_def u
          item_qty_def num_or0_def y z)
  qed
  have e: "foldl (\<lambda>ps i. sold i ps) [tile] ([] @ [four_boxes])
      = [tile\<lparr>p_currentStock := Some \<lparr>boxes = Some 1, pieces = Some 0, sft = Some 0\<rparr>\<rparr>]"
    by (simp add: sold_def f a)
  have t: "\<exists>s' c d. applyStockChangesFromSale mixed_sale shop = (Inr (), s')
         \<and> dbCache s' = Some c \<and> localStorage s' = Some (Encodes d)
         \<and> d_products c
             = Some [tile\<lparr>p_currentStock := Some \<lparr>boxes = Some 1, pieces = Some 0, sft = Some 0\<rparr>\<rparr>]
         \<and> d_products d
             = Some [tile\<lparr>p_currentStock := Some \<lparr>boxes = Some 1, pieces = Some 0, sft = Some 0\<rparr>\<rparr>]"
    using missing_product_skipped [where it = ghost and s = shop and db = shop_doc
        and sale = mixed_sale and before = "[]" and after = "[four_boxes]"] c q n i
    unfolding ps e by blast
  show ?thesis
    using missing_product_skipped [where it = ghost and ps = "[tile]" and s = shop
        and sale = mixed_sale and before = "[]" and after = "[four_boxes]"] n g g0 i t
    by blast
qed

subsection \<open>Migration on load\<close>



subsection \<open>Export and import\<close>

text \<open>
  C7. As long as localStorage accepts the writes, \<open>exportDB\<close> returns the text of the
  document \<open>loadDB\<close> gives, \<open>importDB\<close> of that text with \<open>merge = false\<close> returns a
  document whose products, sales, purchases and alerts are those of the exported one, and
  that document is the cache from then on: the four \<open>getAll\<close> functions return the same
  collections as before the export.
\<close>

theorem export_import_roundtrip:
  assumes "\<forall>n. \<not> quota_at s n"
  shows "\<exists>db t s1 base s2.
           fst (loadDB False s) = Inr db
         \<and> exportDB s = (Inr (t, Encodes db), s1)
         \<and> importDB (Some (Encodes db)) False s1 = (Inr base, s2)
         \<and> coll (d_products base) = coll (d_products db)
         \<and> coll (d_sales base) = coll (d_sales db)
         \<and> coll (d_purchases base) = coll (d_purchases db)
         \<and> coll (d_alerts base) = coll (d_alerts db)
         \<and> dbCache s2 = Some base
         \<and> getAllProducts s2 = (Inr (coll (d_products db)), s2)
         \<and> getAllSales s2 = (Inr (coll (d_sales db)), s2)
         \<and> getAllPurchases s2 = (Inr (coll (d_purchases db)), s2)
         \<and> getAllAlerts s2 = (Inr (coll (d_alerts db)), s2)"
proof -
  obtain db s0 where l: "loadDB False s = (Inr db, s0)" and q: "quota_at s0 = quota_at s"
    using loadDB_total [OF assms, of False] by blast
  define s1 where "s1 = snd (nowISO s0)"
  define t where "t = fst (nowISO s0)"
  have e: "exportDB s = (Inr (t, Encodes db), s1)"
    by (simp add: exportDB_def l split_def Let_def s1_def t_def)
  have q1: "quota_at s1 = quota_at s"
    by (simp add: s1_def nowISO_snd q)
  define s2 where "s2 = snd (emptyDB s1)"
  define s3 where "s3 = snd (nowISO s2)"
  define base where "base = set_importedAt (fst (nowISO s2)) (import_replace db (fst (emptyDB s1)))"
  have q3: "\<not> quota_at s3 (set_calls s3)"
    using assms q1 by (simp add: s3_def s2_def nowISO_snd emptyDB_snd)
  obtain s4 where sv: "saveDB base s3 = (Inr True, s4)" and c4: "dbCache s4 = Some base"
    using saveDB_ok [OF q3, of base] by simp
  have i: "importDB (Some (Encodes db)) False s1 = (Inr base, s4)"
    by (simp add: importDB_def split_def Let_def s2_def [symmetric] s3_def [symmetric]
        base_def [symmetric] sv)
  have cs: "coll (d_products base) = coll (d_products db)"
    "coll (d_sales base) = coll (d_sales db)"
    "coll (d_purchases base) = coll (d_purchases db)"
    "coll (d_alerts base) = coll (d_alerts db)"
    by (simp_all add: base_def coll_import_replace)
  show ?thesis
    using l e i cs c4
    by (simp add: getAllProducts_def getAllSales_def getAllPurchases_def getAllAlerts_def
        getCollection_cached [OF c4])
qed

theorem export_import_roundtrip_witness:
  "(\<forall>n. \<not> quota_at shop n)
   \<and> (\<exists>t s1 base s2.
           exportDB shop = (Inr (t, Encodes shop_doc), s1)
         \<and> importDB (Some (Encodes shop_doc)) False s1 = (Inr base, s2)
         \<and> coll (d_products base) = [tile]
         \<and> getAllProducts s2 = (Inr [tile], s2))"
proof -
  have q: "\<forall>n. \<not> quota_at shop n"
    by (simp add: shop_def)
  have l: "fst (loadDB False shop) = Inr shop_doc"
    by (simp add: loadDB_def shop_def)
  have p: "coll (d_products shop_doc) = [tile]"
    by (simp add: shop_doc_def coll_def)
  show ?thesis
    using q export_import_roundtrip [OF q] l p by auto
qed

subsection \<open>Unit conversion\<close>




subsection \<open>Saving\<close>

text \<open>
  C9, as amended. A successful \<open>saveDB(doc)\<close> stores a copy of \<open>doc\<close> stamped with a fresh
  \<open>meta.updatedAt\<close>, and replaces the cache with \<open>doc\<close> as it was passed: every registered
  watcher is called, in order, with \<open>doc\<close> as passed, and a later \<open>loadDB()\<close> without
  \<open>force\<close> returns \<open>doc\<close> as passed. The fresh stamp is read back by \<open>loadDB(true)\<close> only.
\<close>

theorem saveDB_cache:
  assumes "\<not> quota_at s (set_calls s)"
  shows "\<exists>s'. saveDB dbObj s = (Inr True, s')
           \<and> localStorage s' = Some (Encodes (set_updatedAt (now_at s (now_reads s)) dbObj))
           \<and> dbCache s' = Some dbObj
           \<and> notified s' = notified s @ map (\<lambda>w. (w_id w, dbObj)) (watchers s)
           \<and> loadDB False s' = (Inr dbObj, s')
           \<and> (\<not> needs_migration dbObj \<longrightarrow>
                fst (loadDB True s') = Inr (set_updatedAt (now_at s (now_reads s)) dbObj))"
  using assms
  by (simp add: saveDB_ok loadDB_def load_def load_try_def getItem_def)

text \<open>
  C9 as stated fails: saving a document whose \<open>meta.updatedAt\<close> is 2 at time 100 stores the
  stamp 100, while the watcher and the next \<open>loadDB()\<close> get the document with the stamp 2.
\<close>

theorem saveDB_stamp_counterexample:
  "fst (saveDB shop_doc shop) = Inr True
   \<and> localStorage (snd (saveDB shop_doc shop)) =
       Some (Encodes (shop_doc\<lparr>d_meta := Some \<lparr>m_version = Some 1, m_createdAt = Some 1,
                                                 m_updatedAt = Some 100, m_importedAt = None\<rparr>\<rparr>))
   \<and> notified (snd (saveDB shop_doc shop)) = [(0, shop_doc)]
   \<and> fst (loadDB False (snd (saveDB shop_doc shop))) = Inr shop_doc
   \<and> d_meta shop_doc = Some \<lparr>m_version = Some 1, m_createdAt = Some 1, m_updatedAt = Some 2,
                              m_importedAt = None\<rparr>"
proof -
  have q: "\<not> quota_at shop (set_calls shop)"
    by (simp add: shop_def)
  show ?thesis
    unfolding saveDB_ok [OF q]
    by (simp add: loadDB_def) (simp add: shop_def shop_doc_def set_updatedAt_def page_def)
qed

theorem saveDB_cache_witness:
  "\<not> quota_at shop (set_calls shop) \<and> \<not> needs_migration shop_doc
   \<and> (\<exists>s'. saveDB shop_doc shop = (Inr True, s')
           \<and> localStorage s' = Some (Encodes (set_updatedAt (now_at shop (now_reads shop)) shop_doc))
           \<and> dbCache s' = Some shop_doc
           \<and> notified s' = notified shop @ map (\<lambda>w. (w_id w, shop_doc)) (watchers shop)
           \<and> loadDB False s' = (Inr shop_doc, s')
           \<and> fst (loadDB True s') = Inr (set_updatedAt (now_at shop (now_reads shop)) shop_doc))"
proof -
  have q: "\<not> quota_at shop (set_calls shop)"
    by (simp add: shop_def)
  have m: "\<not> needs_migration shop_doc"
    by (simp add: needs_migration_def shop_doc_def DB_VERSION_def)
  show ?thesis
    using q m saveDB_cache [OF q, of shop_doc] by auto
qed

subsection \<open>Adding a product\<close>

text \<open>
  C10. When \<open>addProduct\<close> succeeds, every key present in its argument is the value of that
  key in the product returned, \<open>id\<close> and \<open>dateAdded\<close> included, and the product returned is
  the last of the products in the cache and in localStorage. Two calls with the same \<open>id\<close>
  therefore leave two products with that \<open>id\<close>.
\<close>

theorem addProduct_keys:
  assumes "addProduct pd s = (Inr product, s')"
  shows "(\<forall>v. pd_id pd = Some v \<longrightarrow> p_id product = v)
       \<and> (\<forall>v. pd_name pd = Some v \<longrightarrow> p_name product = v)
       \<and> (\<forall>v. pd_category pd = Some v \<longrightarrow> p_category product = v)
       \<and> (\<forall>v. pd_brand pd = Some v \<longrightarrow> p_brand product = v)
       \<and> (\<forall>v. pd_sku pd = Some v \<longrightarrow> p_sku product = v)
       \<and> (\<forall>v. pd_size pd = Some v \<longrightarrow> p_size product = v)
       \<and> (\<forall>v. pd_unitType pd = Some v \<longrightarrow> p_unitType product = v)
       \<and> (\<forall>v. pd_piecesPerBox pd = Some v \<longrightarrow> p_piecesPerBox product = v)
       \<and> (\<forall>v. pd_sftPerBox pd = Some v \<longrightarrow> p_sftPerBox product = v)
       \<and> (\<forall>v. pd_costPrice pd = Some v \<longrightarrow> p_costPrice product = v)
       \<and> (\<forall>v. pd_sellingPricePerUnit pd = Some v \<longrightarrow> p_sellingPricePerUnit product = v)
       \<and> (\<forall>v. pd_currentStock pd = Some v \<longrightarrow> p_currentStock product = v)
       \<and> (\<forall>v. pd_minStock pd = Some v \<longrightarrow> p_minStock product = v)
       \<and> (\<forall>v. pd_supplierName pd = Some v \<longrightarrow> p_supplierName product = v)
       \<and> (\<forall>v. pd_supplierContact pd = Some v \<longrightarrow> p_supplierContact product = v)
       \<and> (\<forall>v. pd_location pd = Some v \<longrightarrow> p_location product = v)
       \<and> (\<forall>v. pd_imageUrl pd = Some v \<longrightarrow> p_imageUrl product = v)
       \<and> (\<forall>v. pd_dateAdded pd = Some v \<longrightarrow> p_dateAdded product = v)
       \<and> (\<forall>v. pd_notes pd = Some v \<longrightarrow> p_notes product = v)
       \<and> (\<exists>db xs u. dbCache s' = Some db \<and> d_products db = Some (xs @ [product])
              \<and> localStorage s' = Some (Encodes (set_updatedAt u db)))
       \<and> (\<forall>pd2 p2 s2. addProduct pd2 s' = (Inr p2, s2) \<and> pd_id pd \<noteq> None \<and> pd_id pd2 = pd_id pd
              \<longrightarrow> p_id p2 = p_id product
                \<and> (\<exists>db2 xs. dbCache s2 = Some db2 \<and> d_products db2 = Some (xs @ [product, p2])))"
proof -
  obtain db s1 gid t u where l: "loadDB False s = (Inr db, s1)"
    and p: "product = new_product gid t pd"
    and c: "dbCache s' = Some (put_products (coll (d_products db) @ [product]) db)"
    and st: "localStorage s' =
        Some (Encodes (set_updatedAt u (put_products (coll (d_products db) @ [product]) db)))"
    using addProduct_stored [OF assms] by blast
  have stored: "\<exists>db xs u. dbCache s' = Some db \<and> d_products db = Some (xs @ [product])
              \<and> localStorage s' = Some (Encodes (set_updatedAt u db))"
    using c st by (auto simp: put_products_def)
  have again: "p_id p2 = p_id product
      \<and> (\<exists>db2 xs. dbCache s2 = Some db2 \<and> d_products db2 = Some (xs @ [product, p2]))"
    if a2: "addProduct pd2 s' = (Inr p2, s2)" and i: "pd_id pd \<noteq> None" "pd_id pd2 = pd_id pd"
    for pd2 p2 s2
  proof -
    obtain db' s1' gid' t' where l': "loadDB False s' = (Inr db', s1')"
      and p': "p2 = new_product gid' t' pd2"
      and c': "dbCache s2 = Some (put_products (coll (d_products db') @ [p2]) db')"
      using addProduct_stored [OF a2] by blast
    have "db' = put_products (coll (d_products db) @ [product]) db"
      using l' loadDB_cached [OF c] by simp
    then have "d_products (put_products (coll (d_products db') @ [p2]) db')
        = Some (coll (d_products db) @ [product, p2])"
      by (simp add: put_products_def coll_def)
    moreover have "p_id p2 = p_id product"
      using i p p' by (auto simp: new_product_def assign_def)
    ultimately show ?thesis
      using c' by auto
  qed
  have keys: "(\<forall>v. pd_id pd = Some v \<longrightarrow> p_id product = v)"
      "(\<forall>v. pd_name pd = Some v \<longrightarrow> p_name product = v)"
      "(\<forall>v. pd_category pd = Some v \<longrightarrow> p_category product = v)"
      "(\<forall>v. pd_brand pd = Some v \<longrightarrow> p_brand product = v)"
      "(\<forall>v. pd_sku pd = Some v \<longrightarrow> p_sku product = v)"
      "(\<forall>v. pd_size pd = Some v \<longrightarrow> p_size product = v)"
      "(\<forall>v. pd_unitType pd = Some v \<longrightarrow> p_unitType product = v)"
      "(\<forall>v. pd_piecesPerBox pd = Some v \<longrightarrow> p_piecesPerBox product = v)"
      "(\<forall>v. pd_sftPerBox pd = Some v \<longrightarrow> p_sftPerBox product = v)"
      "(\<forall>v. pd_costPrice pd = Some v \<longrightarrow> p_costPrice product = v)"
      "(\<forall>v. pd_sellingPricePerUnit pd = Some v \<longrightarrow> p_sellingPricePerUnit product = v)"
      "(\<forall>v. pd_currentStock pd = Some v \<longrightarrow> p_currentStock product = v)"
      "(\<forall>v. pd_minStock pd = Some v \<longrightarrow> p_minStock product = v)"
      "(\<forall>v. pd_supplierName pd = Some v \<longrightarrow> p_supplierName product = v)"
      "(\<forall>v. pd_supplierContact pd = Some v \<longrightarrow> p_supplierContact product = v)"
      "(\<forall>v. pd_location pd = Some v \<longrightarrow> p_location product = v)"
      "(\<forall>v. pd_imageUrl pd = Some v \<longrightarrow> p_imageUrl product = v)"
      "(\<forall>v. pd_dateAdded pd = Some v \<longrightarrow> p_dateAdded product = v)"
      "(\<forall>v. pd_notes pd = Some v \<longrightarrow> p_notes product = v)"
    by (simp_all add: p new_product_def assign_def)
  have last: "\<forall>pd2 p2 s2. addProduct pd2 s' = (Inr p2, s2) \<and> pd_id pd \<noteq> None \<and> pd_id pd2 = pd_id pd
              \<longrightarrow> p_id p2 = p_id product
                \<and> (\<exists>db2 xs. dbCache s2 = Some db2 \<and> d_products db2 = Some (xs @ [product, p2]))"
    using again by blast
  show ?thesis
    by (intro conjI keys stored last)
qed

theorem addProduct_keys_witness:
  "\<exists>p s'. addProduct twin shop = (Inr p, s') \<and> pd_id twin = Some ''p1'' \<and> p_id p = ''p1''
      \<and> pd_dateAdded twin = Some 7 \<and> p_dateAdded p = 7
      \<and> (\<exists>db. dbCache s' = Some db \<and> d_products db = Some [tile, p]) \<and> p_id tile = ''p1''"
proof -
  obtain p s' where a: "addProduct twin shop = (Inr p, s')"
    using addProduct_ok [of shop shop_doc twin] by (auto simp: shop_def)
  have i: "pd_id twin = Some ''p1''" "pd_dateAdded twin = Some 7" "p_id tile = ''p1''"
    by (simp_all add: twin_def tile_def)
  obtain db s1 gid t where l: "loadDB False shop = (Inr db, s1)"
    and "p = new_product gid t twin"
    and c: "dbCache s' = Some (put_products (coll (d_products db) @ [p]) db)"
    using addProduct_stored [OF a] by blast
  have "db = shop_doc"
    using l by (simp add: loadDB_def shop_def)
  then have "d_products (put_products (coll (d_products db) @ [p]) db) = Some [tile, p]"
    by (simp add: put_products_def coll_def shop_doc_def)
  then show ?thesis
    using a i c addProduct_keys [OF a] by auto
qed

end
